(* ===== verification/Prelude.thy ===== *)
theory Prelude
  imports Main "HOL-Library.Word" "HOL-Library.Sublist"
begin

text \<open>
  Shared ground of the development: the fact collections, the Go types the
  components exchange, and the functions of Go's \<^verbatim>\<open>strings\<close>, \<^verbatim>\<open>strconv\<close>/\<^verbatim>\<open>fmt\<close> and
  \<^verbatim>\<open>encoding\<close> packages that the sources call, with the lemmas about them that the
  component theories use.

  A Go \<^verbatim>\<open>string\<close> is a HOL \<^typ>\<open>string\<close>, one \<^typ>\<open>char\<close> per byte; the case mapping of
  \<open>ToLower\<close> and the white space of \<open>TrimSpace\<close> are those of the ASCII bytes, on which
  Go's Unicode-aware functions agree with it. A \<^verbatim>\<open>[]byte\<close> is a list of \<open>8 word\<close>; Go's
  \<^verbatim>\<open>int32\<close> and \<^verbatim>\<open>int64\<close> are words where they travel over the wire and \<^typ>\<open>int\<close> where the
  code only counts with them. A time is \<^typ>\<open>int\<close> nanoseconds.
\<close>

section \<open>Fact collections\<close>

named_theorems go_string \<open>lemmas about the modelled functions of Go's strings package\<close>
named_theorems wf_preserve \<open>operations keep their component's invariant\<close>
named_theorems frame \<open>what an operation leaves alone\<close>

section \<open>Types\<close>

type_synonym time = int
type_synonym duration = int
type_synonym byte = "8 word"
type_synonym bytes = "byte list"
type_synonym i32 = "32 word"
type_synonym i64 = "64 word"

abbreviation Second :: duration where "Second \<equiv> 1000000000"
abbreviation Minute :: duration where "Minute \<equiv> 60 * Second"
abbreviation Hour :: duration where "Hour \<equiv> 60 * Minute"

text \<open>Go's division of integers, which truncates towards zero.\<close>

definition go_div :: "int \<Rightarrow> int \<Rightarrow> int" where
  "go_div a b = sgn a * sgn b * (\<bar>a\<bar> div \<bar>b\<bar>)"

text \<open>What aborts a Go function without a result: the run-time panics the sources can meet.\<close>

datatype go_panic = IndexOutOfRange | SliceOutOfRange | NilDereference | Explicit string

section \<open>Go's strings package\<close>

definition HasPrefix :: "string \<Rightarrow> string \<Rightarrow> bool" where
  "HasPrefix s p \<longleftrightarrow> take (length p) s = p"

definition HasSuffix :: "string \<Rightarrow> string \<Rightarrow> bool" where
  "HasSuffix s p \<longleftrightarrow> length p \<le> length s \<and> drop (length s - length p) s = p"

text \<open>\<open>strings.Index\<close>, with \<open>None\<close> for its result \<open>-1\<close>.\<close>

fun Index :: "string \<Rightarrow> string \<Rightarrow> nat option" where
  "Index [] sub = (if sub = [] then Some 0 else None)"
| "Index (c # s) sub =
     (if HasPrefix (c # s) sub then Some 0 else map_option Suc (Index s sub))"

definition Contains :: "string \<Rightarrow> string \<Rightarrow> bool" where
  "Contains s sub \<longleftrightarrow> Index s sub \<noteq> None"

text \<open>\<open>strings.LastIndex\<close> for a one-byte substring.\<close>

definition LastIndex :: "string \<Rightarrow> char \<Rightarrow> nat option" where
  "LastIndex s c = (case Index (rev s) [c] of None \<Rightarrow> None | Some i \<Rightarrow> Some (length s - Suc i))"

definition TrimPrefix :: "string \<Rightarrow> string \<Rightarrow> string" where
  "TrimPrefix s p = (if HasPrefix s p then drop (length p) s else s)"

definition TrimSuffix :: "string \<Rightarrow> string \<Rightarrow> string" where
  "TrimSuffix s p = (if HasSuffix s p then take (length s - length p) s else s)"

definition trim_by :: "(char \<Rightarrow> bool) \<Rightarrow> string \<Rightarrow> string" where
  "trim_by P s = rev (dropWhile P (rev (dropWhile P s)))"

text \<open>\<open>strings.Trim\<close> with a one-byte cut set, and \<open>strings.TrimSpace\<close>.\<close>

definition Trim :: "string \<Rightarrow> char \<Rightarrow> string" where
  "Trim s c = trim_by (\<lambda>x. x = c) s"

definition is_space :: "char \<Rightarrow> bool" where
  "is_space c = (let n = (of_char c :: nat) in n = 32 \<or> (9 \<le> n \<and> n \<le> 13))"

definition TrimSpace :: "string \<Rightarrow> string" where
  "TrimSpace s = trim_by is_space s"

definition lower_char :: "char \<Rightarrow> char" where
  "lower_char c = (let n = (of_char c :: nat) in if 65 \<le> n \<and> n \<le> 90 then char_of (n + 32) else c)"

definition ToLower :: "string \<Rightarrow> string" where
  "ToLower s = map lower_char s"

text \<open>
  \<open>strings.Split\<close>; an empty separator, which the sources never pass, splits after every
  byte.
\<close>

lemma Index_bound: "Index s sub = Some i \<Longrightarrow> i + length sub \<le> length s"
  by (induction s sub arbitrary: i rule: Index.induct)
    (auto simp: HasPrefix_def min_def dest: arg_cong [where f = length] split: if_splits)

lemma Index_shrinks:
  assumes "sep \<noteq> []" and "Index s sep = Some i"
  shows "length s - (i + length sep) < length s"
proof -
  have "0 < length sep" using assms(1) by simp
  with Index_bound [OF assms(2)] show ?thesis by linarith
qed

function Split :: "string \<Rightarrow> string \<Rightarrow> string list" where
  "Split s sep =
     (if sep = [] then map (\<lambda>c. [c]) s
      else case Index s sep of
        None \<Rightarrow> [s]
      | Some i \<Rightarrow> take i s # Split (drop (i + length sep) s) sep)"
  by pat_completeness auto
termination
  by (relation "measure (\<lambda>(s, sep). length s)") (auto intro: Index_shrinks)

declare Split.simps [simp del]

text \<open>\<open>strings.SplitN\<close> with its count 2, the only one in use.\<close>

definition SplitN2 :: "string \<Rightarrow> string \<Rightarrow> string list" where
  "SplitN2 s sep =
     (case Index s sep of None \<Rightarrow> [s] | Some i \<Rightarrow> [take i s, drop (i + length sep) s])"

text \<open>\<open>strings.Replace\<close> with count 1 and \<open>strings.ReplaceAll\<close> for a one-byte pattern.\<close>

definition Replace1 :: "string \<Rightarrow> string \<Rightarrow> string \<Rightarrow> string" where
  "Replace1 s old new =
     (case Index s old of None \<Rightarrow> s | Some i \<Rightarrow> take i s @ new @ drop (i + length old) s)"

definition ReplaceAll :: "string \<Rightarrow> char \<Rightarrow> string \<Rightarrow> string" where
  "ReplaceAll s c new = concat (map (\<lambda>x. if x = c then new else [x]) s)"

subsection \<open>Facts about them\<close>

lemma HasPrefix_append [go_string, simp]: "HasPrefix (p @ s) p"
  by (simp add: HasPrefix_def)

lemma HasPrefix_iff [go_string]: "HasPrefix s p \<longleftrightarrow> (\<exists>t. s = p @ t)"
  by (metis HasPrefix_def append_eq_conv_conj)

lemma HasPrefix_single [simp]: "HasPrefix (c # s) [d] \<longleftrightarrow> c = d"
  by (simp add: HasPrefix_def)

lemma HasPrefix_Nil_single [simp]: "\<not> HasPrefix [] [d]"
  by (simp add: HasPrefix_def)

lemma HasSuffix_iff [go_string]: "HasSuffix s p \<longleftrightarrow> (\<exists>t. s = t @ p)"
proof
  assume "HasSuffix s p"
  then show "\<exists>t. s = t @ p"
    by (metis HasSuffix_def append_take_drop_id)
qed (auto simp: HasSuffix_def)

lemma Index_SomeD:
  "Index s sub = Some i \<Longrightarrow> s = take i s @ sub @ drop (i + length sub) s"
proof (induction s sub arbitrary: i rule: Index.induct)
  case (2 c s sub)
  show ?case
  proof (cases "HasPrefix (c # s) sub")
    case True
    with 2 show ?thesis by (auto simp: HasPrefix_iff)
  next
    case False
    with 2 show ?thesis by auto
  qed
qed (auto split: if_splits)

lemma Index_None_iff: "Index s sub = None \<longleftrightarrow> (\<nexists>p t. s = p @ sub @ t)"
proof (induction s sub rule: Index.induct)
  case (2 c s sub)
  show ?case
  proof (cases "HasPrefix (c # s) sub")
    case True
    then obtain t where "c # s = [] @ sub @ t" by (auto simp: HasPrefix_iff)
    with True show ?thesis by (metis Index.simps(2) option.distinct(1))
  next
    case False
    then have "\<nexists>t. c # s = sub @ t" by (simp add: HasPrefix_iff)
    then have "(\<exists>p t. c # s = p @ sub @ t) \<longleftrightarrow> (\<exists>p t. s = p @ sub @ t)"
      by (metis append_Cons append_eq_Cons_conv)
    with False 2 show ?thesis by simp
  qed
qed auto

lemma Contains_iff [go_string]: "Contains s sub \<longleftrightarrow> (\<exists>p t. s = p @ sub @ t)"
  unfolding Contains_def using Index_None_iff by metis

lemma Contains_single [go_string, simp]: "Contains s [c] \<longleftrightarrow> c \<in> set s"
  by (auto simp: Contains_iff in_set_conv_decomp)

lemma Index_single_None: "c \<notin> set s \<Longrightarrow> Index s [c] = None"
  by (induction s) auto

lemma Index_single_append: "c \<notin> set p \<Longrightarrow> Index (p @ c # s) [c] = Some (length p)"
  by (induction p) auto

lemma SplitN2_single [go_string]:
  "c \<notin> set p \<Longrightarrow> SplitN2 (p @ c # s) [c] = [p, s]"
  by (simp add: SplitN2_def Index_single_append)

lemma SplitN2_none [go_string]: "c \<notin> set p \<Longrightarrow> SplitN2 p [c] = [p]"
  by (simp add: SplitN2_def Index_single_None)

lemma Split_single_append [go_string]:
  "c \<notin> set p \<Longrightarrow> Split (p @ c # s) [c] = p # Split s [c]"
  by (subst Split.simps) (simp add: Index_single_append)

lemma Split_single_none [go_string]: "c \<notin> set p \<Longrightarrow> Split p [c] = [p]"
  by (subst Split.simps) (simp add: Index_single_None)

lemma Split_nonempty [simp]: "sep \<noteq> [] \<Longrightarrow> Split s sep \<noteq> []"
  by (subst Split.simps) (simp split: option.split)

text \<open>\<open>strings.Join\<close> with a one-byte separator, the inverse of \<open>Split\<close>.\<close>

fun Join :: "char \<Rightarrow> string list \<Rightarrow> string" where
  "Join c [] = []"
| "Join c [p] = p"
| "Join c (p # q # ps) = p @ c # Join c (q # ps)"

lemma Split_Join:
  "ps \<noteq> [] \<Longrightarrow> \<forall>p \<in> set ps. c \<notin> set p \<Longrightarrow> Split (Join c ps) [c] = ps"
  by (induction c ps rule: Join.induct) (auto simp: Split_single_none Split_single_append)

lemma Join_Split: "Join c (Split s [c]) = s"
proof (induction s "[c]" rule: Split.induct)
  case (1 s)
  show ?case
  proof (cases "Index s [c]")
    case None
    then show ?thesis by (subst Split.simps) simp
  next
    case (Some i)
    obtain q qs where q: "Split (drop (i + length [c]) s) [c] = q # qs"
      by (metis Split_nonempty list.exhaust not_Cons_self2)
    have "Join c (Split (drop (i + length [c]) s) [c]) = drop (i + length [c]) s"
      by (rule 1) (simp_all add: Some)
    then have "take i s @ [c] @ Join c (q # qs) = s" using Index_SomeD [OF Some] q by simp
    then show ?thesis using Some q by (subst Split.simps) simp
  qed
qed

lemma Index_single_take: "Index s [c] = Some i \<Longrightarrow> c \<notin> set (take i s)"
  by (induction s arbitrary: i) (auto split: if_splits)

lemma Split_single_free: "p \<in> set (Split s [c]) \<Longrightarrow> c \<notin> set p"
proof (induction s "[c]" rule: Split.induct)
  case (1 s)
  show ?case
  proof (cases "Index s [c]")
    case None
    with 1 show ?thesis by (subst (asm) (2) Split.simps) (auto simp: Index_None_iff in_set_conv_decomp)
  next
    case (Some i)
    with 1 show ?thesis by (subst (asm) (2) Split.simps) (auto dest: Index_single_take)
  qed
qed

lemma Split_single_iff [go_string]:
  "Split s [c] = ps \<longleftrightarrow> ps \<noteq> [] \<and> (\<forall>p \<in> set ps. c \<notin> set p) \<and> s = Join c ps"
  using Split_Join Join_Split Split_single_free by (metis Split_nonempty not_Cons_self2)

lemma first_occurrence_inj:
  "c \<notin> set p \<Longrightarrow> c \<notin> set q \<Longrightarrow> p @ c # s = q @ c # t \<longleftrightarrow> p = q \<and> s = t"
proof (induction p arbitrary: q)
  case Nil
  then show ?case by (cases q) auto
next
  case (Cons x p)
  then show ?case by (cases q) auto
qed

lemma lower_char_idem [simp]: "lower_char (lower_char c) = lower_char c"
  by (auto simp: lower_char_def Let_def)

lemma ToLower_idem [go_string, simp]: "ToLower (ToLower s) = ToLower s"
  by (simp add: ToLower_def)

lemma ToLower_append [simp]: "ToLower (s @ t) = ToLower s @ ToLower t"
  by (simp add: ToLower_def)

lemma ToLower_Nil [simp]: "ToLower [] = []"
  by (simp add: ToLower_def)

lemma ToLower_eq_Nil [simp]: "ToLower s = [] \<longleftrightarrow> s = []"
  by (simp add: ToLower_def)

lemma length_ToLower [simp]: "length (ToLower s) = length s"
  by (simp add: ToLower_def)

lemma of_char_lower_upper: "c \<in> set (ToLower s) \<Longrightarrow> \<not> (65 \<le> (of_char c :: nat) \<and> (of_char c :: nat) \<le> 90)"
  by (auto simp: ToLower_def lower_char_def Let_def)

text \<open>
  A byte that is no upper-case letter and that no upper-case letter is lowered to
  (the separators and the star of the patterns) is in the lowered string where it was.
\<close>

lemma lower_char_eq_iff:
  assumes "(of_char c :: nat) < 65"
  shows "lower_char d = c \<longleftrightarrow> d = c"
proof -
  have "lower_char c = c" using assms by (simp add: lower_char_def)
  moreover have "of_char (lower_char d) \<ge> (97 :: nat)" if "65 \<le> (of_char d :: nat)" "(of_char d :: nat) \<le> 90"
    using that by (simp add: lower_char_def of_char_of take_bit_eq_mod)
  ultimately show ?thesis using assms by (cases "65 \<le> (of_char d :: nat) \<and> (of_char d :: nat) \<le> 90")
      (auto simp: lower_char_def Let_def)
qed

lemma mem_ToLower_iff:
  "(of_char c :: nat) < 65 \<Longrightarrow> c \<in> set (ToLower s) \<longleftrightarrow> c \<in> set s"
  by (auto simp: ToLower_def image_iff lower_char_eq_iff eq_commute [of c])

section \<open>Numbers and bytes as text\<close>

text \<open>The verb \<^verbatim>\<open>%d\<close> of \<^verbatim>\<open>fmt\<close>.\<close>

definition digit_char :: "nat \<Rightarrow> char" where
  "digit_char d = char_of (48 + d)"

fun show_nat :: "nat \<Rightarrow> string" where
  "show_nat n = (if n < 10 then [digit_char n] else show_nat (n div 10) @ [digit_char (n mod 10)])"

declare show_nat.simps [simp del]

definition show_int :: "int \<Rightarrow> string" where
  "show_int i = (if i < 0 then CHR ''-'' # show_nat (nat (- i)) else show_nat (nat i))"

text \<open>\<^verbatim>\<open>hex.EncodeToString\<close>, which is also the verb \<^verbatim>\<open>%x\<close> on a byte slice.\<close>

definition hex_digit :: "nat \<Rightarrow> char" where
  "hex_digit d = (if d < 10 then char_of (48 + d) else char_of (87 + d))"

definition hex_encode :: "bytes \<Rightarrow> string" where
  "hex_encode bs = concat (map (\<lambda>b. [hex_digit (unat b div 16), hex_digit (unat b mod 16)]) bs)"

text \<open>\<^verbatim>\<open>base64.StdEncoding.EncodeToString\<close>.\<close>

definition b64_alphabet :: string where
  "b64_alphabet = ''ABCDEFGHIJKLMNOPQRSTUVWXYZabcdefghijklmnopqrstuvwxyz0123456789+/''"

abbreviation b64_char :: "nat \<Rightarrow> char" where
  "b64_char n \<equiv> b64_alphabet ! n"

fun base64_encode :: "bytes \<Rightarrow> string" where
  "base64_encode [] = []"
| "base64_encode [a] =
     [b64_char (unat a div 4), b64_char (unat a mod 4 * 16), CHR ''='', CHR ''='']"
| "base64_encode [a, b] =
     [b64_char (unat a div 4), b64_char (unat a mod 4 * 16 + unat b div 16),
      b64_char (unat b mod 16 * 4), CHR ''='']"
| "base64_encode (a # b # c # bs) =
     [b64_char (unat a div 4), b64_char (unat a mod 4 * 16 + unat b div 16),
      b64_char (unat b mod 16 * 4 + unat c div 64), b64_char (unat c mod 64)] @ base64_encode bs"

subsection \<open>They are injective\<close>

lemma of_char_digit_char [simp]: "d < 10 \<Longrightarrow> of_char (digit_char d) = (48 + d :: nat)"
  by (simp add: digit_char_def)

lemma digit_char_inj: "d < 10 \<Longrightarrow> e < 10 \<Longrightarrow> digit_char d = digit_char e \<Longrightarrow> d = e"
  by (drule arg_cong [where f = "of_char :: char \<Rightarrow> nat"]) simp

lemma digit_char_not_dash: "d < 10 \<Longrightarrow> digit_char d \<noteq> CHR ''-''"
  by (rule notI, drule arg_cong [where f = "of_char :: char \<Rightarrow> nat"]) simp

lemma show_nat_nonempty [simp]: "show_nat n \<noteq> []"
  by (subst show_nat.simps) simp

lemma show_nat_no_dash: "CHR ''-'' \<notin> set (show_nat n)"
proof (induction n rule: show_nat.induct)
  case (1 n)
  then show ?case
    by (subst show_nat.simps) (auto dest: sym simp: digit_char_not_dash [THEN not_sym])
qed

lemma show_nat_inj: "show_nat n = show_nat m \<Longrightarrow> n = m"
proof (induction n arbitrary: m rule: show_nat.induct)
  case (1 n)
  show ?case
  proof (cases "n < 10 \<or> m < 10")
    case True
    have long: "length (show_nat k) > 1" if "\<not> k < 10" for k
      using that by (subst show_nat.simps) simp
    have short: "show_nat k = [digit_char k]" if "k < 10" for k
      using that by (subst show_nat.simps) simp
    have "n < 10" "m < 10"
      using "1.prems" True long [of n] long [of m] short [of n] short [of m] by (metis One_nat_def length_Cons less_irrefl list.size(3))+
    with "1.prems" short show ?thesis by (auto dest: digit_char_inj)
  next
    case False
    then have "show_nat n = show_nat (n div 10) @ [digit_char (n mod 10)]"
      "show_nat m = show_nat (m div 10) @ [digit_char (m mod 10)]"
      by (simp_all add: show_nat.simps [of n] show_nat.simps [of m])
    with "1.prems" have "show_nat (n div 10) = show_nat (m div 10)" "n mod 10 = m mod 10"
      by (auto dest: digit_char_inj [rotated 2])
    with "1.IH" False have "n div 10 = m div 10" by simp
    with \<open>n mod 10 = m mod 10\<close> show ?thesis by (metis div_mult_mod_eq)
  qed
qed

lemma show_nat_hd: "hd (show_nat n) \<noteq> CHR ''-''"
  using show_nat_no_dash [of n] by (metis list.set_sel(1) show_nat_nonempty)

lemma show_int_dash_inj:
  assumes "show_int i @ CHR ''-'' # c = show_int j @ CHR ''-'' # d"
  shows "i = j \<and> c = d"
proof -
  have split: "n = m \<and> c = d" if "show_nat n @ CHR ''-'' # c = show_nat m @ CHR ''-'' # d" for n m
  proof -
    have "show_nat n = show_nat m \<and> c = d"
      using that by (simp only: first_occurrence_inj [OF show_nat_no_dash show_nat_no_dash])
    then show ?thesis by (auto dest: show_nat_inj)
  qed
  have "hd (show_int i @ CHR ''-'' # c) = hd (show_int j @ CHR ''-'' # d)" using assms by simp
  then have "i < 0 \<longleftrightarrow> j < 0"
    using show_nat_hd [of "nat i"] show_nat_hd [of "nat j"] by (auto simp: show_int_def split: if_splits)
  then show ?thesis
    using assms split [of "nat (- i)" "nat (- j)"] split [of "nat i" "nat j"]
    by (cases "i < 0") (auto simp: show_int_def)
qed

lemma b64_char_inj: "n < 64 \<Longrightarrow> m < 64 \<Longrightarrow> b64_char n = b64_char m \<longleftrightarrow> n = m"
proof -
  have "distinct b64_alphabet" "length b64_alphabet = 64" by (simp_all add: b64_alphabet_def)
  then show "n < 64 \<Longrightarrow> m < 64 \<Longrightarrow> ?thesis" by (metis nth_eq_iff_index_eq)
qed

lemma b64_char_not_pad: "n < 64 \<Longrightarrow> b64_char n \<noteq> CHR ''=''"
proof -
  have "CHR ''='' \<notin> set b64_alphabet" "length b64_alphabet = 64" by (simp_all add: b64_alphabet_def)
  then show "n < 64 \<Longrightarrow> ?thesis" by (metis nth_mem)
qed

lemma unat_byte [simp]: "unat (b :: byte) < 256"
  using unsigned_less [of b, where 'a = nat] by simp

lemma base64_sextets:
  fixes a b c :: byte
  shows "unat a div 4 < 64" "unat a mod 4 * 16 < 64" "unat a mod 4 * 16 + unat b div 16 < 64"
    "unat b mod 16 * 4 < 64" "unat b mod 16 * 4 + unat c div 64 < 64" "unat c mod 64 < 64"
proof -
  have "unat a div 4 < 64" "unat b div 16 < 16" "unat c div 64 < 4"
    by (simp_all add: div_less_iff_less_mult)
  moreover have "unat a mod 4 < 4" "unat b mod 16 < 16" by simp_all
  ultimately show "unat a div 4 < 64" "unat a mod 4 * 16 < 64" "unat a mod 4 * 16 + unat b div 16 < 64"
    "unat b mod 16 * 4 < 64" "unat b mod 16 * 4 + unat c div 64 < 64" "unat c mod 64 < 64"
    by (linarith | simp)+
qed

lemmas b64_group = b64_char_inj [OF base64_sextets(1) base64_sextets(1)]
  b64_char_inj [OF base64_sextets(2) base64_sextets(2)]
  b64_char_inj [OF base64_sextets(3) base64_sextets(3)]
  b64_char_inj [OF base64_sextets(4) base64_sextets(4)]
  b64_char_inj [OF base64_sextets(5) base64_sextets(5)]
  b64_char_inj [OF base64_sextets(6) base64_sextets(6)]
  b64_char_not_pad [OF base64_sextets(4)] b64_char_not_pad [OF base64_sextets(5)]
  b64_char_not_pad [OF base64_sextets(6)]
  b64_char_not_pad [OF base64_sextets(4), THEN not_sym] b64_char_not_pad [OF base64_sextets(5), THEN not_sym]
  b64_char_not_pad [OF base64_sextets(6), THEN not_sym]

lemma digit_join:
  fixes x x' y y' k :: nat
  assumes "y < k" "y' < k" "x * k + y = x' * k + y'"
  shows "x = x'" "y = y'"
proof -
  have "(x * k + y) div k = x" "(x' * k + y') div k = x'" "(x * k + y) mod k = y" "(x' * k + y') mod k = y'"
    using assms(1,2) by simp_all
  with assms(3) show "x = x'" "y = y'" by metis+
qed

lemma base64_join:
  fixes a b c a' b' c' :: nat
  assumes "b < 256" "b' < 256" "c < 256" "c' < 256"
  shows "a div 4 = a' div 4 \<Longrightarrow> a mod 4 * 16 + b div 16 = a' mod 4 * 16 + b' div 16 \<Longrightarrow>
      a = a' \<and> b div 16 = b' div 16"
    and "b div 16 = b' div 16 \<Longrightarrow> b mod 16 * 4 + c div 64 = b' mod 16 * 4 + c' div 64 \<Longrightarrow>
      b = b' \<and> c div 64 = c' div 64"
proof -
  have lt: "b div 16 < 16" "b' div 16 < 16" "c div 64 < 4" "c' div 64 < 4"
    using assms by (simp_all add: div_less_iff_less_mult)
  show "a = a' \<and> b div 16 = b' div 16"
    if "a div 4 = a' div 4" "a mod 4 * 16 + b div 16 = a' mod 4 * 16 + b' div 16"
    using digit_join [OF lt(1,2) that(2)] that(1) by (metis div_mult_mod_eq)
  show "b = b' \<and> c div 64 = c' div 64"
    if "b div 16 = b' div 16" "b mod 16 * 4 + c div 64 = b' mod 16 * 4 + c' div 64"
    using digit_join [OF lt(3,4) that(2)] that(1) by (metis div_mult_mod_eq)
qed

lemma div_mod_eqI: "a div k = a' div k \<Longrightarrow> a mod k = a' mod k \<Longrightarrow> a = a'" for a a' k :: nat
  by (metis div_mult_mod_eq)

lemma base64_encode_inj: "base64_encode xs = base64_encode ys \<Longrightarrow> xs = ys"
proof (induction xs arbitrary: ys rule: base64_encode.induct)
  case 1
  then show ?case by (cases ys rule: base64_encode.cases) auto
next
  case (2 a)
  then show ?case
    by (cases ys rule: base64_encode.cases)
      (auto simp: b64_group word_unat_eq_iff intro: div_mod_eqI)
next
  case (3 a b)
  show ?case
  proof (cases ys rule: base64_encode.cases)
    case (3 a' b')
    with "3.prems" have eqs: "unat a div 4 = unat a' div 4"
      "unat a mod 4 * 16 + unat b div 16 = unat a' mod 4 * 16 + unat b' div 16"
      "unat b mod 16 = unat b' mod 16"
      by (auto simp: b64_group)
    from base64_join(1) [OF unat_byte unat_byte unat_byte unat_byte eqs(1,2)] eqs(3) 3
    show ?thesis by (auto simp: word_unat_eq_iff intro: div_mod_eqI)
  qed (use "3.prems" in \<open>auto simp: b64_group\<close>)
next
  case (4 a b c bs)
  show ?case
  proof (cases ys rule: base64_encode.cases)
    case (4 a' b' c' bs')
    with "4.prems" have eqs: "unat a div 4 = unat a' div 4"
      "unat a mod 4 * 16 + unat b div 16 = unat a' mod 4 * 16 + unat b' div 16"
      "unat b mod 16 * 4 + unat c div 64 = unat b' mod 16 * 4 + unat c' div 64"
      "unat c mod 64 = unat c' mod 64" "base64_encode bs = base64_encode bs'"
      by (auto simp: b64_group)
    note j = base64_join [OF unat_byte unat_byte unat_byte unat_byte]
    have ab: "unat a = unat a' \<and> unat b div 16 = unat b' div 16" by (rule j(1) [OF eqs(1,2)])
    then have "unat b = unat b' \<and> unat c div 64 = unat c' div 64" by (intro j(2) [OF _ eqs(3)]) simp
    with ab eqs(4) "4.IH" [OF eqs(5)] 4
    show ?thesis by (auto simp: word_unat_eq_iff intro: div_mod_eqI)
  qed (use "4.prems" in \<open>auto simp: b64_group\<close>)
qed

section \<open>Maps\<close>

lemma map_le_SomeD: "m \<subseteq>\<^sub>m m' \<Longrightarrow> m k = Some v \<Longrightarrow> m' k = Some v"
  by (auto simp: map_le_def dom_def)

lemma map_leI_Some: "(\<And>k v. m k = Some v \<Longrightarrow> m' k = Some v) \<Longrightarrow> m \<subseteq>\<^sub>m m'"
  by (auto simp: map_le_def dom_def)

section \<open>Updated lists\<close>

lemma sum_list_map_update:
  "i < length xs \<Longrightarrow> sum_list (map f (xs[i := y])) + f (xs ! i) = sum_list (map f xs) + (f y :: nat)"
proof -
  assume i: "i < length xs"
  then have "f (xs ! i) \<le> sum_list (map f xs)" using elem_le_sum_list [of i "map f xs"] by simp
  then show ?thesis using i by (simp add: map_update sum_list_update)
qed

lemma in_set_update: "y \<in> set (xs[i := x]) \<Longrightarrow> i < length xs \<and> y = x \<or> y \<in> set xs"
  by (cases "i < length xs") (auto simp: set_update_distinct list_update_beyond dest: subsetD [OF set_update_subset_insert])

end
