(* ===== verification/Parsing.thy ===== *)
theory Parsing
  imports Prelude
begin

text \<open>
  The string parsers: \<^verbatim>\<open>util/parsing.go\<close> (collection names, connection strings and the
  credentials clients put into their application name), \<^verbatim>\<open>util/helpers.go\<close>, and the parsers
  private to \<^verbatim>\<open>proxy/connection.go\<close> (host and port of a route, application name of a
  handshake, credential check), \<^verbatim>\<open>mongo/mongo.go\<close> (database of a URI, retryable errors) and
  \<^verbatim>\<open>config/config.go\<close> (URI sanitising).

  A Go \<^verbatim>\<open>error\<close> is its message. A function that can index a slice out of range returns a sum
  whose left side is the panic.
\<close>

section \<open>util/parsing.go\<close>

definition NormalizeDatabaseName :: "string \<Rightarrow> string" where
  "NormalizeDatabaseName dbName = ToLower dbName"

record CollectionInfo =
  CI_Database :: string
  CI_Collection :: string
  CI_FullName :: string

definition ParseCollectionName :: "string \<Rightarrow> CollectionInfo" where
  "ParseCollectionName fullCollectionName =
     (let parts = SplitN2 fullCollectionName ''.'';
          info = \<lparr>CI_Database = '''', CI_Collection = '''', CI_FullName = fullCollectionName\<rparr>
      in if length parts = 2 then
           info\<lparr>CI_Database := NormalizeDatabaseName (parts ! 0), CI_Collection := parts ! 1\<rparr>
         else if length parts = 1 then info\<lparr>CI_Collection := parts ! 0\<rparr>
         else info)"

record ConnectionStringInfo =
  CS_Scheme :: string
  CS_Username :: string
  CS_Password :: string
  CS_Host :: string
  CS_Database :: string
  CS_Options :: string

definition parseHostPart :: "string \<Rightarrow> ConnectionStringInfo \<Rightarrow> ConnectionStringInfo" where
  "parseHostPart hostPart info =
     (if Contains hostPart ''/'' then
        let hostDbParts = SplitN2 hostPart ''/'';
            info = info\<lparr>CS_Host := hostDbParts ! 0\<rparr>
        in if length hostDbParts > 1 then
             let dbOptionsParts = SplitN2 (hostDbParts ! 1) ''?'';
                 info = info\<lparr>CS_Database := NormalizeDatabaseName (dbOptionsParts ! 0)\<rparr>
             in if length dbOptionsParts > 1 then info\<lparr>CS_Options := dbOptionsParts ! 1\<rparr> else info
           else info
      else info\<lparr>CS_Host := hostPart\<rparr>)"

definition ParseConnectionString :: "string \<Rightarrow> go_panic + ConnectionStringInfo" where
  "ParseConnectionString connStr =
     (let info = \<lparr>CS_Scheme = '''', CS_Username = '''', CS_Password = '''', CS_Host = '''',
                  CS_Database = '''', CS_Options = ''''\<rparr>;
          parts = Split connStr ''@''
      in if length parts = 2 then
           let schemeParts = Split (parts ! 0) ''://''
           in if length schemeParts < 2 then Inl IndexOutOfRange
              else
                let userParts = Split (schemeParts ! 1) '':'';
                    info = (if length userParts = 2
                            then info\<lparr>CS_Username := userParts ! 0, CS_Password := userParts ! 1\<rparr>
                            else info)
                in Inr (parseHostPart (parts ! 1) info)
         else Inr info)"

record AppNameInfo =
  AN_Database :: string
  AN_Username :: string
  AN_Password :: string
  AN_AuthSource :: string

definition ParseAppName :: "string \<Rightarrow> AppNameInfo" where
  "ParseAppName appName =
     (let parts = Split appName '':'';
          info = \<lparr>AN_Database = '''', AN_Username = '''', AN_Password = '''', AN_AuthSource = ''''\<rparr>
      in if length parts = 4 then
           let info = info\<lparr>AN_Database := NormalizeDatabaseName (parts ! 0), AN_Username := parts ! 1,
                           AN_Password := parts ! 2, AN_AuthSource := parts ! 3\<rparr>
           in if parts ! 3 = ''use_db'' then info\<lparr>AN_AuthSource := AN_Database info\<rparr> else info
         else if length parts = 3 then
           info\<lparr>AN_Database := NormalizeDatabaseName (parts ! 0), AN_Username := parts ! 1,
                AN_Password := parts ! 2, AN_AuthSource := ''admin''\<rparr>
         else info)"

section \<open>util/helpers.go\<close>

text \<open>
  The random bytes are an argument; a failing source of randomness is \<open>None\<close> and the panic
  of the code. \<^verbatim>\<open>make\<close> and the re-slicing fix the buffer at 16 bytes, which \<^verbatim>\<open>rand.Read\<close> fills.
\<close>

definition GenerateRandomString :: "bytes option \<Rightarrow> go_panic + string" where
  "GenerateRandomString rand =
     (case rand of
        None \<Rightarrow> Inl (Explicit ''rand'')
      | Some b \<Rightarrow>
          let hexStr = hex_encode (take 16 (b @ replicate 16 0))
          in Inr (take 8 hexStr @ ''_'' @ take 4 (drop 8 hexStr) @ ''_'' @ take 4 (drop 12 hexStr) @ ''_'' @
                  take 4 (drop 16 hexStr) @ ''_'' @ take 12 (drop 20 hexStr)))"

datatype TopologyKind = TopologyUnknown | Single | ReplicaSet | ReplicaSetNoPrimary
  | ReplicaSetWithPrimary | Sharded | LoadBalanced

definition GetTopology :: "string \<Rightarrow> TopologyKind \<times> string option" where
  "GetTopology topology =
     (if ToLower topology = ''single'' then (Single, None)
      else if ToLower topology = ''sharded'' then (Sharded, None)
      else if ToLower topology = ''loadBalanced'' then (LoadBalanced, None)
      else (Single, Some (''invalid topology: '' @ topology)))"

section \<open>Parsers of proxy/connection.go\<close>

definition extractHostAndPort :: "string \<Rightarrow> string \<times> string" where
  "extractHostAndPort hostPort =
     (if HasPrefix hostPort ''['' then
        (case Index hostPort '']'' of
           None \<Rightarrow> ('''', '''')
         | Some closeBracket \<Rightarrow>
             let host = drop 1 (take closeBracket hostPort)
             in if closeBracket + 1 < length hostPort \<and> hostPort ! (closeBracket + 1) = CHR '':'' then
                  (host, drop (closeBracket + 2) hostPort)
                else (host, ''27017''))
      else
        (case LastIndex hostPort CHR '':'' of
           None \<Rightarrow> (hostPort, ''27017'')
         | Some colonIndex \<Rightarrow> (take colonIndex hostPort, drop (colonIndex + 1) hostPort)))"

definition extractHostFromRoute :: "string \<Rightarrow> string \<times> string" where
  "extractHostFromRoute connectionString =
     (if connectionString = '''' then ('''', '''')
      else if \<not> HasPrefix connectionString ''mongodb://'' then ('''', '''')
      else
        let withoutScheme = TrimPrefix connectionString ''mongodb://'';
            hostPortPart = (case Index withoutScheme ''@'' of
                Some atIndex \<Rightarrow> drop (atIndex + 1) withoutScheme
              | None \<Rightarrow> withoutScheme)
        in case Index hostPortPart ''/'' of
             None \<Rightarrow> extractHostAndPort hostPortPart
           | Some slashIndex \<Rightarrow> extractHostAndPort (take slashIndex hostPortPart))"

text \<open>The argument is the text of the handshake operation, \<^verbatim>\<open>msg.Op.String()\<close>.\<close>

definition extractAppNameFromMessage :: "string \<Rightarrow> string" where
  "extractAppNameFromMessage opStr =
     (if Contains opStr ''application'' \<and> Contains opStr ''name'' then
        (case Index opStr (CHR 0x22 # ''name'' @ [CHR 0x22] @ '': '' @ [CHR 0x22]) of
           None \<Rightarrow> ''''
         | Some start \<Rightarrow>
             (case Index (drop (start + 9) opStr) [CHR 0x22] of
                None \<Rightarrow> ''''
              | Some e \<Rightarrow> take e (drop (start + 9) opStr)))
      else '''')"

definition parseAppNameCredentials :: "string \<Rightarrow> string + (string \<times> string \<times> string \<times> string)" where
  "parseAppNameCredentials appName =
     (let appInfo = ParseAppName appName
      in if AN_Database appInfo \<noteq> '''' \<and> AN_Username appInfo \<noteq> '''' \<and> AN_Password appInfo \<noteq> '''' then
           let database = TrimSpace (AN_Database appInfo);
               username = TrimSpace (AN_Username appInfo);
               password = TrimSpace (AN_Password appInfo);
               authSource = TrimSpace (AN_AuthSource appInfo)
           in if database = '''' \<or> username = '''' \<or> password = '''' then
                Inl ''database, username and password cannot be empty''
              else Inr (database, username, password, authSource)
         else Inl (''appName must be in format 'database:username:password:authSource' or 'database:username:password', got: ''
                   @ appName))"

definition sanitizeConnectionString :: "string \<Rightarrow> go_panic + string" where
  "sanitizeConnectionString connStr =
     (case ParseConnectionString connStr of
        Inl p \<Rightarrow> Inl p
      | Inr connInfo \<Rightarrow>
          if CS_Username connInfo \<noteq> '''' \<and> CS_Password connInfo \<noteq> '''' then
            let sanitized = CS_Username connInfo @ '':***''
            in Inr (Replace1 connStr (CS_Username connInfo @ '':'' @ CS_Password connInfo) sanitized)
          else Inr connStr)"

text \<open>An error is \<open>None\<close> (Go's \<^verbatim>\<open>nil\<close>) or its message.\<close>

definition isConnectionError :: "string option \<Rightarrow> bool" where
  "isConnectionError err =
     (case err of
        None \<Rightarrow> False
      | Some errStr \<Rightarrow>
          list_ex (\<lambda>pattern. Contains (ToLower errStr) pattern)
            [''connection refused'', ''connection reset'', ''connection timeout'', ''network is unreachable'',
             ''no such host'', ''context deadline exceeded'', ''server selection error'', ''topology closed'',
             ''connection pool closed'', ''connection not available''])"

section \<open>Parsers of mongo/mongo.go and config/config.go\<close>

definition extractDatabaseName :: "string \<Rightarrow> string" where
  "extractDatabaseName uri =
     (if uri = '''' then ''default''
      else if Contains uri ''/'' then
        let parts = Split uri ''/''
        in if length parts \<ge> 2 then
             let dbPart = last parts;
                 dbPart = (if Contains dbPart ''?'' then hd (Split dbPart ''?'') else dbPart)
             in if Contains dbPart '':'' \<and> \<not> Contains dbPart ''.'' then ''default''
                else if dbPart \<noteq> '''' then dbPart
                else ''default''
           else ''default''
      else ''default'')"

definition isRetryableError :: "string option \<Rightarrow> bool" where
  "isRetryableError err =
     (case err of
        None \<Rightarrow> False
      | Some errStr \<Rightarrow>
          list_ex (\<lambda>retryableErr. Contains (ToLower errStr) retryableErr)
            [''connection refused'', ''connection reset'', ''connection timeout'', ''network is unreachable'',
             ''no route to host'', ''temporary failure'', ''server selection error'',
             ''context deadline exceeded'', ''EOF'', ''socket was unexpectedly closed''])"

definition sanitizeURI :: "string \<Rightarrow> string" where
  "sanitizeURI uri =
     (if Contains uri ''@'' then
        let parts = Split uri ''@''
        in if length parts = 2 \<and> Contains (parts ! 0) ''://'' then
             let userInfo = Split (parts ! 0) ''://'' ! 1
             in if Contains userInfo '':'' then
                  let userParts = Split userInfo '':'';
                      sanitized = userParts ! 0 @ '':***''
                  in Replace1 uri userInfo sanitized
                else uri
           else uri
      else uri)"

section \<open>Credentials in the application name\<close>

text \<open>What the parser makes of an application name, by the number of its parts.\<close>

lemma TrimSpace_Nil [simp]: "TrimSpace [] = []"
  by (simp add: TrimSpace_def trim_by_def)

lemma parseAppNameCredentials_parts:
  assumes "Split appName '':'' = db # us # pw # rest"
    and "rest = [] \<and> src = ''admin'' \<or> (\<exists>s. rest = [s] \<and> src = (if s = ''use_db'' then ToLower db else s))"
  shows "parseAppNameCredentials appName = Inr (d, u, p, a) \<longleftrightarrow>
    d = TrimSpace (ToLower db) \<and> u = TrimSpace us \<and> p = TrimSpace pw \<and> a = TrimSpace src \<and>
    d \<noteq> '''' \<and> u \<noteq> '''' \<and> p \<noteq> ''''"
proof -
  have "ParseAppName appName = \<lparr>AN_Database = ToLower db, AN_Username = us, AN_Password = pw, AN_AuthSource = src\<rparr>"
    using assms by (auto simp: ParseAppName_def NormalizeDatabaseName_def)
  moreover have "TrimSpace x \<noteq> [] \<Longrightarrow> x \<noteq> []" for x by auto
  ultimately show ?thesis
    by (auto simp: parseAppNameCredentials_def Let_def)
qed

lemma parseAppNameCredentials_three_or_four:
  assumes "parseAppNameCredentials appName = Inr r"
  obtains db us pw where "Split appName '':'' = [db, us, pw]"
  | db us pw src where "Split appName '':'' = [db, us, pw, src]"
proof -
  have "length (Split appName '':'') = 3 \<or> length (Split appName '':'') = 4"
    using assms by (auto simp: parseAppNameCredentials_def ParseAppName_def Let_def split: if_splits)
  then show ?thesis using that by (auto simp: numeral_eq_Suc length_Suc_conv)
qed

lemma parseAppNameCredentials_iff:
  "parseAppNameCredentials appName = Inr (d, u, p, a) \<longleftrightarrow>
     (\<exists>db us pw. CHR '':'' \<notin> set db \<and> CHR '':'' \<notin> set us \<and> CHR '':'' \<notin> set pw \<and>
        (appName = db @ '':'' @ us @ '':'' @ pw \<and> a = ''admin'' \<or>
         (\<exists>src. CHR '':'' \<notin> set src \<and> appName = db @ '':'' @ us @ '':'' @ pw @ '':'' @ src \<and>
           a = TrimSpace (if src = ''use_db'' then ToLower db else src))) \<and>
        d = TrimSpace (ToLower db) \<and> u = TrimSpace us \<and> p = TrimSpace pw \<and>
        d \<noteq> '''' \<and> u \<noteq> '''' \<and> p \<noteq> '''')"
    (is "?L \<longleftrightarrow> ?R")
proof
  note sp = Split_single_iff [of appName "CHR '':''"]
  have admin: "TrimSpace ''admin'' = ''admin''" by (simp add: TrimSpace_def trim_by_def is_space_def)
  show ?R if ?L
    using that
  proof (cases rule: parseAppNameCredentials_three_or_four)
    case (1 db us pw)
    then show ?thesis
      using that parseAppNameCredentials_parts [where d = d and u = u and p = p and a = a, OF 1, of "''admin''"] sp [of "[db, us, pw]"] admin
      by - (rule exI [of _ db], rule exI [of _ us], rule exI [of _ pw], auto)
  next
    case (2 db us pw src)
    then have "appName = db @ '':'' @ us @ '':'' @ pw @ '':'' @ src" "CHR '':'' \<notin> set src"
      "CHR '':'' \<notin> set db" "CHR '':'' \<notin> set us" "CHR '':'' \<notin> set pw"
      using sp [of "[db, us, pw, src]"] by simp_all
    moreover note parseAppNameCredentials_parts [where d = d and u = u and p = p and a = a, OF 2, of "if src = ''use_db'' then ToLower db else src"] that
    ultimately show ?thesis by - (rule exI [of _ db], rule exI [of _ us], rule exI [of _ pw], intro conjI disjI2 exI [of _ src], auto split del: if_split)
  qed
  show ?L if ?R
  proof -
    from that obtain db us pw where c: "CHR '':'' \<notin> set db" "CHR '':'' \<notin> set us" "CHR '':'' \<notin> set pw"
      and e: "appName = db @ '':'' @ us @ '':'' @ pw \<and> a = ''admin'' \<or>
         (\<exists>src. CHR '':'' \<notin> set src \<and> appName = db @ '':'' @ us @ '':'' @ pw @ '':'' @ src \<and>
           a = TrimSpace (if src = ''use_db'' then ToLower db else src))"
      and v: "d = TrimSpace (ToLower db) \<and> u = TrimSpace us \<and> p = TrimSpace pw \<and> d \<noteq> '''' \<and> u \<noteq> '''' \<and> p \<noteq> ''''"
      by blast
    from e show ?L
    proof (elim disjE exE conjE)
      assume s: "appName = db @ '':'' @ us @ '':'' @ pw" "a = ''admin''"
      then have "Split appName '':'' = [db, us, pw]" using c by (simp add: Split_single_append Split_single_none)
      from parseAppNameCredentials_parts [OF this, of "''admin''"] v s(2) admin show ?L by auto
    next
      fix src
      assume s: "CHR '':'' \<notin> set src" "appName = db @ '':'' @ us @ '':'' @ pw @ '':'' @ src"
        "a = TrimSpace (if src = ''use_db'' then ToLower db else src)"
      then have "Split appName '':'' = [db, us, pw, src]"
        using c by (simp add: Split_single_append Split_single_none)
      from parseAppNameCredentials_parts [OF this, of "if src = ''use_db'' then ToLower db else src"] v s(3)
      show ?L by (auto split del: if_split)
    qed
  qed
qed

text \<open>
  C37. The credentials a client puts into its application name are accepted exactly when the
  name is \<open>database:username:password:authSource\<close> or \<open>database:username:password\<close> with
  non-blank database, username and password, and what is then returned are its trimmed
  parts, the database in lower case, the authentication source \<open>admin\<close> for the short form
  and the database for \<open>use_db\<close>. In particular the two-part name \<open>username:password\<close>, which the
  comment of the function calls supported, is refused.
\<close>

theorem parseAppNameCredentials_accepts_iff:
  "(parseAppNameCredentials appName = Inr (d, u, p, a) \<longleftrightarrow>
     (\<exists>db us pw. CHR '':'' \<notin> set db \<and> CHR '':'' \<notin> set us \<and> CHR '':'' \<notin> set pw \<and>
        (appName = db @ '':'' @ us @ '':'' @ pw \<and> a = ''admin'' \<or>
         (\<exists>src. CHR '':'' \<notin> set src \<and> appName = db @ '':'' @ us @ '':'' @ pw @ '':'' @ src \<and>
           a = TrimSpace (if src = ''use_db'' then ToLower db else src))) \<and>
        d = TrimSpace (ToLower db) \<and> u = TrimSpace us \<and> p = TrimSpace pw \<and>
        d \<noteq> '''' \<and> u \<noteq> '''' \<and> p \<noteq> '''')) \<and>
   isl (parseAppNameCredentials ''username:password'')"
proof (intro conjI parseAppNameCredentials_iff)
  show "isl (parseAppNameCredentials ''username:password'')" by code_simp
qed

section \<open>Host and port of a connection string\<close>

lemma extractHostAndPort_plain:
  assumes "CHR '':'' \<notin> set port" "\<not> HasPrefix host ''[''"
  shows "extractHostAndPort (host @ '':'' @ port) = (host, port)"
proof -
  have "Index (rev port @ CHR '':'' # rev host) [CHR '':''] = Some (length port)"
    using Index_single_append [of "CHR '':''" "rev port" "rev host"] assms(1) by simp
  moreover have "\<not> HasPrefix (host @ '':'' @ port) ''[''" using assms(2) by (cases host) auto
  ultimately show ?thesis by (simp add: extractHostAndPort_def LastIndex_def)
qed

lemma extractHostAndPort_bracket:
  assumes "CHR '']'' \<notin> set host"
  shows "extractHostAndPort (''['' @ host @ '']:'' @ port) = (host, port)"
proof -
  have "Index (''['' @ host @ '']:'' @ port) '']'' = Some (Suc (length host))"
    using Index_single_append [of "CHR '']''" "CHR ''['' # host" "CHR '':'' # port"] assms by simp
  then show ?thesis by (simp add: extractHostAndPort_def nth_append)
qed

text \<open>
  From a connection string \<open>mongodb://host:port\<close>, with or without credentials before
  the host and with or without a database after the port, the host and the port are
  recovered, for a plain host name and for a bracketed IPv6 address.
\<close>

theorem extractHostFromRoute_roundtrip:
  assumes cred: "cred = '''' \<or> (\<exists>userinfo. CHR ''@'' \<notin> set userinfo \<and> cred = userinfo @ ''@'')"
    and path: "path = '''' \<or> (\<exists>db. path = ''/'' @ db)"
    and noat: "cred = '''' \<Longrightarrow> CHR ''@'' \<notin> set path"
    and host: "set host \<inter> {CHR ''@'', CHR ''/'', CHR ''['', CHR '']''} = {}"
    and port: "set port \<inter> {CHR ''@'', CHR ''/'', CHR '':''} = {}"
  shows "extractHostFromRoute (''mongodb://'' @ cred @ host @ '':'' @ port @ path) = (host, port) \<and>
      extractHostFromRoute (''mongodb://'' @ cred @ ''['' @ host @ '']:'' @ port @ path) = (host, port)"
proof -
  have at: "(case Index (cred @ hp @ path) ''@'' of
        Some atIndex \<Rightarrow> drop (atIndex + 1) (cred @ hp @ path) | None \<Rightarrow> cred @ hp @ path) = hp @ path"
    if "CHR ''@'' \<notin> set hp" for hp
    using cred
  proof (elim disjE exE conjE)
    assume "cred = ''''"
    with that noat show ?thesis by (simp add: Index_single_None)
  next
    fix userinfo assume u: "CHR ''@'' \<notin> set userinfo" "cred = userinfo @ ''@''"
    have "Index (userinfo @ CHR ''@'' # hp @ path) ''@'' = Some (length userinfo)"
      by (rule Index_single_append) (rule u(1))
    then show ?thesis using u(2) by simp
  qed
  have slash: "(case Index (hp @ path) ''/'' of None \<Rightarrow> extractHostAndPort (hp @ path)
      | Some slashIndex \<Rightarrow> extractHostAndPort (take slashIndex (hp @ path))) = extractHostAndPort hp"
    if "CHR ''/'' \<notin> set hp" for hp
    using path
  proof (elim disjE exE)
    fix db assume "path = ''/'' @ db"
    then show ?thesis using Index_single_append [OF that, of db] by simp
  qed (simp add: Index_single_None that)
  have scheme: "TrimPrefix (''mongodb://'' @ s) ''mongodb://'' = s" "HasPrefix (''mongodb://'' @ s) ''mongodb://''" for s
    by (simp_all add: TrimPrefix_def HasPrefix_def)
  have step: "extractHostFromRoute (''mongodb://'' @ cred @ hp @ path) = extractHostAndPort hp"
    if "CHR ''@'' \<notin> set hp" "CHR ''/'' \<notin> set hp" for hp
    unfolding extractHostFromRoute_def Let_def scheme at [OF that(1)] slash [OF that(2)] by (simp add: HasPrefix_def)
  have "\<not> HasPrefix host ''[''" using host by (cases host) auto
  then have "extractHostAndPort (host @ '':'' @ port) = (host, port)"
    using port by (intro extractHostAndPort_plain) auto
  moreover have "extractHostAndPort (''['' @ host @ '']:'' @ port) = (host, port)"
    using host by (intro extractHostAndPort_bracket) auto
  ultimately show ?thesis
    using step [of "host @ '':'' @ port"] step [of "''['' @ host @ '']:'' @ port"] host port by simp
qed

theorem extractHostFromRoute_roundtrip_witness:
  "extractHostFromRoute ''mongodb://user:pw@db1.example:27018/app'' = (''db1.example'', ''27018'')"
  using extractHostFromRoute_roundtrip [of "''user:pw@''" "''/app''" "''db1.example''" "''27018''"]
  by (simp add: exI [of _ "''user:pw''"])

section \<open>Topologies and retryable errors\<close>

text \<open>
  The configured topology is accepted exactly for the two names \<open>single\<close> and \<open>sharded\<close>
  in any case; the third name of the code, \<open>loadBalanced\<close>, is compared with a lowered string
  and can never be selected.
\<close>

theorem GetTopology_accepts_iff:
  "(snd (GetTopology t) = None \<longleftrightarrow> ToLower t = ''single'' \<or> ToLower t = ''sharded'') \<and>
   fst (GetTopology t) \<in> {Single, Sharded} \<and>
   GetTopology ''loadBalanced'' = (Single, Some ''invalid topology: loadBalanced'')"
proof -
  have "CHR ''B'' \<notin> set (ToLower t)" for t
    using of_char_lower_upper [of "CHR ''B''" t] by auto
  then have "ToLower t \<noteq> ''loadBalanced''" for t
    by (metis list.set_intros)
  then show ?thesis
    by (auto simp: GetTopology_def ToLower_def lower_char_def char_of_def)
qed

text \<open>
  An error is retried exactly when its lowered message contains one of nine phrases;
  the tenth entry of the table, \<open>EOF\<close>, is in upper case and never matches, so that an
  end-of-file error is not retried.
\<close>

theorem isRetryableError_iff:
  "(isRetryableError (Some msg) \<longleftrightarrow>
     (\<exists>phrase \<in> {''connection refused'', ''connection reset'', ''connection timeout'',
        ''network is unreachable'', ''no route to host'', ''temporary failure'', ''server selection error'',
        ''context deadline exceeded'', ''socket was unexpectedly closed''}.
        \<exists>p t. ToLower msg = p @ phrase @ t)) \<and>
   \<not> isRetryableError (Some ''EOF'')"
    (is "(_ \<longleftrightarrow> (\<exists>phrase \<in> ?S. _)) \<and> _")
proof -
  have "CHR ''E'' \<notin> set (ToLower msg)" for msg
    using of_char_lower_upper [of "CHR ''E''" msg] by auto
  then have "\<not> Contains (ToLower msg) ''EOF''" for msg
    by (metis Contains_iff append_Cons in_set_conv_decomp)
  then have iff: "isRetryableError (Some msg) \<longleftrightarrow> (\<exists>phrase \<in> ?S. \<exists>p t. ToLower msg = p @ phrase @ t)" for msg
    by (simp add: isRetryableError_def Contains_iff)
  moreover have "\<not> isRetryableError (Some ''EOF'')"
  proof
    assume "isRetryableError (Some ''EOF'')"
    then obtain phrase p t where "phrase \<in> ?S" and "ToLower ''EOF'' = p @ phrase @ t" unfolding iff by blast
    from arg_cong [OF this(2), of length] have "length phrase \<le> 3" unfolding length_ToLower by simp
    with \<open>phrase \<in> ?S\<close> show False by auto
  qed
  ultimately show ?thesis by (rule conjI)
qed

end
