(* ===== verification/Topology.thy ===== *)
theory Topology
  imports Parsing "HOL-Library.Char_ord" "HOL-Library.List_Lexorder"
begin

text \<open>
  The comparison of topology descriptions, \<^verbatim>\<open>src/mongo/topology_monitor.go\<close>. A description is
  the driver's: a kind and the servers with their addresses and kinds; the zero value
  of a server's kind is \<open>ServerUnknown\<close>. How kinds and addresses are printed belongs to the driver
  and is a parameter: \<open>Address_String\<close>, the driver's \<^verbatim>\<open>Address.String\<close>, may give the same string for several
  addresses, as it puts an address into a canonical form.
\<close>

datatype ServerKind = ServerUnknown | Standalone | RSMember | RSPrimary | RSSecondary | RSArbiter | RSGhost
  | Mongos | LoadBalancer

record Server =
  Addr :: string
  S_Kind :: ServerKind

record Topology =
  T_Kind :: TopologyKind
  Servers :: "Server list"

record printers =
  TopologyKind_String :: "TopologyKind \<Rightarrow> string"
  ServerKind_String :: "ServerKind \<Rightarrow> string"
  Address_String :: "string \<Rightarrow> string"

text \<open>\<^verbatim>\<open>sort.Slice\<close>; addresses compare bytewise, as they are and not as they are printed.\<close>

definition sortServers :: "Server list \<Rightarrow> Server list" where
  "sortServers s = sort_key Addr s"

text \<open>
  The map the function builds: a later server replaces an earlier one whose address is printed
  in the same way.
\<close>

definition server_kinds :: "printers \<Rightarrow> Server list \<Rightarrow> (string \<rightharpoonup> ServerKind)" where
  "server_kinds pr servers = fold (\<lambda>s m. m(Address_String pr (Addr s) \<mapsto> S_Kind s)) servers Map.empty"

definition kind_at :: "(string \<rightharpoonup> ServerKind) \<Rightarrow> string \<Rightarrow> ServerKind" where
  "kind_at m k = (case m k of Some v \<Rightarrow> v | None \<Rightarrow> ServerUnknown)"

definition topologyDescriptionEqual :: "printers \<Rightarrow> Topology \<Rightarrow> Topology \<Rightarrow> bool" where
  "topologyDescriptionEqual pr d1 d2 =
     (if T_Kind d1 \<noteq> T_Kind d2 then False
      else
        let s1 = server_kinds pr (Servers d1);
            s2 = server_kinds pr (Servers d2);
            addresses = (\<lambda>d. remdups (map (\<lambda>s. Address_String pr (Addr s)) (Servers d)))
        in if length (addresses d1) \<noteq> length (addresses d2) then False
           else list_all (\<lambda>k. kind_at s2 k = the (s1 k)) (addresses d1))"

definition server_fields :: "printers \<Rightarrow> string \<Rightarrow> Server list \<Rightarrow> (string \<times> string) list" where
  "server_fields pr side servers =
     concat (map (\<lambda>(i, s). [(side @ ''_address_'' @ show_nat i, Address_String pr (Addr s)),
                            (side @ ''_kind_'' @ show_nat i, ServerKind_String pr (S_Kind s))])
       (zip [0..<length servers] servers))"

definition topologyChangedFields :: "printers \<Rightarrow> Topology \<Rightarrow> Topology \<Rightarrow> (string \<times> string) list" where
  "topologyChangedFields pr old desc =
     [(''old_kind'', TopologyKind_String pr (T_Kind old)), (''new_kind'', TopologyKind_String pr (T_Kind desc))] @
     server_fields pr ''old'' (sortServers (Servers old)) @ server_fields pr ''new'' (sortServers (Servers desc))"

text \<open>One turn of the monitor: the last description and the fields it logs, if any.\<close>

definition topologyMonitor_turn :: "printers \<Rightarrow> Topology \<Rightarrow> Topology \<Rightarrow> Topology \<times> (string \<times> string) list option" where
  "topologyMonitor_turn pr old desc =
     (desc, if topologyDescriptionEqual pr old desc then None else Some (topologyChangedFields pr old desc))"

section \<open>Which changes are seen\<close>

text \<open>The text of a server's address.\<close>

abbreviation address_text :: "printers \<Rightarrow> Server \<Rightarrow> string" where
  "address_text pr s \<equiv> Address_String pr (Addr s)"

lemma server_kinds_fold:
  "dom (fold (\<lambda>s m. m(address_text pr s \<mapsto> S_Kind s)) servers m) = address_text pr ` set servers \<union> dom m"
  by (induction servers arbitrary: m) auto

lemma dom_server_kinds [simp]: "dom (server_kinds pr servers) = address_text pr ` set servers"
  using server_kinds_fold [of pr servers Map.empty] by (simp add: server_kinds_def)

lemma ran_server_kinds_fold: "ran (fold (\<lambda>s m. m(address_text pr s \<mapsto> S_Kind s)) servers m) \<subseteq> S_Kind ` set servers \<union> ran m"
proof (induction servers arbitrary: m)
  case (Cons s servers)
  have "ran (m(address_text pr s \<mapsto> S_Kind s)) \<subseteq> insert (S_Kind s) (ran m)" by (auto simp: ran_def)
  then have "S_Kind ` set servers \<union> ran (m(address_text pr s \<mapsto> S_Kind s)) \<subseteq> S_Kind ` set (s # servers) \<union> ran m" by auto
  with Cons.IH [of "m(address_text pr s \<mapsto> S_Kind s)"] show ?case unfolding fold_Cons comp_apply by (rule order_trans)
qed simp

lemma ran_server_kinds: "ran (server_kinds pr servers) \<subseteq> S_Kind ` set servers"
  using ran_server_kinds_fold [of pr servers Map.empty] by (simp add: server_kinds_def)

lemma length_addresses: "length (remdups (map (address_text pr) servers)) = card (dom (server_kinds pr servers))"
  by (simp add: length_remdups_card_conv)

lemma same_size_map_le:
  assumes "finite (dom m')" and "card (dom m) = card (dom m')" and "m \<subseteq>\<^sub>m m'"
  shows "m = m'"
proof -
  have "dom m = dom m'" using assms by (metis card_subset_eq map_le_implies_dom_le)
  with assms(3) show ?thesis by (metis map_le_antisym map_le_def)
qed

lemma topologyDescriptionEqual_iff:
  "topologyDescriptionEqual pr d1 d2 \<longleftrightarrow>
     T_Kind d1 = T_Kind d2 \<and> card (dom (server_kinds pr (Servers d1))) = card (dom (server_kinds pr (Servers d2))) \<and>
     (\<forall>k v. server_kinds pr (Servers d1) k = Some v \<longrightarrow> kind_at (server_kinds pr (Servers d2)) k = v)"
proof -
  have "k \<in> set (remdups (map (address_text pr) (Servers d1))) \<longleftrightarrow> (\<exists>v. server_kinds pr (Servers d1) k = Some v)" for k
    using dom_server_kinds [of pr "Servers d1"] by (auto simp: dom_def)
  then show ?thesis
    unfolding topologyDescriptionEqual_def Let_def length_addresses list_all_iff Ball_def by (auto split: if_splits)
qed

text \<open>
  C36. However the driver prints addresses, two descriptions compare as equal exactly when they have
  the same kind and the same map from printed addresses to server kinds, as long as no server of the
  first is of unknown kind; the order of the servers does not matter, and of servers whose
  addresses are printed alike the last one counts.
\<close>

theorem topologyDescriptionEqual_reference:
  assumes "ServerUnknown \<notin> S_Kind ` set (Servers d1)"
  shows "topologyDescriptionEqual pr d1 d2 \<longleftrightarrow>
    T_Kind d1 = T_Kind d2 \<and> server_kinds pr (Servers d1) = server_kinds pr (Servers d2)"
proof
  assume eq: "topologyDescriptionEqual pr d1 d2"
  have "server_kinds pr (Servers d1) \<subseteq>\<^sub>m server_kinds pr (Servers d2)"
  proof (rule map_leI_Some)
    fix k v assume v: "server_kinds pr (Servers d1) k = Some v"
    then have "v \<in> ran (server_kinds pr (Servers d1))" by (rule ranI)
    with assms ran_server_kinds have "v \<noteq> ServerUnknown" by blast
    with eq v show "server_kinds pr (Servers d2) k = Some v"
      unfolding topologyDescriptionEqual_iff kind_at_def by (auto split: option.splits)
  qed
  with eq show "T_Kind d1 = T_Kind d2 \<and> server_kinds pr (Servers d1) = server_kinds pr (Servers d2)"
    unfolding topologyDescriptionEqual_iff by (intro conjI same_size_map_le) auto
next
  assume "T_Kind d1 = T_Kind d2 \<and> server_kinds pr (Servers d1) = server_kinds pr (Servers d2)"
  then show "topologyDescriptionEqual pr d1 d2" unfolding topologyDescriptionEqual_iff kind_at_def by simp
qed

definition lowering_printers :: printers where
  "lowering_printers = \<lparr>TopologyKind_String = (\<lambda>_. ''''), ServerKind_String = (\<lambda>_. ''''), Address_String = ToLower\<rparr>"

theorem topologyDescriptionEqual_reference_witness:
  "topologyDescriptionEqual lowering_printers
     \<lparr>T_Kind = ReplicaSet, Servers = [\<lparr>Addr = ''A'', S_Kind = RSPrimary\<rparr>, \<lparr>Addr = ''b'', S_Kind = RSSecondary\<rparr>]\<rparr>
     \<lparr>T_Kind = ReplicaSet, Servers = [\<lparr>Addr = ''B'', S_Kind = RSSecondary\<rparr>, \<lparr>Addr = ''a'', S_Kind = RSPrimary\<rparr>]\<rparr>"
proof -
  have "ToLower ''A'' = ''a'' \<and> ToLower ''a'' = ''a'' \<and> ToLower ''B'' = ''b'' \<and> ToLower ''b'' = ''b''" by code_simp
  then show ?thesis
    by (subst topologyDescriptionEqual_reference) (simp_all add: server_kinds_def lowering_printers_def fun_eq_iff)
qed

text \<open>
  A change among servers of unknown kind goes unseen: a description in which such a server
  was replaced by another one still compares as equal to the old one.
\<close>

theorem replaced_unknown_server_unseen:
  assumes "Address_String pr a \<notin> address_text pr ` set servers" and "Address_String pr b \<notin> address_text pr ` set servers"
  shows "topologyDescriptionEqual pr
    \<lparr>T_Kind = k, Servers = \<lparr>Addr = a, S_Kind = ServerUnknown\<rparr> # servers\<rparr>
    \<lparr>T_Kind = k, Servers = \<lparr>Addr = b, S_Kind = ServerUnknown\<rparr> # servers\<rparr>"
proof -
  let ?f = "\<lambda>s m. m(address_text pr s \<mapsto> S_Kind s)"
  have away: "fold ?f servers (m(x \<mapsto> v)) = (fold ?f servers m)(x \<mapsto> v)" if "x \<notin> address_text pr ` set servers" for m x v
    using that
  proof (induction servers arbitrary: m)
    case (Cons s servers)
    then have "(m(x \<mapsto> v))(address_text pr s \<mapsto> S_Kind s) = (m(address_text pr s \<mapsto> S_Kind s))(x \<mapsto> v)" by (intro fun_upd_twist) auto
    moreover have "x \<notin> address_text pr ` set servers" using Cons.prems by simp
    note Cons.IH [OF this, of "m(address_text pr s \<mapsto> S_Kind s)"]
    ultimately show ?case unfolding fold_Cons comp_apply by (simp only:)
  qed simp
  have "server_kinds pr (\<lparr>Addr = x, S_Kind = ServerUnknown\<rparr> # servers) =
      (server_kinds pr servers)(Address_String pr x \<mapsto> ServerUnknown)"
    if "Address_String pr x \<notin> address_text pr ` set servers" for x
    using away [OF that, of Map.empty] by (simp add: server_kinds_def)
  moreover have "server_kinds pr servers x = None" if "x \<notin> address_text pr ` set servers" for x
    using that dom_server_kinds [of pr servers] by (auto simp: dom_def)
  ultimately show ?thesis using assms
    by (auto simp: topologyDescriptionEqual_iff kind_at_def split: option.splits if_splits)
qed

theorem replaced_unknown_server_unseen_witness:
  "topologyDescriptionEqual lowering_printers
    \<lparr>T_Kind = ReplicaSet, Servers = [\<lparr>Addr = ''a'', S_Kind = ServerUnknown\<rparr>]\<rparr>
    \<lparr>T_Kind = ReplicaSet, Servers = [\<lparr>Addr = ''b'', S_Kind = ServerUnknown\<rparr>]\<rparr>"
  using replaced_unknown_server_unseen [of lowering_printers "''a''" "[]" "''b''"] by simp

end
