(* ===== verification/Lruttl.thy ===== *)
theory Lruttl
  imports Prelude "HOL-Library.Sublist"
begin

text \<open>
  The LRU cache with expiry of \<^verbatim>\<open>src/lruttl/lruttl.go\<close>. The doubly linked list of
  \<^verbatim>\<open>container/list\<close> is the list of its elements from front to back, each element its
  address with the \<^verbatim>\<open>*entry\<close> stored in it; the map holds element addresses, as the Go map
  holds \<^verbatim>\<open>*list.Element\<close>. Every exported method runs under the cache's mutex, so an
  execution is a sequence of whole operations, each with the time it reads from the clock;
  \<open>Cache_step\<close> is one of them. Shown here: the representation invariant that ties the map to
  the list, the capacity bound, that the records stand in the order of the clock readings they
  got their expiry from (so that the background loop, which looks at the back only, finds every
  expired record as long as the clock does not go back), and the refinement of an
  LRU list without the element indirection. The locale \<open>ttl_cache\<close> is what the clients of
  the cache rely on.
\<close>

section \<open>Data\<close>

record ('k, 'v) entry =
  e_key :: 'k
  e_value :: 'v
  e_expiry :: time

type_synonym element = nat

record ('k, 'v) Cache =
  maxEntries :: int
  c_expiry :: duration
  ll :: "(element \<times> ('k, 'v) entry) list"
  cache :: "'k \<rightharpoonup> element"
  nextElement :: element \<comment> \<open>the allocator: addresses from here on are fresh\<close>

definition New :: "int \<Rightarrow> duration \<Rightarrow> ('k, 'v) Cache" where
  "New n d = \<lparr>maxEntries = n, c_expiry = d, ll = [], cache = Map.empty, nextElement = 0\<rparr>"

definition newEntry :: "time \<Rightarrow> 'k \<Rightarrow> 'v \<Rightarrow> duration \<Rightarrow> ('k, 'v) entry" where
  "newEntry now k v d = \<lparr>e_key = k, e_value = v, e_expiry = now + d\<rparr>"

definition entry_expiryTime :: "('k, 'v) entry \<Rightarrow> time" where
  "entry_expiryTime e = e_expiry e"

definition entry_expired :: "time \<Rightarrow> ('k, 'v) entry \<Rightarrow> bool" where
  "entry_expired now e \<longleftrightarrow> now > e_expiry e"

definition entry_touch :: "time \<Rightarrow> duration \<Rightarrow> ('k, 'v) entry \<Rightarrow> ('k, 'v) entry" where
  "entry_touch now d e = e\<lparr>e_expiry := now + d\<rparr>"

section \<open>The list operations of container/list\<close>

definition list_Remove :: "element \<Rightarrow> (element \<times> 'e) list \<Rightarrow> (element \<times> 'e) list" where
  "list_Remove i l = filter (\<lambda>p. fst p \<noteq> i) l"

definition list_MoveToFront :: "element \<Rightarrow> (element \<times> 'e) list \<Rightarrow> (element \<times> 'e) list" where
  "list_MoveToFront i l =
     (case map_of l i of None \<Rightarrow> l | Some e \<Rightarrow> (i, e) # list_Remove i l)"

definition list_Back :: "(element \<times> 'e) list \<Rightarrow> (element \<times> 'e) option" where
  "list_Back l = (if l = [] then None else Some (last l))"

text \<open>Writing through the pointer stored in an element.\<close>

definition list_write :: "element \<Rightarrow> ('e \<Rightarrow> 'e) \<Rightarrow> (element \<times> 'e) list \<Rightarrow> (element \<times> 'e) list" where
  "list_write i f l = map (\<lambda>(j, e). (j, if j = i then f e else e)) l"

section \<open>The cache's methods\<close>

definition Cache_len :: "('k, 'v) Cache \<Rightarrow> nat" where
  "Cache_len c = length (ll c)"

definition Cache_oldest :: "('k, 'v) Cache \<Rightarrow> time option" where
  "Cache_oldest c =
     (if Cache_len c = 0 then None
      else case list_Back (ll c) of
        None \<Rightarrow> None
      | Some (_, e) \<Rightarrow> Some (entry_expiryTime e - c_expiry c))"

definition Cache_peek :: "('k, 'v) Cache \<Rightarrow> 'k \<Rightarrow> 'v option" where
  "Cache_peek c k =
     (case cache c k of
        None \<Rightarrow> None
      | Some ele \<Rightarrow> map_option e_value (map_of (ll c) ele))"

definition Cache_get :: "time \<Rightarrow> ('k, 'v) Cache \<Rightarrow> 'k \<Rightarrow> 'v option \<times> ('k, 'v) Cache" where
  "Cache_get now c k =
     (case cache c k of
        None \<Rightarrow> (None, c)
      | Some ele \<Rightarrow>
          (let l = list_write ele (entry_touch now (c_expiry c)) (list_MoveToFront ele (ll c))
           in (map_option e_value (map_of l ele), c\<lparr>ll := l\<rparr>)))"

definition Cache_removeElement :: "('k, 'v) Cache \<Rightarrow> element \<times> ('k, 'v) entry \<Rightarrow> ('k, 'v) Cache" where
  "Cache_removeElement c p =
     c\<lparr>ll := list_Remove (fst p) (ll c), cache := (cache c)(e_key (snd p) := None)\<rparr>"

definition Cache_removeOldest :: "('k, 'v) Cache \<Rightarrow> bool \<times> ('k, 'v) Cache" where
  "Cache_removeOldest c =
     (case list_Back (ll c) of
        None \<Rightarrow> (False, c)
      | Some p \<Rightarrow> (True, Cache_removeElement c p))"

definition Cache_add :: "time \<Rightarrow> ('k, 'v) Cache \<Rightarrow> 'k \<Rightarrow> 'v \<Rightarrow> ('k, 'v) Cache" where
  "Cache_add now c k v =
     (case cache c k of
        Some ele \<Rightarrow>
          c\<lparr>ll := list_write ele (\<lambda>e. (entry_touch now (c_expiry c) e)\<lparr>e_value := v\<rparr>)
                   (list_MoveToFront ele (ll c))\<rparr>
      | None \<Rightarrow>
          (let ele = nextElement c;
               c1 = c\<lparr>ll := (ele, newEntry now k v (c_expiry c)) # ll c,
                      cache := (cache c)(k \<mapsto> ele), nextElement := Suc ele\<rparr>
           in if maxEntries c1 \<noteq> 0 \<and> int (length (ll c1)) > maxEntries c1
              then snd (Cache_removeOldest c1) else c1))"

definition Cache_remove :: "('k, 'v) Cache \<Rightarrow> 'k \<Rightarrow> ('k, 'v) Cache" where
  "Cache_remove c k =
     (case cache c k of
        None \<Rightarrow> c
      | Some ele \<Rightarrow>
          (case map_of (ll c) ele of
             None \<Rightarrow> c
           | Some e \<Rightarrow> Cache_removeElement c (ele, e)))"

definition Cache_clear :: "('k, 'v) Cache \<Rightarrow> ('k, 'v) Cache" where
  "Cache_clear c = c\<lparr>cache := Map.empty, ll := []\<rparr>"

subsection \<open>Background expiry\<close>

definition Cache_oldestExpired :: "time \<Rightarrow> ('k, 'v) Cache \<Rightarrow> bool" where
  "Cache_oldestExpired now c =
     (case list_Back (ll c) of None \<Rightarrow> False | Some (_, e) \<Rightarrow> entry_expired now e)"

definition Cache_removeOldestExpired :: "time \<Rightarrow> ('k, 'v) Cache \<Rightarrow> bool \<times> ('k, 'v) Cache" where
  "Cache_removeOldestExpired now c =
     (case list_Back (ll c) of
        None \<Rightarrow> (False, c)
      | Some p \<Rightarrow>
          if entry_expired now (snd p) then (True, Cache_removeElement c p) else (False, c))"

text \<open>
  One round of the background loop. The inner loop calls \<open>removeOldestExpired\<close> until it
  answers \<open>false\<close>; the \<open>i\<close>-th call reads the clock at \<open>clk i\<close>.
\<close>

lemma Cache_removeOldestExpired_shrinks:
  "Cache_removeOldestExpired now c = (True, c') \<Longrightarrow> length (ll c') < length (ll c)"
  by (auto simp: Cache_removeOldestExpired_def Cache_removeElement_def list_Remove_def list_Back_def
      split: if_splits intro!: length_filter_less [of "last (ll c)"])

function Cache_removeAllExpired :: "(nat \<Rightarrow> time) \<Rightarrow> nat \<Rightarrow> ('k, 'v) Cache \<Rightarrow> ('k, 'v) Cache" where
  "Cache_removeAllExpired clk i c =
     (case Cache_removeOldestExpired (clk i) c of
        (True, c') \<Rightarrow> Cache_removeAllExpired clk (Suc i) c'
      | (False, c') \<Rightarrow> c')"
  by pat_completeness auto
termination
  by (relation "measure (\<lambda>(clk, i, c). length (ll c))")
    (auto dest: sym intro: Cache_removeOldestExpired_shrinks)

declare Cache_removeAllExpired.simps [simp del]

definition Cache_expireRound :: "(nat \<Rightarrow> time) \<Rightarrow> ('k, 'v) Cache \<Rightarrow> ('k, 'v) Cache" where
  "Cache_expireRound clk c =
     (if Cache_oldestExpired (clk 0) c then Cache_removeAllExpired clk 1 c else c)"

text \<open>
  One atomic operation of a client or of the background loop, at time \<open>now\<close>. \<open>New\<close> starts
  the loop only for an expiry other than 0.
\<close>

inductive Cache_step :: "time \<Rightarrow> ('k, 'v) Cache \<Rightarrow> ('k, 'v) Cache \<Rightarrow> bool" where
  step_get: "Cache_step now c (snd (Cache_get now c k))"
| step_add: "Cache_step now c (Cache_add now c k v)"
| step_remove: "Cache_step now c (Cache_remove c k)"
| step_clear: "Cache_step now c (Cache_clear c)"
| step_expire: "c_expiry c \<noteq> 0 \<Longrightarrow> Cache_step now c (snd (Cache_removeOldestExpired now c))"

inductive_cases Cache_stepE: "Cache_step now c c'"

text \<open>
  An execution with the times its operations read, the latest operation first. The code reads
  the wall clock, so nothing is said about the order of these times.
\<close>

inductive Cache_reachable :: "int \<Rightarrow> duration \<Rightarrow> time list \<Rightarrow> ('k, 'v) Cache \<Rightarrow> bool"
  for n :: int and d :: duration where
  init: "Cache_reachable n d [] (New n d)"
| step: "Cache_reachable n d ts c \<Longrightarrow> Cache_step t c c' \<Longrightarrow> Cache_reachable n d (t # ts) c'"

section \<open>Representation invariant\<close>

definition Cache_wf :: "('k, 'v) Cache \<Rightarrow> bool" where
  "Cache_wf c \<longleftrightarrow>
     distinct (map fst (ll c)) \<and> distinct (map (e_key \<circ> snd) (ll c)) \<and>
     (\<forall>k i. cache c k = Some i \<longleftrightarrow> (\<exists>e. (i, e) \<in> set (ll c) \<and> e_key e = k)) \<and>
     (\<forall>p \<in> set (ll c). fst p < nextElement c)"

lemma Cache_wfD:
  assumes "Cache_wf c"
  shows "distinct (map fst (ll c))" "distinct (map (e_key \<circ> snd) (ll c))"
    "\<And>k i. cache c k = Some i \<longleftrightarrow> (\<exists>e. (i, e) \<in> set (ll c) \<and> e_key e = k)"
    "\<And>p. p \<in> set (ll c) \<Longrightarrow> fst p < nextElement c"
  using assms by (simp_all add: Cache_wf_def)

lemma Cache_wf_hit:
  assumes "Cache_wf c" and "cache c k = Some i"
  obtains e where "(i, e) \<in> set (ll c)" "e_key e = k" "map_of (ll c) i = Some e"
  using assms Cache_wfD(1,3) [OF assms(1)] by (metis map_of_is_SomeI)

lemma Cache_wf_miss: "Cache_wf c \<Longrightarrow> cache c k = None \<longleftrightarrow> (\<forall>p \<in> set (ll c). e_key (snd p) \<noteq> k)"
  using Cache_wfD(3) [of c k] by (metis (no_types, lifting) not_Some_eq prod.collapse snd_conv)

lemma Cache_wf_same_key:
  assumes "Cache_wf c" and "p \<in> set (ll c)" and "q \<in> set (ll c)" and "e_key (snd p) = e_key (snd q)"
  shows "p = q"
  using Cache_wfD(2) [OF assms(1)] assms(2-4) by (auto simp: distinct_map inj_on_def)

lemma Cache_wf_same_element:
  assumes "Cache_wf c" and "p \<in> set (ll c)" and "q \<in> set (ll c)" and "fst p = fst q"
  shows "p = q"
  using Cache_wfD(1) [OF assms(1)] assms(2-4) by (auto simp: distinct_map inj_on_def)

text \<open>
  A hit is rewritten and moved to the front; everything else keeps its place. \<open>bump\<close> is
  that list, whichever field the hit rewrites.
\<close>

definition bump :: "element \<Rightarrow> ('e \<Rightarrow> 'e) \<Rightarrow> 'e \<Rightarrow> (element \<times> 'e) list \<Rightarrow> (element \<times> 'e) list" where
  "bump i f e l = (i, f e) # list_Remove i l"

lemma list_write_Remove [simp]: "list_write i f (list_Remove i l) = list_Remove i l"
  by (induction l) (auto simp: list_write_def list_Remove_def)

lemma list_write_MoveToFront:
  "map_of l i = Some e \<Longrightarrow> list_write i f (list_MoveToFront i l) = bump i f e l"
  by (simp add: list_MoveToFront_def bump_def list_write_def)
    (simp add: list_write_def [symmetric])

lemma set_list_Remove: "set (list_Remove i l) = {p \<in> set l. fst p \<noteq> i}"
  by (auto simp: list_Remove_def)

lemma distinct_list_Remove: "distinct (map f l) \<Longrightarrow> distinct (map f (list_Remove i l))"
  by (simp add: list_Remove_def distinct_map_filter)

lemma Cache_wf_bump:
  assumes wf: "Cache_wf c" and hit: "(i, e) \<in> set (ll c)" and key: "e_key (f e) = e_key e"
  shows "Cache_wf (c\<lparr>ll := bump i f e (ll c)\<rparr>)"
proof -
  note d = Cache_wfD [OF wf]
  have other: "e_key (snd p) \<noteq> e_key e" if "p \<in> set (list_Remove i (ll c))" for p
    using Cache_wf_same_key [OF wf _ hit] that by (fastforce simp: set_list_Remove)
  have only: "e' = e" if "(i, e') \<in> set (ll c)" for e'
    using Cache_wf_same_element [OF wf that hit] by simp
  have "(\<exists>e'. (j, e') \<in> set (bump i f e (ll c)) \<and> e_key e' = k) \<longleftrightarrow> cache c k = Some j" for j k
  proof (cases "j = i")
    case True
    then have "(\<exists>e'. (j, e') \<in> set (bump i f e (ll c)) \<and> e_key e' = k) \<longleftrightarrow> e_key e = k"
      by (auto simp: bump_def set_list_Remove key)
    also have "\<dots> \<longleftrightarrow> cache c k = Some j"
      unfolding True d(3) using hit only by blast
    finally show ?thesis .
  next
    case False
    then show ?thesis using d(3) [of k j] by (auto simp: bump_def set_list_Remove)
  qed
  moreover have "distinct (map fst (bump i f e (ll c)))"
    using distinct_list_Remove [OF d(1)] by (auto simp: bump_def set_list_Remove)
  moreover have "distinct (map (e_key \<circ> snd) (bump i f e (ll c)))"
    using distinct_list_Remove [OF d(2), of i] other key by (fastforce simp: bump_def)
  ultimately show ?thesis
    using d(4) hit by (auto simp: Cache_wf_def bump_def set_list_Remove)
qed

lemma Cache_wf_removeElement:
  assumes wf: "Cache_wf c" and p: "p \<in> set (ll c)"
  shows "Cache_wf (Cache_removeElement c p)"
proof -
  note d = Cache_wfD [OF wf]
  obtain i e where pe: "p = (i, e)" by (cases p)
  have eq: "((cache c)(e_key e := None)) k = Some j \<longleftrightarrow>
      (\<exists>e'. (j, e') \<in> set (list_Remove i (ll c)) \<and> e_key e' = k)" for j k
  proof (cases "k = e_key e")
    case True
    then show ?thesis using Cache_wf_same_key [OF wf _ p] pe by (fastforce simp: set_list_Remove)
  next
    case False
    then show ?thesis using d(3) [of k j] Cache_wf_same_element [OF wf _ p] pe
      by (fastforce simp: set_list_Remove)
  qed
  show ?thesis
    using distinct_list_Remove [OF d(1)] distinct_list_Remove [OF d(2)] d(4) eq
    by (auto simp: Cache_wf_def Cache_removeElement_def pe set_list_Remove)
qed

lemma Cache_wf_push:
  assumes wf: "Cache_wf c" and miss: "cache c k = None" and key: "e_key e = k"
  shows "Cache_wf (c\<lparr>ll := (nextElement c, e) # ll c, cache := (cache c)(k \<mapsto> nextElement c),
                     nextElement := Suc (nextElement c)\<rparr>)"
proof -
  note d = Cache_wfD [OF wf]
  have fresh: "nextElement c \<notin> fst ` set (ll c)" using d(4) by (metis imageE less_irrefl)
  have nokey: "k \<notin> (e_key \<circ> snd) ` set (ll c)" using Cache_wf_miss [OF wf] miss by auto
  have eq: "((cache c)(k \<mapsto> nextElement c)) k' = Some j \<longleftrightarrow>
      (\<exists>e'. (j, e') \<in> set ((nextElement c, e) # ll c) \<and> e_key e' = k')" for j k'
    using d(3) [of k' j] key nokey fresh by (auto simp: image_iff)
  show ?thesis
    using d(1,2) fresh nokey key eq less_SucI [OF d(4)]
    by (auto simp: Cache_wf_def comp_def)
qed

lemma Cache_get_hit:
  assumes "Cache_wf c" and "cache c k = Some i" and "map_of (ll c) i = Some e"
  shows "Cache_get now c k =
    (Some (e_value e), c\<lparr>ll := bump i (entry_touch now (c_expiry c)) e (ll c)\<rparr>)"
  using assms by (simp add: Cache_get_def list_write_MoveToFront Let_def)
    (simp add: bump_def entry_touch_def)

lemma Cache_wf_New [wf_preserve]: "Cache_wf (New n d)"
  by (simp add: Cache_wf_def New_def)

lemma Cache_wf_get [wf_preserve]: "Cache_wf c \<Longrightarrow> Cache_wf (snd (Cache_get now c k))"
proof (cases "cache c k")
  case (Some i)
  assume wf: "Cache_wf c"
  obtain e where e: "(i, e) \<in> set (ll c)" "map_of (ll c) i = Some e"
    by (rule Cache_wf_hit [OF wf Some])
  show ?thesis
    using Cache_wf_bump [OF wf e(1), of "entry_touch now (c_expiry c)"] Cache_get_hit [OF wf Some e(2)]
    by (simp add: entry_touch_def)
qed (simp add: Cache_get_def)

lemma Cache_wf_removeOldest: "Cache_wf c \<Longrightarrow> Cache_wf (snd (Cache_removeOldest c))"
  by (auto simp: Cache_removeOldest_def list_Back_def intro: Cache_wf_removeElement)

lemma Cache_wf_add [wf_preserve]: "Cache_wf c \<Longrightarrow> Cache_wf (Cache_add now c k v)"
proof (cases "cache c k")
  case (Some i)
  assume wf: "Cache_wf c"
  obtain e where e: "(i, e) \<in> set (ll c)" "map_of (ll c) i = Some e"
    by (rule Cache_wf_hit [OF wf Some])
  show ?thesis
    using Cache_wf_bump [OF wf e(1), of "\<lambda>e. entry_touch now (c_expiry c) e\<lparr>e_value := v\<rparr>"] Some e(2)
    by (simp add: Cache_add_def list_write_MoveToFront entry_touch_def)
next
  case None
  assume wf: "Cache_wf c"
  show ?thesis
    using Cache_wf_push [OF wf None, of "newEntry now k v (c_expiry c)"] None
    by (auto simp: Cache_add_def Let_def newEntry_def intro: Cache_wf_removeOldest)
qed

lemma Cache_wf_remove [wf_preserve]: "Cache_wf c \<Longrightarrow> Cache_wf (Cache_remove c k)"
  by (auto simp: Cache_remove_def intro: Cache_wf_removeElement dest: map_of_SomeD
      split: option.split)

lemma Cache_wf_clear [wf_preserve]: "Cache_wf (Cache_clear c)"
  by (simp add: Cache_wf_def Cache_clear_def)

lemma Cache_wf_removeOldestExpired [wf_preserve]:
  "Cache_wf c \<Longrightarrow> Cache_wf (snd (Cache_removeOldestExpired now c))"
  by (auto simp: Cache_removeOldestExpired_def list_Back_def intro: Cache_wf_removeElement)

lemma Cache_step_wf: "Cache_step now c c' \<Longrightarrow> Cache_wf c \<Longrightarrow> Cache_wf c'"
  by (erule Cache_stepE) (simp_all add: wf_preserve)

section \<open>Refinement of a plain LRU list\<close>

text \<open>
  The specification has no elements and no map: the records, most recently used first, with
  at most one per key. \<open>LRU_add\<close> drops the last record when a new key exceeds the capacity.
\<close>

type_synonym ('k, 'v) lru = "('k, 'v) entry list"

definition Cache_abs :: "('k, 'v) Cache \<Rightarrow> ('k, 'v) lru" where
  "Cache_abs c = map snd (ll c)"

definition LRU_drop :: "'k \<Rightarrow> ('k, 'v) lru \<Rightarrow> ('k, 'v) lru" where
  "LRU_drop k es = filter (\<lambda>e. e_key e \<noteq> k) es"

definition LRU_find :: "'k \<Rightarrow> ('k, 'v) lru \<Rightarrow> 'v option" where
  "LRU_find k es = map_option e_value (find (\<lambda>e. e_key e = k) es)"

definition LRU_get :: "time \<Rightarrow> duration \<Rightarrow> 'k \<Rightarrow> ('k, 'v) lru \<Rightarrow> 'v option \<times> ('k, 'v) lru" where
  "LRU_get now d k es =
     (case LRU_find k es of
        None \<Rightarrow> (None, es)
      | Some v \<Rightarrow> (Some v, newEntry now k v d # LRU_drop k es))"

definition LRU_add :: "time \<Rightarrow> duration \<Rightarrow> int \<Rightarrow> 'k \<Rightarrow> 'v \<Rightarrow> ('k, 'v) lru \<Rightarrow> ('k, 'v) lru" where
  "LRU_add now d n k v es =
     (let es' = newEntry now k v d # LRU_drop k es
      in if LRU_find k es = None \<and> n \<noteq> 0 \<and> int (length es') > n then butlast es' else es')"

lemma find_key_map_snd:
  assumes "Cache_wf c" and "(i, e) \<in> set (ll c)" and "e_key e = k"
  shows "find (\<lambda>e. e_key e = k) (map snd (ll c)) = Some e"
proof -
  obtain e' where e': "find (\<lambda>e. e_key e = k) (map snd (ll c)) = Some e'"
    using assms(2,3) by (cases "find (\<lambda>e. e_key e = k) (map snd (ll c))") (force simp: find_None_iff)+
  then obtain i' where "(i', e') \<in> set (ll c)" "e_key e' = k"
    by (auto simp: find_Some_iff in_set_conv_nth) (metis nth_mem prod.collapse)
  then have "(i', e') = (i, e)" using Cache_wf_same_key [OF assms(1) _ assms(2)] assms(3) by simp
  with e' show ?thesis by simp
qed

lemma Cache_peek_refines:
  assumes wf: "Cache_wf c"
  shows "Cache_peek c k = LRU_find k (Cache_abs c)"
proof (cases "cache c k")
  case None
  then have "find (\<lambda>e. e_key e = k) (map snd (ll c)) = None"
    using Cache_wf_miss [OF wf] by (auto simp: find_None_iff)
  with None show ?thesis by (simp add: Cache_peek_def LRU_find_def Cache_abs_def)
next
  case (Some i)
  obtain e where e: "(i, e) \<in> set (ll c)" "e_key e = k" "map_of (ll c) i = Some e"
    by (rule Cache_wf_hit [OF wf Some])
  show ?thesis
    using Some e(3) find_key_map_snd [OF wf e(1,2)] by (simp add: Cache_peek_def LRU_find_def Cache_abs_def)
qed

lemma map_snd_list_Remove:
  assumes wf: "Cache_wf c" and p: "(i, e) \<in> set (ll c)"
  shows "map snd (list_Remove i (ll c)) = LRU_drop (e_key e) (Cache_abs c)"
proof -
  have "fst q \<noteq> i \<longleftrightarrow> e_key (snd q) \<noteq> e_key e" if "q \<in> set (ll c)" for q
    using Cache_wf_same_key [OF wf that p] Cache_wf_same_element [OF wf that p]
    by (metis fst_conv snd_conv)
  then have "list_Remove i (ll c) = filter (\<lambda>q. e_key (snd q) \<noteq> e_key e) (ll c)"
    by (simp add: list_Remove_def cong: filter_cong)
  then show ?thesis by (simp add: LRU_drop_def Cache_abs_def filter_map comp_def)
qed

lemma LRU_drop_absent: "LRU_find k es = None \<Longrightarrow> LRU_drop k es = es"
  by (auto simp: LRU_find_def LRU_drop_def find_None_iff)

lemma Cache_get_refines:
  assumes wf: "Cache_wf c"
  shows "map_prod id Cache_abs (Cache_get now c k) = LRU_get now (c_expiry c) k (Cache_abs c)"
proof (cases "cache c k")
  case None
  then have "LRU_find k (Cache_abs c) = None"
    using Cache_peek_refines [OF wf, of k] by (simp add: Cache_peek_def)
  with None show ?thesis by (simp add: Cache_get_def LRU_get_def)
next
  case (Some i)
  obtain e where e: "(i, e) \<in> set (ll c)" "e_key e = k" "map_of (ll c) i = Some e"
    by (rule Cache_wf_hit [OF wf Some])
  have "LRU_find k (Cache_abs c) = Some (e_value e)"
    using Cache_peek_refines [OF wf, of k] Some e(3) by (simp add: Cache_peek_def)
  moreover have "entry_touch now d e = newEntry now k (e_value e) d" for d
    using e(2) by (simp add: entry_touch_def newEntry_def)
  ultimately show ?thesis
    using Cache_get_hit [OF wf Some e(3)] map_snd_list_Remove [OF wf e(1)] e(2)
    by (simp add: LRU_get_def Cache_abs_def bump_def)
qed

lemma list_Remove_snoc: "distinct (map fst (xs @ [x])) \<Longrightarrow> list_Remove (fst x) (xs @ [x]) = xs"
  by (induction xs) (auto simp: list_Remove_def)

lemma removeOldest_butlast:
  assumes "Cache_wf c" and "ll c \<noteq> []"
  shows "ll (snd (Cache_removeOldest c)) = butlast (ll c)"
proof -
  have split: "ll c = butlast (ll c) @ [last (ll c)]" using assms(2) by simp
  then have "distinct (map fst (butlast (ll c) @ [last (ll c)]))" using Cache_wfD(1) [OF assms(1)] by simp
  then have "list_Remove (fst (last (ll c))) (butlast (ll c) @ [last (ll c)]) = butlast (ll c)"
    by (rule list_Remove_snoc)
  with assms(2) show ?thesis
    by (simp add: Cache_removeOldest_def list_Back_def Cache_removeElement_def)
qed

lemma Cache_add_refines:
  assumes wf: "Cache_wf c"
  shows "Cache_abs (Cache_add now c k v) = LRU_add now (c_expiry c) (maxEntries c) k v (Cache_abs c)"
proof (cases "cache c k")
  case None
  have miss: "LRU_find k (Cache_abs c) = None"
    using Cache_peek_refines [OF wf, of k] None by (simp add: Cache_peek_def)
  let ?e = "newEntry now k v (c_expiry c)"
  let ?c = "c\<lparr>ll := (nextElement c, ?e) # ll c, cache := (cache c)(k \<mapsto> nextElement c),
              nextElement := Suc (nextElement c)\<rparr>"
  have "Cache_wf ?c" using Cache_wf_push [OF wf None, of ?e] by (simp add: newEntry_def)
  then have "ll (snd (Cache_removeOldest ?c)) = butlast (ll ?c)"
    by (rule removeOldest_butlast) simp
  with None miss show ?thesis
    by (simp add: Cache_add_def LRU_add_def Let_def LRU_drop_absent Cache_abs_def map_butlast)
next
  case (Some i)
  obtain e where e: "(i, e) \<in> set (ll c)" "e_key e = k" "map_of (ll c) i = Some e"
    by (rule Cache_wf_hit [OF wf Some])
  have "LRU_find k (Cache_abs c) = Some (e_value e)"
    using Cache_peek_refines [OF wf, of k] Some e(3) by (simp add: Cache_peek_def)
  moreover have "entry_touch now d e\<lparr>e_value := v\<rparr> = newEntry now k v d" for d
    using e(2) by (simp add: entry_touch_def newEntry_def)
  ultimately show ?thesis
    using Some e(3) map_snd_list_Remove [OF wf e(1)] e(2)
    by (simp add: Cache_add_def LRU_add_def Cache_abs_def list_write_MoveToFront bump_def Let_def)
qed

lemma Cache_remove_refines:
  assumes wf: "Cache_wf c"
  shows "Cache_abs (Cache_remove c k) = LRU_drop k (Cache_abs c)"
proof (cases "cache c k")
  case None
  then show ?thesis
    using Cache_peek_refines [OF wf, of k] by (simp add: Cache_remove_def Cache_peek_def LRU_drop_absent)
next
  case (Some i)
  obtain e where e: "(i, e) \<in> set (ll c)" "e_key e = k" "map_of (ll c) i = Some e"
    by (rule Cache_wf_hit [OF wf Some])
  show ?thesis
    using Some e(3) map_snd_list_Remove [OF wf e(1)] e(2)
    by (simp add: Cache_remove_def Cache_removeElement_def Cache_abs_def)
qed

section \<open>Order by expiry and capacity\<close>

text \<open>
  Every record got its expiry from a clock reading plus the same duration, and a record that
  gets one moves to the front: the records stand in the order of these readings, and are
  ordered by expiry as long as the clock does not go back.
\<close>

abbreviation later :: "element \<times> ('k, 'v) entry \<Rightarrow> element \<times> ('k, 'v) entry \<Rightarrow> bool" where
  "later p q \<equiv> e_expiry (snd p) \<ge> e_expiry (snd q)"

definition expiries :: "('k, 'v) Cache \<Rightarrow> time list" where
  "expiries c = map (\<lambda>p. e_expiry (snd p)) (ll c)"

definition Cache_ordered :: "time list \<Rightarrow> ('k, 'v) Cache \<Rightarrow> bool" where
  "Cache_ordered ts c \<longleftrightarrow> subseq (expiries c) (map (\<lambda>t. t + c_expiry c) ts)"

definition Cache_bounded :: "('k, 'v) Cache \<Rightarrow> bool" where
  "Cache_bounded c \<longleftrightarrow> (maxEntries c > 0 \<longrightarrow> int (length (ll c)) \<le> maxEntries c)"

lemma subseq_sorted_wrt: "subseq xs ys \<Longrightarrow> sorted_wrt P ys \<Longrightarrow> sorted_wrt P xs"
  by (induction rule: list_emb.induct) (auto dest: list_emb_set)

lemma Cache_ordered_later:
  assumes "Cache_ordered ts c" and "sorted_wrt (\<ge>) ts"
  shows "sorted_wrt later (ll c)"
proof -
  have "sorted_wrt (\<ge>) (map (\<lambda>t. t + c_expiry c) ts)" using assms(2) by (simp add: sorted_wrt_map)
  with assms(1) have "sorted_wrt (\<ge>) (expiries c)" unfolding Cache_ordered_def by (rule subseq_sorted_wrt)
  then show ?thesis by (simp add: expiries_def sorted_wrt_map)
qed

lemma Cache_ordered_Cons: "Cache_ordered ts c \<Longrightarrow> Cache_ordered (t # ts) c"
  by (simp add: Cache_ordered_def list_emb_Cons)

lemma expiries_Remove: "subseq (map f (list_Remove i l)) (map f l)"
  unfolding list_Remove_def by (rule subseq_map) simp

lemma Cache_ordered_remove:
  "Cache_ordered ts c \<Longrightarrow> Cache_ordered ts (c\<lparr>ll := list_Remove i (ll c), cache := m\<rparr>)"
  by (auto simp: Cache_ordered_def expiries_def intro: subseq_order.trans [OF expiries_Remove])

lemma Cache_ordered_front:
  assumes "Cache_ordered ts c" and "e_expiry e = t + c_expiry c"
  shows "Cache_ordered (t # ts) (c\<lparr>ll := (i, e) # ll c, cache := m, nextElement := j\<rparr>)"
    and "Cache_ordered (t # ts) (c\<lparr>ll := (i, e) # list_Remove i (ll c)\<rparr>)"
  using assms by (auto simp: Cache_ordered_def expiries_def intro: subseq_order.trans [OF expiries_Remove])

lemma Cache_ordered_removeElement:
  "Cache_ordered ts c \<Longrightarrow> Cache_ordered ts (Cache_removeElement c p)"
  by (simp add: Cache_removeElement_def Cache_ordered_remove)

lemma length_list_Remove_le: "length (list_Remove i l) \<le> length l"
  by (simp add: list_Remove_def)

lemma Cache_bounded_removeElement: "Cache_bounded c \<Longrightarrow> Cache_bounded (Cache_removeElement c p)"
  using length_list_Remove_le [of "fst p" "ll c"]
  by (auto simp: Cache_removeElement_def Cache_bounded_def)

lemma Cache_get_ordered:
  assumes "Cache_wf c" and "Cache_ordered ts c"
  shows "Cache_ordered (now # ts) (snd (Cache_get now c k))"
proof (cases "cache c k")
  case (Some i)
  obtain e where e: "map_of (ll c) i = Some e" by (rule Cache_wf_hit [OF assms(1) Some])
  show ?thesis using Cache_ordered_front(2) [OF assms(2)] Cache_get_hit [OF assms(1) Some e]
    by (simp add: bump_def entry_touch_def)
qed (use assms in \<open>simp add: Cache_get_def Cache_ordered_Cons\<close>)

lemma Cache_add_ordered:
  assumes "Cache_wf c" and "Cache_ordered ts c"
  shows "Cache_ordered (now # ts) (Cache_add now c k v)"
proof (cases "cache c k")
  case (Some i)
  obtain e where e: "map_of (ll c) i = Some e" by (rule Cache_wf_hit [OF assms(1) Some])
  show ?thesis using Cache_ordered_front(2) [OF assms(2)] Some e
    by (simp add: Cache_add_def list_write_MoveToFront bump_def entry_touch_def)
next
  case None
  have "Cache_ordered (now # ts) (c\<lparr>ll := (nextElement c, newEntry now k v (c_expiry c)) # ll c,
      cache := (cache c)(k \<mapsto> nextElement c), nextElement := Suc (nextElement c)\<rparr>)"
    by (rule Cache_ordered_front(1) [OF assms(2)]) (simp add: newEntry_def)
  with None show ?thesis
    by (auto simp: Cache_add_def Let_def Cache_removeOldest_def intro: Cache_ordered_removeElement
        split: option.split)
qed

lemma length_LRU_drop_le: "length (LRU_drop k es) \<le> length es"
  by (simp add: LRU_drop_def)

lemma length_LRU_drop_less: "LRU_find k es = Some v \<Longrightarrow> length (LRU_drop k es) < length es"
  by (auto simp: LRU_find_def LRU_drop_def find_Some_iff intro!: length_filter_less)

lemma Cache_abs_length: "length (ll c) = length (Cache_abs c)"
  by (simp add: Cache_abs_def)

lemma maxEntries_frame [simp, frame]:
  "maxEntries (Cache_add now c k v) = maxEntries c"
  "maxEntries (snd (Cache_get now c k)) = maxEntries c"
  "maxEntries (Cache_remove c k) = maxEntries c"
  "maxEntries (Cache_clear c) = maxEntries c"
  "maxEntries (snd (Cache_removeOldestExpired now c)) = maxEntries c"
  by (simp_all add: Cache_add_def Cache_get_def Cache_remove_def Cache_clear_def Let_def
      Cache_removeOldestExpired_def Cache_removeOldest_def Cache_removeElement_def split: option.split)

lemma c_expiry_frame [simp, frame]:
  "c_expiry (Cache_add now c k v) = c_expiry c"
  "c_expiry (snd (Cache_get now c k)) = c_expiry c"
  "c_expiry (Cache_remove c k) = c_expiry c"
  "c_expiry (Cache_clear c) = c_expiry c"
  "c_expiry (snd (Cache_removeOldestExpired now c)) = c_expiry c"
  by (simp_all add: Cache_add_def Cache_get_def Cache_remove_def Cache_clear_def Let_def
      Cache_removeOldestExpired_def Cache_removeOldest_def Cache_removeElement_def split: option.split)

lemma Cache_add_bounded:
  assumes "Cache_wf c" and "Cache_bounded c"
  shows "Cache_bounded (Cache_add now c k v)"
proof -
  have "maxEntries c > 0 \<longrightarrow>
      int (length (LRU_add now (c_expiry c) (maxEntries c) k v (Cache_abs c))) \<le> maxEntries c"
    using assms(2) length_LRU_drop_less [of k "Cache_abs c"]
    by (cases "LRU_find k (Cache_abs c)")
      (auto simp: LRU_add_def Cache_bounded_def Let_def Cache_abs_length LRU_drop_absent)
  then show ?thesis
    by (simp add: Cache_bounded_def Cache_abs_length Cache_add_refines [OF assms(1)])
qed

lemma Cache_get_bounded:
  assumes "Cache_wf c" and "Cache_bounded c"
  shows "Cache_bounded (snd (Cache_get now c k))"
proof -
  have "Cache_abs (snd (Cache_get now c k)) = snd (LRU_get now (c_expiry c) k (Cache_abs c))"
    using Cache_get_refines [OF assms(1), of now k] by (metis snd_map_prod)
  moreover have "length (snd (LRU_get now (c_expiry c) k (Cache_abs c))) \<le> length (Cache_abs c)"
    using length_LRU_drop_less [of k "Cache_abs c"] by (auto simp: LRU_get_def Suc_le_eq split: option.split)
  ultimately show ?thesis using assms(2) by (auto simp: Cache_bounded_def Cache_abs_length)
qed

definition Cache_inv :: "time list \<Rightarrow> ('k, 'v) Cache \<Rightarrow> bool" where
  "Cache_inv ts c \<longleftrightarrow> Cache_wf c \<and> Cache_ordered ts c \<and> Cache_bounded c"

lemma Cache_step_inv:
  assumes "Cache_step now c c'" and "Cache_inv ts c"
  shows "Cache_inv (now # ts) c'"
  using assms Cache_step_wf [OF assms(1)]
proof (cases rule: Cache_step.cases)
  case (step_remove k)
  then show ?thesis using assms(2) Cache_wf_remove [of c k]
    by (auto simp: Cache_inv_def Cache_remove_def Cache_ordered_removeElement Cache_ordered_Cons
        Cache_bounded_removeElement split: option.split)
next
  case step_clear
  then show ?thesis using assms(2)
    by (auto simp: Cache_inv_def Cache_wf_clear Cache_clear_def [of c] Cache_ordered_def expiries_def
        Cache_bounded_def Cache_wf_def)
next
  case step_expire
  then show ?thesis using assms(2) Cache_wf_removeOldestExpired [of c now]
    by (auto simp: Cache_inv_def Cache_removeOldestExpired_def Cache_ordered_removeElement Cache_ordered_Cons
        Cache_bounded_removeElement split: option.split)
qed (auto simp: Cache_inv_def Cache_get_ordered Cache_add_ordered Cache_get_bounded Cache_add_bounded)

lemma Cache_reachable_inv: "Cache_reachable n d ts c \<Longrightarrow> Cache_inv ts c \<and> maxEntries c = n \<and> c_expiry c = d"
proof (induction rule: Cache_reachable.induct)
  case init
  show ?case using Cache_wf_New [of n d]
    by (simp add: Cache_inv_def Cache_ordered_def expiries_def Cache_bounded_def New_def)
next
  case (step ts c t c')
  then have "Cache_inv (t # ts) c'" by (blast intro: Cache_step_inv)
  with step show ?case by (auto elim!: Cache_stepE)
qed

section \<open>The background loop\<close>

lemma removeOldestExpired_cases:
  assumes "Cache_wf c"
  obtains (empty) "ll c = []" "Cache_removeOldestExpired now c = (False, c)"
  | (live) "ll c \<noteq> []" "\<not> entry_expired now (snd (last (ll c)))" "Cache_removeOldestExpired now c = (False, c)"
  | (dead) c' where "ll c \<noteq> []" "entry_expired now (snd (last (ll c)))"
      "Cache_removeOldestExpired now c = (True, c')" "Cache_wf c'" "ll c' = butlast (ll c)"
proof (cases "ll c = []")
  case True
  then show ?thesis by (auto simp: Cache_removeOldestExpired_def list_Back_def intro: empty)
next
  case False
  note eq = removeOldest_butlast [OF assms False] Cache_wf_removeOldest [OF assms]
  show ?thesis
  proof (cases "entry_expired now (snd (last (ll c)))")
    case True
    then show ?thesis using False eq dead [of "snd (Cache_removeOldest c)"]
      by (simp add: Cache_removeOldestExpired_def Cache_removeOldest_def list_Back_def)
  next
    case False
    then show ?thesis using live \<open>ll c \<noteq> []\<close>
      by (simp add: Cache_removeOldestExpired_def list_Back_def)
  qed
qed

text \<open>
  What the inner loop leaves: a prefix of the list, whose last record is not expired at the
  last time read; what it dropped was expired at some time it read.
\<close>

lemma removeAllExpired_result:
  assumes "Cache_wf c" and "mono clk"
  shows "Cache_wf (Cache_removeAllExpired clk i c) \<and>
    (\<exists>dropped. ll c = ll (Cache_removeAllExpired clk i c) @ dropped \<and>
       (\<forall>p \<in> set dropped. \<exists>j. entry_expired (clk j) (snd p))) \<and>
    (ll (Cache_removeAllExpired clk i c) \<noteq> [] \<longrightarrow>
       \<not> entry_expired (clk i) (snd (last (ll (Cache_removeAllExpired clk i c)))))"
  using assms
proof (induction clk i c rule: Cache_removeAllExpired.induct)
  case (1 clk i c)
  from \<open>Cache_wf c\<close> show ?case
  proof (cases rule: removeOldestExpired_cases [of c "clk i"])
    case (dead c')
    let ?r = "Cache_removeAllExpired clk (Suc i) c'"
    have eq: "Cache_removeAllExpired clk i c = ?r"
      using dead by (subst Cache_removeAllExpired.simps) simp
    from "1.IH" [OF dead(3) [symmetric] refl dead(4) \<open>mono clk\<close>]
    obtain dropped where r: "Cache_wf ?r" "ll c' = ll ?r @ dropped"
      "\<forall>p \<in> set dropped. \<exists>j. entry_expired (clk j) (snd p)"
      "ll ?r \<noteq> [] \<longrightarrow> \<not> entry_expired (clk (Suc i)) (snd (last (ll ?r)))"
      by auto
    have "ll c = ll ?r @ (dropped @ [last (ll c)])"
      using dead(1,5) r(2) append_butlast_last_id [of "ll c"] by (metis append_assoc)
    moreover have "clk i \<le> clk (Suc i)" using \<open>mono clk\<close> by (simp add: mono_def)
    ultimately show ?thesis unfolding eq using r dead(2)
      by (intro conjI exI [of _ "dropped @ [last (ll c)]"]) (auto simp: entry_expired_def)
  qed (use \<open>Cache_wf c\<close> in \<open>auto simp: Cache_removeAllExpired.simps [of clk i c]\<close>)
qed

lemma ordered_last_live:
  assumes "sorted_wrt later l" and "p \<in> set l" and "\<not> entry_expired now (snd (last l))"
  shows "\<not> entry_expired now (snd p)"
proof -
  obtain i where i: "i < length l" "p = l ! i" using assms(2) by (auto simp: in_set_conv_nth)
  have "last l = l ! (length l - 1)" using assms(2) by (intro last_conv_nth) auto
  then have "later p (last l)"
    using sorted_wrt_nth_less [OF assms(1), of i "length l - 1"] i by (cases "i = length l - 1") auto
  with assms(3) show ?thesis by (auto simp: entry_expired_def)
qed

lemma expireRound_result:
  assumes wf: "Cache_wf c" and ord: "sorted_wrt later (ll c)" and clk: "mono clk"
  shows "(\<exists>dropped. ll c = ll (Cache_expireRound clk c) @ dropped \<and>
            (\<forall>p \<in> set dropped. \<exists>j. entry_expired (clk j) (snd p))) \<and>
         (\<forall>p \<in> set (ll (Cache_expireRound clk c)). \<not> entry_expired (clk 0) (snd p))"
proof (cases "Cache_oldestExpired (clk 0) c")
  case True
  let ?r = "Cache_removeAllExpired clk 1 c"
  from removeAllExpired_result [OF wf clk, of 1] obtain dropped where
    r: "ll c = ll ?r @ dropped" "\<forall>p \<in> set dropped. \<exists>j. entry_expired (clk j) (snd p)"
    "ll ?r \<noteq> [] \<longrightarrow> \<not> entry_expired (clk 1) (snd (last (ll ?r)))" by auto
  have "sorted_wrt later (ll ?r)" using ord r(1) by (simp add: sorted_wrt_append)
  then have "\<not> entry_expired (clk 1) (snd p)" if "p \<in> set (ll ?r)" for p
    using ordered_last_live that r(3) by (metis length_pos_if_in_set less_numeral_extra(3) list.size(3))
  moreover have "clk 0 \<le> clk 1" using clk by (simp add: mono_def)
  ultimately show ?thesis using True r by (fastforce simp: Cache_expireRound_def entry_expired_def)
next
  case False
  then have "\<not> entry_expired (clk 0) (snd p)" if "p \<in> set (ll c)" for p
    using ordered_last_live [of "ll c" p "clk 0"] ord that
    by (auto simp: Cache_oldestExpired_def list_Back_def split: prod.splits if_splits)
  with False show ?thesis by (auto simp: Cache_expireRound_def intro: exI [of _ "[]"])
qed

section \<open>The interface the clients use\<close>

lemma LRU_find_drop: "LRU_find k' (LRU_drop k es) = (if k' = k then None else LRU_find k' es)"
  by (induction es) (auto simp: LRU_find_def LRU_drop_def)

lemma LRU_find_Nil [simp]: "LRU_find k [] = None"
  by (simp add: LRU_find_def)

lemma LRU_find_Cons: "LRU_find k (e # es) = (if e_key e = k then Some (e_value e) else LRU_find k es)"
  by (simp add: LRU_find_def)

lemma LRU_find_butlast: "LRU_find k (butlast es) = Some v \<Longrightarrow> LRU_find k es = Some v"
  by (induction es) (auto simp: LRU_find_Cons split: if_splits)

lemma Cache_peek_get: "Cache_wf c \<Longrightarrow> Cache_peek (snd (Cache_get now c k)) = Cache_peek c"
proof
  fix k'
  assume wf: "Cache_wf c"
  have "Cache_abs (snd (Cache_get now c k)) = snd (LRU_get now (c_expiry c) k (Cache_abs c))"
    using Cache_get_refines [OF wf, of now k] by (metis snd_map_prod)
  then show "Cache_peek (snd (Cache_get now c k)) k' = Cache_peek c k'"
    by (auto simp: Cache_peek_refines wf Cache_wf_get LRU_get_def LRU_find_Cons LRU_find_drop newEntry_def
        split: option.split)
qed

lemma Cache_get_value:
  assumes "Cache_wf c"
  shows "fst (Cache_get now c k) = Cache_peek c k"
proof -
  have "fst (Cache_get now c k) = fst (LRU_get now (c_expiry c) k (Cache_abs c))"
    using Cache_get_refines [OF assms, of now k] by (metis fst_map_prod id_apply)
  also have "\<dots> = LRU_find k (Cache_abs c)" by (simp add: LRU_get_def split: option.split)
  finally show ?thesis by (simp add: Cache_peek_refines assms)
qed

lemma LRU_add_find:
  assumes "LRU_find a (LRU_add now d n k v es) = Some w"
  shows "if a = k then w = v else LRU_find a es = Some w"
proof -
  have "LRU_find a (newEntry now k v d # LRU_drop k es) = Some w"
    using assms LRU_find_butlast [of a "newEntry now k v d # LRU_drop k es" w]
    by (simp only: LRU_add_def Let_def split: if_splits)
  then show ?thesis by (auto simp: LRU_find_Cons LRU_find_drop newEntry_def split: if_splits)
qed

lemma Cache_peek_add_le:
  assumes wf: "Cache_wf c"
  shows "Cache_peek (Cache_add now c k v) \<subseteq>\<^sub>m (Cache_peek c)(k \<mapsto> v)"
proof (rule map_leI_Some)
  fix a w
  assume "Cache_peek (Cache_add now c k v) a = Some w"
  then have "LRU_find a (LRU_add now (c_expiry c) (maxEntries c) k v (Cache_abs c)) = Some w"
    by (simp add: Cache_peek_refines [OF Cache_wf_add [OF wf]] Cache_add_refines [OF wf])
  from LRU_add_find [OF this] show "((Cache_peek c)(k \<mapsto> v)) a = Some w"
    by (auto simp: Cache_peek_refines [OF wf] split: if_splits)
qed

lemma Cache_peek_add_same:
  assumes "Cache_wf c" and "maxEntries c \<ge> 0"
  shows "Cache_peek (Cache_add now c k v) k = Some v"
proof -
  have "LRU_find k (butlast (newEntry now k v d # es)) = Some v" if "length es > 0" for d es
    using that by (simp add: LRU_find_Cons newEntry_def)
  then show ?thesis using assms
    by (auto simp: Cache_peek_refines Cache_wf_add Cache_add_refines LRU_add_def Let_def LRU_find_Cons newEntry_def)
qed

lemma Cache_peek_remove: "Cache_wf c \<Longrightarrow> Cache_peek (Cache_remove c k) = (Cache_peek c)(k := None)"
  by (rule ext) (simp add: Cache_peek_refines Cache_wf_remove Cache_remove_refines LRU_find_drop)

lemma Cache_peek_clear: "Cache_peek (Cache_clear c) = Map.empty"
  by (rule ext) (simp add: Cache_peek_def Cache_clear_def)

lemma Cache_peek_removeElement:
  assumes "Cache_wf c" and "p \<in> set (ll c)"
  shows "Cache_peek (Cache_removeElement c p) \<subseteq>\<^sub>m Cache_peek c"
proof -
  obtain i e where p: "p = (i, e)" by (cases p)
  have "Cache_abs (Cache_removeElement c p) = LRU_drop (e_key e) (Cache_abs c)"
    using map_snd_list_Remove [OF assms(1)] assms(2) by (simp add: p Cache_abs_def Cache_removeElement_def)
  then show ?thesis using assms
    by (auto simp: map_le_def Cache_peek_refines Cache_wf_removeElement LRU_find_drop dom_def)
qed

lemma Cache_peek_expire:
  "Cache_wf c \<Longrightarrow> Cache_peek (snd (Cache_removeOldestExpired now c)) \<subseteq>\<^sub>m Cache_peek c"
  by (auto simp: Cache_removeOldestExpired_def list_Back_def intro: Cache_peek_removeElement)

text \<open>
  A cache with expiry: it never invents a value, and \<open>remove\<close> and \<open>clear\<close> take effect at
  once; any record may disappear by eviction or expiry. \<open>peek_now\<close> holds for a cache that
  can hold at least one record.
\<close>

locale ttl_cache =
  fixes peek :: "'c \<Rightarrow> 'k \<Rightarrow> 'v option"
    and get :: "time \<Rightarrow> 'c \<Rightarrow> 'k \<Rightarrow> 'v option \<times> 'c"
    and add :: "time \<Rightarrow> 'c \<Rightarrow> 'k \<Rightarrow> 'v \<Rightarrow> 'c"
    and remove :: "'c \<Rightarrow> 'k \<Rightarrow> 'c"
    and clear :: "'c \<Rightarrow> 'c"
    and expire :: "time \<Rightarrow> 'c \<Rightarrow> 'c"
    and wf :: "'c \<Rightarrow> bool"
  assumes get_value: "wf c \<Longrightarrow> fst (get now c k) = peek c k"
    and peek_get: "wf c \<Longrightarrow> peek (snd (get now c k)) = peek c"
    and peek_add: "wf c \<Longrightarrow> peek (add now c k v) \<subseteq>\<^sub>m (peek c)(k \<mapsto> v)"
    and peek_remove: "wf c \<Longrightarrow> peek (remove c k) = (peek c)(k := None)"
    and peek_clear: "peek (clear c) = Map.empty"
    and peek_expire: "wf c \<Longrightarrow> peek (expire now c) \<subseteq>\<^sub>m peek c"
    and wf_get: "wf c \<Longrightarrow> wf (snd (get now c k))"
    and wf_add: "wf c \<Longrightarrow> wf (add now c k v)"
    and wf_remove: "wf c \<Longrightarrow> wf (remove c k)"
    and wf_clear: "wf (clear c)"
    and wf_expire: "wf c \<Longrightarrow> wf (expire now c)"
begin

definition holds :: "('k \<Rightarrow> 'v \<Rightarrow> bool) \<Rightarrow> 'c \<Rightarrow> bool" where
  "holds P c \<longleftrightarrow> wf c \<and> (\<forall>k v. peek c k = Some v \<longrightarrow> P k v)"

lemma holdsD: "holds P c \<Longrightarrow> peek c k = Some v \<Longrightarrow> P k v"
  by (simp add: holds_def)

lemma holds_get: "holds P c \<Longrightarrow> holds P (snd (get now c k))"
  by (simp add: holds_def peek_get wf_get)

lemma holds_get_value: "holds P c \<Longrightarrow> fst (get now c k) = Some v \<Longrightarrow> P k v"
  by (simp add: holds_def get_value)

lemma holds_add: "holds P c \<Longrightarrow> P k v \<Longrightarrow> holds P (add now c k v)"
  by (auto simp: holds_def wf_add dest!: map_le_SomeD [OF peek_add] split: if_splits)

lemma holds_remove: "holds P c \<Longrightarrow> holds P (remove c k)"
  by (simp add: holds_def peek_remove wf_remove)

lemma holds_clear: "holds P (clear c)"
  by (simp add: holds_def peek_clear wf_clear)

lemma holds_expire: "holds P c \<Longrightarrow> holds P (expire now c)"
  by (auto simp: holds_def wf_expire dest!: map_le_SomeD [OF peek_expire])

end

interpretation lru: ttl_cache Cache_peek Cache_get Cache_add Cache_remove Cache_clear
  "\<lambda>now c. snd (Cache_removeOldestExpired now c)" Cache_wf
  by unfold_locales
    (simp_all add: wf_preserve Cache_get_value Cache_peek_get Cache_peek_add_le Cache_peek_remove
      Cache_peek_clear Cache_peek_expire)

section \<open>Properties\<close>

text \<open>
  C31. Whatever sequence of \<open>Get\<close>, \<open>Add\<close>, \<open>Remove\<close>, \<open>Clear\<close> and background removals runs
  on a new cache, whatever the wall clock shows meanwhile, the map and the list describe the
  same records (one element per key, no dangling element), a cache with a limit never holds more
  records than the limit, and the expiries of the records from front to back are clock readings
  of the execution from later to earlier operations, each plus the cache's duration. So the list
  is ordered by expiry if the clock never went back, which the code takes for granted and the
  wall clock does not promise.
\<close>

theorem Cache_reachable_invariant:
  assumes "Cache_reachable n d ts c"
  shows "Cache_wf c \<and> (0 < n \<longrightarrow> int (Cache_len c) \<le> n) \<and> subseq (expiries c) (map (\<lambda>t. t + d) ts) \<and>
    (sorted_wrt (\<ge>) ts \<longrightarrow> sorted_wrt later (ll c))"
proof -
  have "Cache_inv ts c" "maxEntries c = n" "c_expiry c = d" using Cache_reachable_inv [OF assms] by auto
  then show ?thesis
    using Cache_ordered_later [of ts c] by (auto simp: Cache_inv_def Cache_bounded_def Cache_ordered_def Cache_len_def)
qed

theorem Cache_reachable_invariant_witness:
  "Cache_reachable 2 60 [5, 7] (Cache_add 5 (Cache_add 7 (New 2 60) ''a'' (1 :: int)) ''b'' 2) \<and>
   int (Cache_len (Cache_add 5 (Cache_add 7 (New 2 60) ''a'' (1 :: int)) ''b'' 2)) \<le> 2 \<and>
   expiries (Cache_add 5 (Cache_add 7 (New 2 60) ''a'' (1 :: int)) ''b'' 2) = [65, 67] \<and> subseq [65, 67] [65, 67 :: int]"
proof -
  have r: "Cache_reachable 2 60 [5, 7] (Cache_add 5 (Cache_add 7 (New 2 60) ''a'' (1 :: int)) ''b'' 2)"
    by (rule Cache_reachable.step [OF Cache_reachable.step [OF Cache_reachable.init]]) (rule step_add)+
  have "expiries (Cache_add 5 (Cache_add 7 (New 2 60) ''a'' (1 :: int)) ''b'' 2) = [65, 67]"
    by (simp add: expiries_def Cache_add_def New_def newEntry_def Let_def)
  with r Cache_reachable_invariant [OF r] show ?thesis by simp
qed

text \<open>
  C17. The cache with its element indirection refines a plain list of records, most recently
  used first: a lookup finds the record of the key, \<open>Get\<close> refreshes it and moves it to the
  front, \<open>Add\<close> does so with the new value or puts a new record in front and drops the last
  one if the limit is exceeded, \<open>Remove\<close> drops the key's record.
\<close>

theorem Cache_refines_LRU:
  assumes "Cache_wf c"
  shows "Cache_peek c k = LRU_find k (Cache_abs c) \<and>
    map_prod id Cache_abs (Cache_get now c k) = LRU_get now (c_expiry c) k (Cache_abs c) \<and>
    Cache_abs (Cache_add now c k v) = LRU_add now (c_expiry c) (maxEntries c) k v (Cache_abs c) \<and>
    Cache_abs (Cache_remove c k) = LRU_drop k (Cache_abs c)"
  by (intro conjI Cache_peek_refines Cache_get_refines Cache_add_refines Cache_remove_refines assms)

theorem Cache_refines_LRU_witness:
  "Cache_wf (Cache_add 5 (New 1 60) ''a'' (1 :: int)) \<and>
   Cache_abs (Cache_add 7 (Cache_add 5 (New 1 60) ''a'' (1 :: int)) ''b'' 2) =
     [\<lparr>e_key = ''b'', e_value = 2, e_expiry = 67\<rparr>]"
proof -
  have wf: "Cache_wf (Cache_add 5 (New 1 60) ''a'' (1 :: int))" by (simp add: wf_preserve)
  show ?thesis
    using wf Cache_refines_LRU [OF wf, of "''b''" 7 2]
    by (simp add: Cache_add_def New_def Let_def Cache_abs_def LRU_add_def LRU_find_def LRU_drop_def
        newEntry_def)
qed

text \<open>
  After \<open>Add\<close> the key has the added value, and every other key has its old value or, if
  the new record pushed the cache over its limit, none: no other value ever appears.
\<close>

theorem Cache_lookup_after_add:
  assumes "Cache_wf c" and "0 \<le> maxEntries c"
  shows "Cache_peek (Cache_add now c k v) k = Some v \<and>
    (\<forall>a. a \<noteq> k \<longrightarrow> Cache_peek (Cache_add now c k v) a \<in> {Cache_peek c a, None})"
proof -
  have "Cache_peek (Cache_add now c k v) a \<in> {Cache_peek c a, None}" if "a \<noteq> k" for a
    using map_le_SomeD [OF Cache_peek_add_le [OF assms(1), of now k v], of a] that
    by (cases "Cache_peek (Cache_add now c k v) a") auto
  with Cache_peek_add_same [OF assms] show ?thesis by blast
qed

theorem Cache_lookup_after_add_witness:
  "Cache_peek (Cache_add 7 (Cache_add 5 (New 1 60) ''a'' (1 :: int)) ''b'' 2) ''b'' = Some 2 \<and>
   Cache_peek (Cache_add 7 (Cache_add 5 (New 1 60) ''a'' (1 :: int)) ''b'' 2) ''a'' \<in> {Some 1, None}"
proof -
  have wf: "Cache_wf (Cache_add 5 (New 1 60) ''a'' (1 :: int))" by (simp add: wf_preserve)
  have cap: "0 \<le> maxEntries (Cache_add 5 (New 1 60) ''a'' (1 :: int))" by (simp add: New_def)
  have a: "Cache_peek (Cache_add 5 (New 1 60) ''a'' (1 :: int)) ''a'' = Some 1"
    by (simp add: Cache_peek_def Cache_add_def New_def Let_def newEntry_def)
  from Cache_lookup_after_add [OF wf cap, of 7 "''b''" 2] show ?thesis
    unfolding a [symmetric] by simp
qed

text \<open>
  One round of the background loop, with a clock that has not gone back, leaves no
  record that was expired when the round began, keeps the others in order, and drops only
  records that were expired at a time the loop read.
\<close>

theorem Cache_expireRound_complete:
  assumes "Cache_reachable n d ts c" and "sorted_wrt (\<ge>) ts" and "mono clk"
  shows "(\<forall>p \<in> set (ll (Cache_expireRound clk c)). \<not> entry_expired (clk 0) (snd p)) \<and>
    (\<exists>dropped. ll c = ll (Cache_expireRound clk c) @ dropped \<and>
       (\<forall>p \<in> set dropped. \<exists>j. entry_expired (clk j) (snd p)))"
  using Cache_reachable_inv [OF assms(1)] expireRound_result [OF _ _ assms(3), of c] Cache_ordered_later [OF _ assms(2), of c]
  by (auto simp: Cache_inv_def)

theorem Cache_expireRound_complete_witness:
  "\<exists>dropped. [(0, \<lparr>e_key = ''a'', e_value = 1 :: int, e_expiry = 65\<rparr>)] =
     ll (Cache_expireRound (\<lambda>_. 100) (Cache_add 5 (New 1 60) ''a'' 1)) @ dropped \<and>
     (\<forall>p \<in> set dropped. \<exists>j :: nat. entry_expired 100 (snd p))"
proof -
  have r: "Cache_reachable 1 60 [5] (Cache_add 5 (New 1 60) ''a'' (1 :: int))"
    by (rule Cache_reachable.step [OF Cache_reachable.init step_add])
  have "ll (Cache_add 5 (New 1 60) ''a'' (1 :: int)) = [(0, \<lparr>e_key = ''a'', e_value = 1, e_expiry = 65\<rparr>)]"
    by (simp add: Cache_add_def New_def newEntry_def Let_def)
  with Cache_expireRound_complete [OF r, of "\<lambda>_. 100"] show ?thesis by (simp add: mono_def)
qed

end
