(* ===== verification/Router.thy ===== *)
theory Router
  imports Lruttl Parsing
begin

text \<open>
  The database router of \<^verbatim>\<open>src/proxy/router.go\<close>: exact routes, pattern routes in the order
  they were added, the wildcard route, and the cache of resolved names in front of them.
  \<^verbatim>\<open>*RouteConfig\<close> values are addresses; what is stored behind them is \<open>RouteConfig\<close>.

  \<open>GetRoute\<close> looks into the cache before it takes the router's lock, so an execution is a
  sequence of the two halves of lookups, route changes and expiries of the cache in any
  order: \<open>Router_run\<close>. Shown here: a lookup returns what the configured routes say, whatever
  the cache went through, and the pattern types implement the glob patterns of the
  configuration.

  \<^verbatim>\<open>regexp.MatchString\<close> is modelled for the expressions made of ordinary bytes, \<^verbatim>\<open>.\<close>, \<^verbatim>\<open>.*\<close>,
  \<^verbatim>\<open>^\<close> and \<^verbatim>\<open>$\<close>; what it answers on an expression with other operators is an argument, whose
  \<open>None\<close> is a compilation error.
\<close>

section \<open>The part of regexp in use\<close>

datatype re_token = Lit char | AnyChar | AnyStar | Bol | Eol

definition re_operators :: string where
  "re_operators = [CHR 0x5C, CHR ''+'', CHR ''?'', CHR ''('', CHR '')'', CHR ''['', CHR '']'', CHR ''{'', CHR ''}'',
     CHR ''|'', CHR ''*'']"

fun re_compile :: "string \<Rightarrow> re_token list option" where
  "re_compile [] = Some []"
| "re_compile (c # s) =
     (if c = CHR ''.'' then
        (case s of
           d # s' \<Rightarrow>
             if d = CHR ''*'' then map_option (Cons AnyStar) (re_compile s')
             else map_option (Cons AnyChar) (re_compile s)
         | [] \<Rightarrow> map_option (Cons AnyChar) (re_compile s))
      else if c = CHR ''^'' then map_option (Cons Bol) (re_compile s)
      else if c = CHR ''$'' then map_option (Cons Eol) (re_compile s)
      else if c \<in> set re_operators then None
      else map_option (Cons (Lit c)) (re_compile s))"

text \<open>Match at a position; the flag says whether it is the beginning of the text.\<close>

fun re_here :: "re_token list \<Rightarrow> bool \<Rightarrow> string \<Rightarrow> bool" where
  "re_here [] b s = True"
| "re_here (Bol # ts) b s = (b \<and> re_here ts b s)"
| "re_here (Eol # ts) b s = (s = [] \<and> re_here ts b s)"
| "re_here (Lit c # ts) b [] = False"
| "re_here (Lit c # ts) b (x # s) = (x = c \<and> re_here ts False s)"
| "re_here (AnyChar # ts) b [] = False"
| "re_here (AnyChar # ts) b (x # s) = (x \<noteq> CHR 0x0A \<and> re_here ts False s)"
| "re_here (AnyStar # ts) b [] = re_here ts b []"
| "re_here (AnyStar # ts) b (x # s) =
     (re_here ts b (x # s) \<or> (x \<noteq> CHR 0x0A \<and> re_here (AnyStar # ts) False s))"

fun re_search :: "re_token list \<Rightarrow> bool \<Rightarrow> string \<Rightarrow> bool" where
  "re_search ts b [] = re_here ts b []"
| "re_search ts b (x # s) = (re_here ts b (x # s) \<or> re_search ts False s)"

definition regexp_MatchString :: "(string \<Rightarrow> string \<Rightarrow> bool option) \<Rightarrow> string \<Rightarrow> string \<Rightarrow> bool option" where
  "regexp_MatchString ext pattern s =
     (case re_compile pattern of Some ts \<Rightarrow> Some (re_search ts True s) | None \<Rightarrow> ext pattern s)"

section \<open>Data\<close>

type_synonym route_ref = nat
type_synonym mongo_ref = nat

record MongoDBClientConfig =
  MaxPoolSize :: int
  MinPoolSize :: int
  MaxConnIdleTime :: duration
  ServerSelectionTimeout :: duration
  ConnectTimeout :: duration
  SocketTimeout :: duration
  HeartbeatInterval :: duration
  RetryWrites :: "bool option"
  Topology :: "TopologyKind option"

record RouteConfig =
  DatabaseName :: string
  MongoClient :: "mongo_ref option"
  ConnectionString :: string
  PoolMode :: string
  MaxConnections :: int
  Label :: string
  DatabaseConfig :: "MongoDBClientConfig option"
  CredentialClients :: "(string, mongo_ref) Cache option"

datatype PatternType = ExactMatch | PrefixMatch | SuffixMatch | ContainsMatch | WildcardMatch

record PatternRoute =
  Pattern :: string
  PR_Type :: PatternType
  PR_RouteConfig :: route_ref

record DatabaseRouter =
  routes :: "string \<rightharpoonup> route_ref"
  wildcardRoute :: "route_ref option"
  patternRoutes :: "PatternRoute list"
  routeCache :: "(string, route_ref) Cache"

definition NewDatabaseRouter :: DatabaseRouter where
  "NewDatabaseRouter =
     \<lparr>routes = Map.empty, wildcardRoute = None, patternRoutes = [], routeCache = New 1000 (5 * Minute)\<rparr>"

section \<open>Operations\<close>

definition newPatternRoute :: "string \<Rightarrow> route_ref \<Rightarrow> PatternRoute" where
  "newPatternRoute normalizedPattern config =
     (if HasPrefix normalizedPattern ''*'' \<and> HasSuffix normalizedPattern ''*'' then
        \<lparr>Pattern = Trim normalizedPattern CHR ''*'', PR_Type = ContainsMatch, PR_RouteConfig = config\<rparr>
      else if HasPrefix normalizedPattern ''*'' then
        \<lparr>Pattern = TrimPrefix normalizedPattern ''*'', PR_Type = SuffixMatch, PR_RouteConfig = config\<rparr>
      else if HasSuffix normalizedPattern ''*'' then
        \<lparr>Pattern = TrimSuffix normalizedPattern ''*'', PR_Type = PrefixMatch, PR_RouteConfig = config\<rparr>
      else
        \<lparr>Pattern = normalizedPattern, PR_Type = WildcardMatch, PR_RouteConfig = config\<rparr>)"

definition AddRoute :: "string \<Rightarrow> route_ref \<Rightarrow> DatabaseRouter \<Rightarrow> DatabaseRouter" where
  "AddRoute pattern config r =
     (let r = r\<lparr>routeCache := Cache_clear (routeCache r)\<rparr>;
          normalizedPattern = NormalizeDatabaseName pattern
      in if normalizedPattern = ''*'' then r\<lparr>wildcardRoute := Some config\<rparr>
         else if Contains normalizedPattern ''*'' then
           r\<lparr>patternRoutes := patternRoutes r @ [newPatternRoute normalizedPattern config]\<rparr>
         else r\<lparr>routes := (routes r)(normalizedPattern \<mapsto> config)\<rparr>)"

definition RemoveRoute :: "string \<Rightarrow> DatabaseRouter \<Rightarrow> DatabaseRouter" where
  "RemoveRoute pattern r =
     (let r = r\<lparr>routeCache := Cache_clear (routeCache r)\<rparr>
      in if pattern = ''*'' then r\<lparr>wildcardRoute := None\<rparr>
         else r\<lparr>routes := (routes r)(pattern := None),
                patternRoutes := filter (\<lambda>pr. Pattern pr \<noteq> pattern) (patternRoutes r)\<rparr>)"

definition matchesWildcard :: "(string \<Rightarrow> string \<Rightarrow> bool option) \<Rightarrow> string \<Rightarrow> string \<Rightarrow> bool" where
  "matchesWildcard ext dbName pattern =
     (let regexPattern = ''^'' @ ReplaceAll pattern CHR ''*'' ''.*'' @ ''$''
      in case regexp_MatchString ext regexPattern dbName of None \<Rightarrow> False | Some matched \<Rightarrow> matched)"

definition matchesPattern :: "(string \<Rightarrow> string \<Rightarrow> bool option) \<Rightarrow> string \<Rightarrow> PatternRoute \<Rightarrow> bool" where
  "matchesPattern ext dbName pr =
     (case PR_Type pr of
        PrefixMatch \<Rightarrow> HasPrefix dbName (Pattern pr)
      | SuffixMatch \<Rightarrow> HasSuffix dbName (Pattern pr)
      | ContainsMatch \<Rightarrow> Contains dbName (Pattern pr)
      | WildcardMatch \<Rightarrow> matchesWildcard ext dbName (Pattern pr)
      | ExactMatch \<Rightarrow> False)"

text \<open>
  \<open>GetRoute\<close> in its two critical sections: the cache lookup, under the cache's lock, and the
  resolution with the cache update, under the router's read lock.
\<close>

definition GetRoute_cached :: "time \<Rightarrow> string \<Rightarrow> DatabaseRouter \<Rightarrow> route_ref option \<times> DatabaseRouter" where
  "GetRoute_cached now databaseName r =
     (case Cache_get now (routeCache r) (NormalizeDatabaseName databaseName) of
        (cachedRoute, c) \<Rightarrow> (cachedRoute, r\<lparr>routeCache := c\<rparr>))"

definition GetRoute_uncached ::
    "(string \<Rightarrow> string \<Rightarrow> bool option) \<Rightarrow> string \<Rightarrow> DatabaseRouter \<Rightarrow> route_ref option" where
  "GetRoute_uncached ext normalizedDbName r =
     (case routes r normalizedDbName of
        Some exactRoute \<Rightarrow> Some exactRoute
      | None \<Rightarrow>
          (case find (matchesPattern ext normalizedDbName) (patternRoutes r) of
             Some pr \<Rightarrow> Some (PR_RouteConfig pr)
           | None \<Rightarrow> wildcardRoute r))"

definition GetRoute_resolve ::
    "(string \<Rightarrow> string \<Rightarrow> bool option) \<Rightarrow> time \<Rightarrow> string \<Rightarrow> DatabaseRouter \<Rightarrow> (string + route_ref) \<times> DatabaseRouter" where
  "GetRoute_resolve ext now databaseName r =
     (let normalizedDbName = NormalizeDatabaseName databaseName
      in case GetRoute_uncached ext normalizedDbName r of
           None \<Rightarrow> (Inl (''no route found for database: '' @ databaseName), r)
         | Some route \<Rightarrow>
             (Inr route, r\<lparr>routeCache := Cache_add now (routeCache r) normalizedDbName route\<rparr>))"

definition GetRoute ::
    "(string \<Rightarrow> string \<Rightarrow> bool option) \<Rightarrow> time \<Rightarrow> string \<Rightarrow> DatabaseRouter \<Rightarrow> (string + route_ref) \<times> DatabaseRouter" where
  "GetRoute ext now databaseName r =
     (case GetRoute_cached now databaseName r of
        (Some route, r) \<Rightarrow> (Inr route, r)
      | (None, r) \<Rightarrow> GetRoute_resolve ext now databaseName r)"

definition route_key :: "PatternRoute \<Rightarrow> string" where
  "route_key pr =
     (case PR_Type pr of
        PrefixMatch \<Rightarrow> Pattern pr @ ''*''
      | SuffixMatch \<Rightarrow> ''*'' @ Pattern pr
      | ContainsMatch \<Rightarrow> ''*'' @ Pattern pr @ ''*''
      | _ \<Rightarrow> Pattern pr)"

definition GetAllRoutes :: "DatabaseRouter \<Rightarrow> (string \<rightharpoonup> route_ref)" where
  "GetAllRoutes r =
     (let result = fold (\<lambda>pr m. m(route_key pr \<mapsto> PR_RouteConfig pr)) (patternRoutes r) (routes r)
      in case wildcardRoute r of None \<Rightarrow> result | Some w \<Rightarrow> result(''*'' \<mapsto> w))"

definition UpdateRoute :: "string \<Rightarrow> route_ref \<Rightarrow> DatabaseRouter \<Rightarrow> DatabaseRouter" where
  "UpdateRoute pattern config r = AddRoute pattern config r"

record RouterStatistics =
  exact_routes :: nat
  pattern_routes :: nat
  has_wildcard :: bool
  cache_size :: nat
  stat_routes :: "string \<rightharpoonup> string \<times> string" \<comment> \<open>database to label and pool mode\<close>

definition Statistics :: "(route_ref \<Rightarrow> RouteConfig) \<Rightarrow> DatabaseRouter \<Rightarrow> RouterStatistics" where
  "Statistics heap r =
     \<lparr>exact_routes = card (dom (routes r)), pattern_routes = length (patternRoutes r),
      has_wildcard = (wildcardRoute r \<noteq> None), cache_size = Cache_len (routeCache r),
      stat_routes = map_option (\<lambda>a. (Label (heap a), PoolMode (heap a))) \<circ> routes r\<rparr>"

definition InitCredentialClientsCache :: "RouteConfig \<Rightarrow> RouteConfig" where
  "InitCredentialClientsCache r =
     (case CredentialClients r of
        None \<Rightarrow> r\<lparr>CredentialClients := Some (New 200 (30 * Minute))\<rparr>
      | Some _ \<Rightarrow> r)"

section \<open>Glob patterns\<close>

text \<open>The meaning of a configured pattern: a star stands for any bytes.\<close>

fun glob :: "string \<Rightarrow> string \<Rightarrow> bool" where
  "glob [] s = (s = [])"
| "glob (c # p) [] = (c = CHR ''*'' \<and> glob p [])"
| "glob (c # p) (x # s) =
     (if c = CHR ''*'' then glob p (x # s) \<or> glob (c # p) s else x = c \<and> glob p s)"

lemma glob_star: "glob (CHR ''*'' # p) s \<longleftrightarrow> (\<exists>u t. s = u @ t \<and> glob p t)"
proof (induction s)
  case (Cons x s)
  show ?case
  proof
    assume "glob (CHR ''*'' # p) (x # s)"
    then consider "glob p (x # s)" | "glob (CHR ''*'' # p) s" by auto
    then show "\<exists>u t. x # s = u @ t \<and> glob p t"
    proof cases
      case 1
      then show ?thesis by (intro exI [of _ "[]"] exI [of _ "x # s"]) simp
    next
      case 2
      with Cons obtain u t where "s = u @ t" "glob p t" by blast
      then show ?thesis by (intro exI [of _ "x # u"] exI [of _ t]) simp
    qed
  next
    assume "\<exists>u t. x # s = u @ t \<and> glob p t"
    then obtain u t where ut: "x # s = u @ t" "glob p t" by blast
    then show "glob (CHR ''*'' # p) (x # s)" using Cons by (cases u) auto
  qed
qed auto

lemma glob_literal: "CHR ''*'' \<notin> set p \<Longrightarrow> glob (p @ q) s \<longleftrightarrow> (\<exists>t. s = p @ t \<and> glob q t)"
proof (induction p arbitrary: s)
  case (Cons c p)
  then show ?case by (cases s) auto
qed simp

lemma glob_any: "glob ''*'' s"
  by (induction s) auto

lemma glob_exact: "CHR ''*'' \<notin> set p \<Longrightarrow> glob p s \<longleftrightarrow> s = p"
  using glob_literal [of p "[]" s] by simp

lemma glob_prefix: "CHR ''*'' \<notin> set p \<Longrightarrow> glob (p @ ''*'') s \<longleftrightarrow> HasPrefix s p"
  by (simp add: glob_literal glob_any HasPrefix_iff)

lemma glob_suffix: "CHR ''*'' \<notin> set p \<Longrightarrow> glob (''*'' @ p) s \<longleftrightarrow> HasSuffix s p"
  by (auto simp: glob_star glob_exact HasSuffix_iff)

lemma glob_contains: "CHR ''*'' \<notin> set p \<Longrightarrow> glob (''*'' @ p @ ''*'') s \<longleftrightarrow> Contains s p"
  by (auto simp: glob_star glob_literal glob_any Contains_iff)

subsection \<open>The regular expression of a pattern\<close>

text \<open>Patterns free of regular-expression operators other than the star.\<close>

definition plain :: "string \<Rightarrow> bool" where
  "plain p \<longleftrightarrow> set p \<inter> ({CHR ''.'', CHR ''^'', CHR ''$''} \<union> (set re_operators - {CHR ''*''})) = {}"

definition glob_token :: "char \<Rightarrow> re_token" where
  "glob_token c = (if c = CHR ''*'' then AnyStar else Lit c)"

lemma re_compile_glob:
  "plain p \<Longrightarrow> re_compile (ReplaceAll p CHR ''*'' ''.*'' @ ''$'') = Some (map glob_token p @ [Eol])"
  by (induction p) (auto simp: plain_def glob_token_def ReplaceAll_def)

lemma re_here_glob:
  "CHR 0x0A \<notin> set s \<Longrightarrow> re_here (map glob_token p @ [Eol]) b s \<longleftrightarrow> glob p s"
proof (induction p s arbitrary: b rule: glob.induct)
  case (1 s)
  then show ?case by simp
next
  case (2 c p)
  then show ?case by (simp add: glob_token_def)
next
  case (3 c p x s)
  then show ?case by (auto simp: glob_token_def)
qed

lemma re_search_Bol: "re_search (Bol # ts) b s \<longleftrightarrow> b \<and> re_here ts b s"
proof -
  have later: "\<not> re_search (Bol # ts) False s" for s by (induction s) auto
  show ?thesis by (cases s) (auto simp: later)
qed

lemma matchesWildcard_glob:
  assumes "plain p" and "CHR 0x0A \<notin> set s"
  shows "matchesWildcard ext s p \<longleftrightarrow> glob p s"
proof -
  have "re_compile (''^'' @ ReplaceAll p CHR ''*'' ''.*'' @ ''$'') = Some (Bol # map glob_token p @ [Eol])"
    using re_compile_glob [OF assms(1)] by simp
  then show ?thesis
    using re_here_glob [OF assms(2), of p True]
    by (simp add: matchesWildcard_def regexp_MatchString_def re_search_Bol Let_def)
qed

subsection \<open>The pattern types implement globs\<close>

text \<open>
  The patterns whose stars are where the code expects them: one at either end or at both,
  or anywhere but at the ends.
\<close>

definition glob_form :: "string \<Rightarrow> bool" where
  "glob_form p \<longleftrightarrow>
     (let core = Trim p CHR ''*''
      in if CHR ''*'' \<in> set core then core = p \<and> plain p
         else p \<in> {core @ ''*'', ''*'' @ core, ''*'' @ core @ ''*''} \<or> core = p)"

lemma length_Trim: "length (Trim s c) \<le> length s"
  unfolding Trim_def trim_by_def
  by (simp, rule order_trans [OF length_dropWhile_le], simp add: length_dropWhile_le)

lemma last_Trim: "Trim s c \<noteq> [] \<Longrightarrow> last (Trim s c) \<noteq> c"
  unfolding Trim_def trim_by_def
  using hd_dropWhile [of "\<lambda>x. x = c"] by (metis hd_rev rev_is_Nil_conv rev_rev_ident)

lemma Trim_free: "CHR ''*'' \<notin> set q \<Longrightarrow> Trim (''*'' @ q @ ''*'') CHR ''*'' = q"
proof -
  assume q: "CHR ''*'' \<notin> set q"
  have "dropWhile (\<lambda>x. x = CHR ''*'') (q @ ''*'') = (if q = [] then [] else q @ ''*'')"
    using q by (cases q) auto
  moreover have "dropWhile (\<lambda>x. x = CHR ''*'') (rev q) = rev q"
    using q by (cases q rule: rev_cases) auto
  ultimately show ?thesis by (simp add: Trim_def trim_by_def)
qed

lemma newPatternRoute_glob:
  assumes "glob_form p" and "p \<noteq> ''*''" and "CHR ''*'' \<in> set p" and "CHR 0x0A \<notin> set s"
  shows "matchesPattern ext s (newPatternRoute p c) \<longleftrightarrow> glob p s"
proof (cases "CHR ''*'' \<in> set (Trim p CHR ''*'')")
  case True
  then have p: "Trim p CHR ''*'' = p" "plain p" using assms(1) by (simp_all add: glob_form_def)
  have "\<not> HasPrefix p ''*''"
  proof
    assume "HasPrefix p ''*''"
    then obtain t where "p = CHR ''*'' # t" by (auto simp: HasPrefix_iff)
    then have "Trim p CHR ''*'' = Trim t CHR ''*''" by (simp add: Trim_def trim_by_def)
    then have "length (Trim p CHR ''*'') < length p"
      using length_Trim [of t "CHR ''*''"] \<open>p = CHR ''*'' # t\<close> by simp
    with p(1) show False by simp
  qed
  moreover have "\<not> HasSuffix p ''*''"
  proof
    assume "HasSuffix p ''*''"
    then obtain t where t: "p = t @ ''*''" by (auto simp: HasSuffix_iff)
    with last_Trim [of p "CHR ''*''"] p(1) show False by simp
  qed
  ultimately show ?thesis
    using matchesWildcard_glob [OF p(2) assms(4)] by (simp add: newPatternRoute_def matchesPattern_def)
next
  case False
  define q where "q = Trim p CHR ''*''"
  have free: "CHR ''*'' \<notin> set q" using False by (simp add: q_def)
  then have "p = q @ ''*'' \<or> p = ''*'' @ q \<or> p = ''*'' @ q @ ''*''"
    using assms(1,3) by (auto simp: glob_form_def q_def Let_def)
  then show ?thesis
  proof (elim disjE)
    assume p: "p = q @ ''*''"
    then have "\<not> HasPrefix p ''*''" "HasSuffix p ''*''" using free assms(2) by (cases q; auto simp: HasSuffix_iff)+
    then show ?thesis
      using p free glob_prefix [OF free]
      by (simp add: newPatternRoute_def matchesPattern_def TrimSuffix_def)
  next
    assume p: "p = ''*'' @ q"
    then have "HasPrefix p ''*''" "\<not> HasSuffix p ''*''"
      using free assms(2) by (cases q rule: rev_cases; auto simp: HasSuffix_def HasPrefix_def)+
    then show ?thesis
      using p free glob_suffix [OF free]
      by (simp add: newPatternRoute_def matchesPattern_def TrimPrefix_def)
  next
    assume p: "p = ''*'' @ q @ ''*''"
    then have "HasPrefix p ''*''" "HasSuffix p ''*''" by (auto simp: HasSuffix_def HasPrefix_def)
    then show ?thesis
      using p free glob_contains [OF free] Trim_free [OF free]
      by (simp add: newPatternRoute_def matchesPattern_def)
  qed
qed

section \<open>Executions\<close>

text \<open>
  Everything that happens to a router, with the log of the routes added (\<open>UpdateRoute\<close> adds
  too) and removed. \<open>ext\<close> is the oracle for expressions outside the modelled part of \<^verbatim>\<open>regexp\<close>.
\<close>

datatype route_event = Added string route_ref | Removed string

inductive Router_run ::
    "(string \<Rightarrow> string \<Rightarrow> bool option) \<Rightarrow> route_event list \<Rightarrow> DatabaseRouter \<Rightarrow> bool" for ext where
  start: "Router_run ext [] NewDatabaseRouter"
| add: "Router_run ext log r \<Longrightarrow> Router_run ext (log @ [Added p c]) (AddRoute p c r)"
| remove: "Router_run ext log r \<Longrightarrow> Router_run ext (log @ [Removed p]) (RemoveRoute p r)"
| lookup: "Router_run ext log r \<Longrightarrow> Router_run ext log (snd (GetRoute_cached now db r))"
| resolve: "Router_run ext log r \<Longrightarrow> Router_run ext log (snd (GetRoute_resolve ext now db r))"
| expire: "Router_run ext log r \<Longrightarrow>
    Router_run ext log (r\<lparr>routeCache := snd (Cache_removeOldestExpired now (routeCache r))\<rparr>)"

text \<open>Every cached route is the one the configured routes give.\<close>

definition cache_coherent :: "(string \<Rightarrow> string \<Rightarrow> bool option) \<Rightarrow> DatabaseRouter \<Rightarrow> bool" where
  "cache_coherent ext r \<longleftrightarrow> lru.holds (\<lambda>db c. GetRoute_uncached ext db r = Some c) (routeCache r)"

lemma GetRoute_uncached_cache [simp, frame]:
  "GetRoute_uncached ext db (r\<lparr>routeCache := x\<rparr>) = GetRoute_uncached ext db r"
  by (simp add: GetRoute_uncached_def split: option.split)

lemma AddRoute_cache: "routeCache (AddRoute p c r) = Cache_clear (routeCache r)"
  by (simp add: AddRoute_def Let_def)

lemma coherent_New [wf_preserve]: "cache_coherent ext NewDatabaseRouter"
  by (simp add: cache_coherent_def NewDatabaseRouter_def lru.holds_def Cache_wf_New)
    (simp add: New_def Cache_peek_def)

lemma coherent_AddRoute [wf_preserve]: "cache_coherent ext (AddRoute p c r)"
  by (simp add: cache_coherent_def AddRoute_cache lru.holds_clear)

lemma coherent_RemoveRoute [wf_preserve]: "cache_coherent ext (RemoveRoute p r)"
  by (simp add: cache_coherent_def RemoveRoute_def Let_def lru.holds_clear)

lemma coherent_cached [wf_preserve]:
  "cache_coherent ext r \<Longrightarrow> cache_coherent ext (snd (GetRoute_cached now db r))"
  using lru.holds_get [of _ "routeCache r" now "NormalizeDatabaseName db"]
  by (cases "Cache_get now (routeCache r) (NormalizeDatabaseName db)")
    (auto simp: cache_coherent_def GetRoute_cached_def)

lemma coherent_resolve [wf_preserve]:
  "cache_coherent ext r \<Longrightarrow> cache_coherent ext (snd (GetRoute_resolve ext now db r))"
  by (auto simp: cache_coherent_def GetRoute_resolve_def Let_def intro: lru.holds_add split: option.split)

lemma coherent_expire [wf_preserve]:
  "cache_coherent ext r \<Longrightarrow>
   cache_coherent ext (r\<lparr>routeCache := snd (Cache_removeOldestExpired now (routeCache r))\<rparr>)"
  by (simp add: cache_coherent_def lru.holds_expire)

text \<open>With a coherent cache a lookup does not notice it.\<close>

lemma GetRoute_cached_frame [simp, frame]:
  "GetRoute_uncached ext n (snd (GetRoute_cached now db r)) = GetRoute_uncached ext n r"
  by (simp add: GetRoute_cached_def split: prod.split)

lemma GetRoute_coherent:
  assumes "cache_coherent ext r"
  shows "fst (GetRoute ext now db r) =
    (case GetRoute_uncached ext (ToLower db) r of
       None \<Rightarrow> Inl (''no route found for database: '' @ db) | Some c \<Rightarrow> Inr c)"
proof (cases "fst (GetRoute_cached now db r)")
  case None
  then obtain r' where r': "GetRoute_cached now db r = (None, r')" by (metis prod.collapse)
  with GetRoute_cached_frame [of ext "ToLower db" now db r]
  have "GetRoute_uncached ext (ToLower db) r' = GetRoute_uncached ext (ToLower db) r" by simp
  with r' show ?thesis
    by (simp add: GetRoute_def GetRoute_resolve_def NormalizeDatabaseName_def Let_def split: option.split)
next
  case (Some c)
  then have "fst (Cache_get now (routeCache r) (ToLower db)) = Some c"
    by (simp add: GetRoute_cached_def NormalizeDatabaseName_def split: prod.splits)
  then have "GetRoute_uncached ext (ToLower db) r = Some c"
    using assms unfolding cache_coherent_def by (intro lru.holds_get_value [where P = "\<lambda>db c. GetRoute_uncached ext db r = Some c"])
  with Some show ?thesis by (auto simp: GetRoute_def split: prod.splits)
qed

section \<open>What the log of routes means\<close>

text \<open>
  The specification looks at the log only. For a name, and for \<open>*\<close>, the last event about it
  counts (an addition is lowered, a removal is not); the argument has the last event first.
\<close>

fun last_event :: "route_event list \<Rightarrow> string \<Rightarrow> route_ref option" where
  "last_event [] n = None"
| "last_event (Added p c # es) n = (if ToLower p = n then Some c else last_event es n)"
| "last_event (Removed p # es) n = (if p = n then None else last_event es n)"

text \<open>
  What is between the stars at the ends of a pattern; and the names that a pattern covers. A star at one
  end, the stars at both ends, or the stars inside of a pattern that has none at its ends, stand for any
  text; every other star is compared as it is.
\<close>

definition pattern_core :: "string \<Rightarrow> string" where
  "pattern_core p =
     (if HasPrefix p ''*'' \<and> HasSuffix p ''*'' then Trim p CHR ''*''
      else if HasPrefix p ''*'' then TrimPrefix p ''*''
      else if HasSuffix p ''*'' then TrimSuffix p ''*''
      else p)"

definition covers :: "(string \<Rightarrow> string \<Rightarrow> bool option) \<Rightarrow> string \<Rightarrow> string \<Rightarrow> bool" where
  "covers ext p s =
     (if HasPrefix p ''*'' \<and> HasSuffix p ''*'' then Contains s (pattern_core p)
      else if HasPrefix p ''*'' then HasSuffix s (pattern_core p)
      else if HasSuffix p ''*'' then HasPrefix s (pattern_core p)
      else matchesWildcard ext s p)"

text \<open>
  The patterns in force, in the order of their addition. A removal takes away the patterns
  whose core is its argument, which for a pattern with a star at an end is not the text it was added with.
\<close>

definition pattern_event :: "route_event \<Rightarrow> (string \<times> route_ref) list \<Rightarrow> (string \<times> route_ref) list" where
  "pattern_event e ps =
     (case e of
        Added p c \<Rightarrow> if CHR ''*'' \<in> set (ToLower p) \<and> ToLower p \<noteq> ''*'' then ps @ [(ToLower p, c)] else ps
      | Removed q \<Rightarrow> if q = ''*'' then ps else filter (\<lambda>(p, c). pattern_core p \<noteq> q) ps)"

definition patterns_in_force :: "route_event list \<Rightarrow> (string \<times> route_ref) list" where
  "patterns_in_force log = fold pattern_event log []"

definition resolve_spec :: "(string \<Rightarrow> string \<Rightarrow> bool option) \<Rightarrow> route_event list \<Rightarrow> string \<Rightarrow> route_ref option" where
  "resolve_spec ext log db =
     (case if CHR ''*'' \<in> set (ToLower db) then None else last_event (rev log) (ToLower db) of
        Some c \<Rightarrow> Some c
      | None \<Rightarrow>
          (case find (\<lambda>(p, c). covers ext p (ToLower db)) (patterns_in_force log) of
             Some (p, c) \<Rightarrow> Some c
           | None \<Rightarrow> last_event (rev log) ''*''))"

lemma newPatternRoute_simps [simp]:
  "Pattern (newPatternRoute p c) = pattern_core p" "PR_RouteConfig (newPatternRoute p c) = c"
  "matchesPattern ext s (newPatternRoute p c) = covers ext p s"
  by (simp_all add: newPatternRoute_def pattern_core_def matchesPattern_def covers_def)

definition represents :: "route_event list \<Rightarrow> DatabaseRouter \<Rightarrow> bool" where
  "represents log r \<longleftrightarrow>
     routes r = (\<lambda>n. if CHR ''*'' \<in> set n then None else last_event (rev log) n) \<and>
     patternRoutes r = map (\<lambda>(p, c). newPatternRoute p c) (patterns_in_force log) \<and>
     wildcardRoute r = last_event (rev log) ''*''"

lemma represents_cache [simp, frame]: "represents log (r\<lparr>routeCache := x\<rparr>) = represents log r"
  by (simp add: represents_def)

lemma represents_AddRoute: "represents log r \<Longrightarrow> represents (log @ [Added p c]) (AddRoute p c r)"
  by (cases "ToLower p = ''*''")
    (auto simp: represents_def AddRoute_def patterns_in_force_def pattern_event_def
      NormalizeDatabaseName_def Let_def fun_eq_iff)

lemma represents_RemoveRoute: "represents log r \<Longrightarrow> represents (log @ [Removed p]) (RemoveRoute p r)"
  by (auto simp: represents_def RemoveRoute_def patterns_in_force_def pattern_event_def Let_def fun_eq_iff
      filter_map comp_def case_prod_unfold)

lemma Router_run_invariant: "Router_run ext log r \<Longrightarrow> cache_coherent ext r \<and> represents log r"
proof (induction rule: Router_run.induct)
  case start
  show ?case
    by (simp add: coherent_New) (simp add: represents_def NewDatabaseRouter_def patterns_in_force_def fun_eq_iff)
next
  case (lookup log r now db)
  then show ?case
    using coherent_cached by (auto simp: GetRoute_cached_def split: prod.splits)
next
  case (resolve log r now db)
  moreover from this have "represents log (snd (GetRoute_resolve ext now db r))"
    by (auto simp: GetRoute_resolve_def Let_def split: option.split)
  ultimately show ?case using coherent_resolve by blast
qed (simp_all add: wf_preserve represents_AddRoute represents_RemoveRoute)

lemma find_map: "find P (map f xs) = map_option f (find (P \<circ> f) xs)"
  by (induction xs) auto

lemma GetRoute_uncached_spec:
  assumes "represents log r"
  shows "GetRoute_uncached ext (ToLower db) r = resolve_spec ext log db"
proof -
  have "matchesPattern ext (ToLower db) \<circ> (\<lambda>(p, c). newPatternRoute p c) = (\<lambda>(p, c). covers ext p (ToLower db))"
    by (simp add: fun_eq_iff)
  then have "find (matchesPattern ext (ToLower db)) (patternRoutes r) =
      map_option (\<lambda>(p, c). newPatternRoute p c) (find (\<lambda>(p, c). covers ext p (ToLower db)) (patterns_in_force log))"
    using assms by (simp add: represents_def find_map)
  then show ?thesis
    using assms by (auto simp: GetRoute_uncached_def resolve_spec_def represents_def split: option.split)
qed

text \<open>
  C11. Whatever routes were added and removed and whatever lookups, cache hits and expiries happened in
  whatever order since the router was created, a lookup of any name returns the route that the log
  of additions and removals specifies: the last route added for the very name and not removed since, else the
  first pattern in force that covers the name, else the wildcard route, else the error. For a pattern
  in one of the forms the code handles (one star at either end or at both and none inside, or stars inside
  and no other operator of regular expressions) and a name without a line feed, to cover is to match as a
  glob. It is not so for a pattern with stars inside and at an end, whose inner stars are taken literally.
\<close>

theorem GetRoute_refines_spec:
  assumes "Router_run ext log r"
  shows "fst (GetRoute ext now db r) =
      (case resolve_spec ext log db of
         None \<Rightarrow> Inl (''no route found for database: '' @ db) | Some c \<Rightarrow> Inr c) \<and>
    (glob_form p \<and> p \<noteq> ''*'' \<and> CHR ''*'' \<in> set p \<and> CHR 0x0A \<notin> set s \<longrightarrow> (covers ext p s \<longleftrightarrow> glob p s))"
proof (intro conjI impI)
  show "fst (GetRoute ext now db r) =
      (case resolve_spec ext log db of
         None \<Rightarrow> Inl (''no route found for database: '' @ db) | Some c \<Rightarrow> Inr c)"
    using Router_run_invariant [OF assms] GetRoute_coherent [of ext r now db] GetRoute_uncached_spec [of log r ext] by simp
  assume "glob_form p \<and> p \<noteq> ''*'' \<and> CHR ''*'' \<in> set p \<and> CHR 0x0A \<notin> set s"
  then show "covers ext p s \<longleftrightarrow> glob p s" using newPatternRoute_glob [of p s ext] by simp
qed

theorem GetRoute_refines_spec_witness:
  "fst (GetRoute (\<lambda>_ _. None) 7 ''Test_One''
     (snd (GetRoute_resolve (\<lambda>_ _. None) 5 ''test_one''
       (AddRoute ''TEST_*'' 4 (RemoveRoute ''*'' (AddRoute ''*'' 3 NewDatabaseRouter))))))
   = Inr 4 \<and> (covers (\<lambda>_ _. None) ''test_*'' ''test_one'' \<longleftrightarrow> glob ''test_*'' ''test_one'')"
proof -
  let ?ext = "\<lambda>_ _ :: string. None :: bool option"
  let ?r = "snd (GetRoute_resolve ?ext 5 ''test_one'' (AddRoute ''TEST_*'' 4 (RemoveRoute ''*'' (AddRoute ''*'' 3 NewDatabaseRouter))))"
  let ?log = "(([] @ [Added ''*'' 3]) @ [Removed ''*'']) @ [Added ''TEST_*'' 4]"
  have run: "Router_run ?ext ?log ?r" by (intro Router_run.intros)
  have low: "ToLower ''Test_One'' = ''test_one''" "ToLower ''TEST_*'' = ''test_*''" "ToLower ''*'' = ''*''" by code_simp+
  have spec: "resolve_spec ?ext ?log ''Test_One'' = Some 4"
    by (simp add: resolve_spec_def patterns_in_force_def pattern_event_def covers_def pattern_core_def low HasSuffix_def HasPrefix_def TrimSuffix_def)
  have form: "glob_form ''test_*'' \<and> ''test_*'' \<noteq> ''*'' \<and> CHR ''*'' \<in> set ''test_*'' \<and> CHR 0x0A \<notin> set ''test_one''"
    by (simp add: glob_form_def Trim_def trim_by_def)
  from GetRoute_refines_spec [OF run, of 7 "''Test_One''" "''test_*''" "''test_one''"] spec form
  show ?thesis by simp
qed

text \<open>
  A pattern with a star inside and one at its end but none at its start is split off only
  its last star, and the rest is compared literally: no database name without a star in it
  is routed by it, although names exist that match the pattern.
\<close>

theorem inner_star_never_matches:
  assumes "q \<noteq> ''''" and "CHR ''*'' \<notin> set q" and "CHR ''*'' \<notin> set db"
  shows "\<not> matchesPattern ext db (newPatternRoute (q @ ''*'' @ q' @ ''*'') c) \<and>
    glob (q @ ''*'' @ q' @ ''*'') (q @ x @ q' @ y)"
proof
  let ?p = "q @ ''*'' @ q' @ ''*''"
  have "\<not> HasPrefix ?p ''*''" using assms(1,2) by (cases q) auto
  moreover have "HasSuffix ?p ''*''" by (simp add: HasSuffix_def)
  ultimately have "newPatternRoute ?p c = \<lparr>Pattern = q @ ''*'' @ q', PR_Type = PrefixMatch, PR_RouteConfig = c\<rparr>"
    by (simp add: newPatternRoute_def TrimSuffix_def)
  then show "\<not> matchesPattern ext db (newPatternRoute ?p c)"
    using assms(3) by (auto simp: matchesPattern_def HasPrefix_iff)
  have glob_self: "glob (z @ ''*'') (z @ y)" for z
  proof (induction z)
    case (Cons d z)
    then show ?case by (cases "z @ y") auto
  qed (simp add: glob_any)
  show "glob ?p (q @ x @ q' @ y)"
    using assms(2) glob_self [of q'] by (auto simp: glob_literal glob_star)
qed

theorem inner_star_never_matches_witness:
  "\<not> matchesPattern (\<lambda>_ _. None) ''app_eu_prod1'' (newPatternRoute ''app_*_prod*'' 1) \<and>
   glob ''app_*_prod*'' ''app_eu_prod1''"
  using inner_star_never_matches [of "''app_''" "''app_eu_prod1''" _ "''_prod''" _ "''eu''" "''1''"] by simp

text \<open>
  \<open>RemoveRoute\<close> compares its argument with the stored pattern, from which the star was
  stripped when the route was added: removing a prefix pattern under the name it was
  added with removes nothing, and databases are still routed by it.
\<close>

theorem RemoveRoute_keeps_prefix_pattern:
  assumes "q \<noteq> ''''" and "CHR ''*'' \<notin> set q" and "ToLower q = q"
  shows "newPatternRoute (q @ ''*'') c \<in> set (patternRoutes (RemoveRoute (q @ ''*'') (AddRoute (q @ ''*'') c r))) \<and>
    fst (GetRoute ext now (q @ x) (RemoveRoute (q @ ''*'') (AddRoute (q @ ''*'') c NewDatabaseRouter))) = Inr c"
proof
  have star: "lower_char CHR ''*'' = CHR ''*''" by (simp add: lower_char_def)
  have "\<not> HasPrefix (q @ ''*'') ''*''" using assms(1,2) by (cases q) auto
  moreover have "HasSuffix (q @ ''*'') ''*''" by (simp add: HasSuffix_def)
  ultimately have new: "newPatternRoute (q @ ''*'') c = \<lparr>Pattern = q, PR_Type = PrefixMatch, PR_RouteConfig = c\<rparr>"
    by (simp add: newPatternRoute_def TrimSuffix_def)
  have pats: "patternRoutes (AddRoute (q @ ''*'') c r) = patternRoutes r @ [newPatternRoute (q @ ''*'') c]"
    "routes (AddRoute (q @ ''*'') c r) = routes r" for r
    using assms by (simp_all add: AddRoute_def NormalizeDatabaseName_def Let_def ToLower_def star)
  then show "newPatternRoute (q @ ''*'') c \<in> set (patternRoutes (RemoveRoute (q @ ''*'') (AddRoute (q @ ''*'') c r)))"
    using assms(1) new by (simp add: RemoveRoute_def Let_def)
  have "GetRoute_uncached ext (ToLower (q @ x)) (RemoveRoute (q @ ''*'') (AddRoute (q @ ''*'') c NewDatabaseRouter)) = Some c"
    using assms(1,3) pats [of NewDatabaseRouter] new
    by (simp add: RemoveRoute_def GetRoute_uncached_def Let_def NewDatabaseRouter_def matchesPattern_def)
  then show "fst (GetRoute ext now (q @ x) (RemoveRoute (q @ ''*'') (AddRoute (q @ ''*'') c NewDatabaseRouter))) = Inr c"
    by (simp add: GetRoute_coherent [OF coherent_RemoveRoute])
qed

theorem RemoveRoute_keeps_prefix_pattern_witness:
  "fst (GetRoute (\<lambda>_ _. None) 0 ''test_db'' (RemoveRoute ''test_*'' (AddRoute ''test_*'' 7 NewDatabaseRouter))) = Inr 7"
  using RemoveRoute_keeps_prefix_pattern [of "''test_''" 7 _ "\<lambda>_ _. None" 0 "''db''"]
  by (simp add: ToLower_def lower_char_def)

end
