(* ===== verification/Pool.thy ===== *)
theory Pool
  imports Router
begin

text \<open>
  The pool manager, \<^verbatim>\<open>src/pool/pool.go\<close>: the pools of the databases, the registered clients
  and the connections handed out to them according to the pool mode. Pools and pooled
  connections are objects that others point to, so they are cells of a heap; a client is
  only ever reached through the manager's map. \<^verbatim>\<open>PoolMode\<close> is a string, as in the source. The
  metrics that are sent along the way are left out: nothing reads them back.

  An execution interleaves the requests of the clients (\<open>Pool_step\<close>): a client has at most
  one request in flight, between its \<open>GetConnection\<close> and its \<open>ReturnConnection\<close>.
\<close>

section \<open>State\<close>

type_synonym PoolMode = string

abbreviation (input) SessionMode :: PoolMode where "SessionMode \<equiv> ''session''"
abbreviation (input) TransactionMode :: PoolMode where "TransactionMode \<equiv> ''transaction''"
abbreviation (input) StatementMode :: PoolMode where "StatementMode \<equiv> ''statement''"

type_synonym pool_ref = nat
type_synonym pconn_ref = nat

record PoolStats =
  TotalRequests :: int
  TotalWaitTime :: duration
  SuccessfulRequests :: int
  FailedRequests :: int
  ConnectionErrors :: int
  ActiveConnections :: int

record ConnectionPool =
  p_name :: string
  p_mode :: PoolMode
  p_mongoClient :: "mongo_ref option"
  p_stats :: PoolStats
  p_lastHealthCheck :: time
  p_isHealthy :: bool
  p_healthCheckInterval :: duration

record PooledConnection =
  pc_ID :: string
  pc_MongoClient :: "mongo_ref option"
  pc_Pool :: pool_ref
  InUse :: bool
  LastUsed :: time
  pc_CreatedAt :: time
  TransactionID :: string
  pc_ClientID :: string

record ClientConnection =
  cl_ID :: string
  Username :: string
  cl_Database :: string
  cl_PoolMode :: PoolMode
  AssignedConn :: "pconn_ref option"
  TransactionConn :: "pconn_ref option"
  cl_LastActivity :: time

record Manager =
  pools :: "string \<rightharpoonup> pool_ref"
  defaultMode :: PoolMode
  minPoolSize :: int
  maxPoolSize :: int
  maxClientConn :: int
  activeClients :: "string \<rightharpoonup> ClientConnection"
  pool_heap :: "pool_ref \<Rightarrow> ConnectionPool"
  next_pool :: pool_ref
  conn_heap :: "pconn_ref \<Rightarrow> PooledConnection"
  next_conn :: pconn_ref

definition zero_stats :: PoolStats where
  "zero_stats = \<lparr>TotalRequests = 0, TotalWaitTime = 0, SuccessfulRequests = 0, FailedRequests = 0,
     ConnectionErrors = 0, ActiveConnections = 0\<rparr>"

definition NewManager :: "string \<Rightarrow> int \<Rightarrow> int \<Rightarrow> int \<Rightarrow> Manager" where
  "NewManager mode minSize maxSize maxClients =
     \<lparr>pools = Map.empty,
      defaultMode = (if mode = ''transaction'' then TransactionMode
                     else if mode = ''statement'' then StatementMode
                     else SessionMode),
      minPoolSize = minSize, maxPoolSize = maxSize, maxClientConn = maxClients, activeClients = Map.empty,
      pool_heap = (\<lambda>_. \<lparr>p_name = '''', p_mode = '''', p_mongoClient = None, p_stats = zero_stats,
                        p_lastHealthCheck = 0, p_isHealthy = False, p_healthCheckInterval = 0\<rparr>),
      next_pool = 0,
      conn_heap = (\<lambda>_. \<lparr>pc_ID = '''', pc_MongoClient = None, pc_Pool = 0, InUse = False, LastUsed = 0,
                        pc_CreatedAt = 0, TransactionID = '''', pc_ClientID = ''''\<rparr>),
      next_conn = 0\<rparr>"

section \<open>Statistics\<close>

definition incrementRequests :: "PoolStats \<Rightarrow> PoolStats" where
  "incrementRequests s = s\<lparr>TotalRequests := TotalRequests s + 1\<rparr>"

definition incrementSuccessfulRequests :: "PoolStats \<Rightarrow> PoolStats" where
  "incrementSuccessfulRequests s = s\<lparr>SuccessfulRequests := SuccessfulRequests s + 1\<rparr>"

definition incrementFailedRequests :: "PoolStats \<Rightarrow> PoolStats" where
  "incrementFailedRequests s = s\<lparr>FailedRequests := FailedRequests s + 1\<rparr>"

definition incrementConnectionErrors :: "PoolStats \<Rightarrow> PoolStats" where
  "incrementConnectionErrors s = s\<lparr>ConnectionErrors := ConnectionErrors s + 1\<rparr>"

definition incrementActiveConnections :: "PoolStats \<Rightarrow> PoolStats" where
  "incrementActiveConnections s = s\<lparr>ActiveConnections := ActiveConnections s + 1\<rparr>"

definition decrementActiveConnections :: "PoolStats \<Rightarrow> PoolStats" where
  "decrementActiveConnections s =
     (if ActiveConnections s > 0 then s\<lparr>ActiveConnections := ActiveConnections s - 1\<rparr> else s)"

definition avgWaitTime :: "PoolStats \<Rightarrow> duration" where
  "avgWaitTime s = (if TotalRequests s = 0 then 0 else go_div (TotalWaitTime s) (TotalRequests s))"

definition update_stats :: "pool_ref \<Rightarrow> (PoolStats \<Rightarrow> PoolStats) \<Rightarrow> Manager \<Rightarrow> Manager" where
  "update_stats p f m = m\<lparr>pool_heap := (pool_heap m)(p := (pool_heap m p)\<lparr>p_stats := f (p_stats (pool_heap m p))\<rparr>)\<rparr>"

section \<open>The pool's operations\<close>

definition Checkout :: "time \<Rightarrow> pool_ref \<Rightarrow> string \<Rightarrow> Manager \<Rightarrow> pconn_ref \<times> Manager" where
  "Checkout now p clientID m =
     (let m = update_stats p incrementRequests m;
          c = next_conn m;
          conn = \<lparr>pc_ID = p_name (pool_heap m p) @ ''-'' @ show_int now, pc_MongoClient = p_mongoClient (pool_heap m p),
                  pc_Pool = p, InUse = True, LastUsed = now, pc_CreatedAt = now, TransactionID = '''',
                  pc_ClientID = clientID\<rparr>;
          m = m\<lparr>conn_heap := (conn_heap m)(c := conn), next_conn := Suc c\<rparr>;
          m = update_stats p incrementSuccessfulRequests m;
          m = update_stats p incrementActiveConnections m
      in (c, m))"

definition Return :: "time \<Rightarrow> pool_ref \<Rightarrow> pconn_ref \<Rightarrow> Manager \<Rightarrow> Manager" where
  "Return now p conn m =
     (if pc_Pool (conn_heap m conn) \<noteq> p then m
      else
        let m = m\<lparr>conn_heap := (conn_heap m)(conn := (conn_heap m conn)\<lparr>InUse := False, pc_ClientID := '''',
                    TransactionID := '''', LastUsed := now\<rparr>)\<rparr>
        in update_stats p decrementActiveConnections m)"

text \<open>\<^verbatim>\<open>conn.Pool.Return(conn)\<close>\<close>

definition ReturnOwn :: "time \<Rightarrow> pconn_ref \<Rightarrow> Manager \<Rightarrow> Manager" where
  "ReturnOwn now conn m = Return now (pc_Pool (conn_heap m conn)) conn m"

definition checkConnectionHealth :: "time \<Rightarrow> ConnectionPool \<Rightarrow> string option \<times> ConnectionPool" where
  "checkConnectionHealth now p =
     (if now - p_lastHealthCheck p < p_healthCheckInterval p then
        (if \<not> p_isHealthy p then Some ''connection marked as unhealthy'' else None, p)
      else if p_mongoClient p = None then
        (Some ''MongoDB client is nil'', p\<lparr>p_isHealthy := False, p_lastHealthCheck := now\<rparr>)
      else (None, p\<lparr>p_isHealthy := True, p_lastHealthCheck := now\<rparr>))"

definition markConnectionUnhealthy :: "time \<Rightarrow> ConnectionPool \<Rightarrow> ConnectionPool" where
  "markConnectionUnhealthy now p = p\<lparr>p_isHealthy := False, p_lastHealthCheck := now\<rparr>"

section \<open>The manager's operations\<close>

definition GetPool :: "time \<Rightarrow> string \<Rightarrow> mongo_ref option \<Rightarrow> PoolMode \<Rightarrow> Manager \<Rightarrow> pool_ref \<times> Manager" where
  "GetPool now database mongoClient mode m =
     (case pools m database of
        Some pool \<Rightarrow> (pool, m)
      | None \<Rightarrow>
          let mode = (if mode = '''' then defaultMode m else mode);
              p = next_pool m;
              pool = \<lparr>p_name = database, p_mode = mode, p_mongoClient = mongoClient, p_stats = zero_stats,
                      p_lastHealthCheck = now, p_isHealthy = True, p_healthCheckInterval = 30 * Second\<rparr>
          in (p, m\<lparr>pools := (pools m)(database \<mapsto> p), pool_heap := (pool_heap m)(p := pool), next_pool := Suc p\<rparr>))"

definition RegisterClient :: "time \<Rightarrow> string \<Rightarrow> string \<Rightarrow> string \<Rightarrow> PoolMode \<Rightarrow> Manager \<Rightarrow> (string + ClientConnection) \<times> Manager" where
  "RegisterClient now clientID username database poolMode m =
     (case activeClients m clientID of
        Some client \<Rightarrow> (Inr client, m)
      | None \<Rightarrow>
          if maxClientConn m > 0 \<and> int (card (dom (activeClients m))) \<ge> maxClientConn m then
            (Inl ''max client connections reached'', m)
          else
            let client = \<lparr>cl_ID = clientID, Username = username, cl_Database = database, cl_PoolMode = poolMode,
                          AssignedConn = None, TransactionConn = None, cl_LastActivity = now\<rparr>
            in (Inr client, m\<lparr>activeClients := (activeClients m)(clientID \<mapsto> client)\<rparr>))"

definition GetClient :: "string \<Rightarrow> Manager \<Rightarrow> ClientConnection option" where
  "GetClient clientID m = activeClients m clientID"

definition return_held :: "time \<Rightarrow> pconn_ref option \<Rightarrow> Manager \<Rightarrow> Manager" where
  "return_held now conn m = (case conn of None \<Rightarrow> m | Some c \<Rightarrow> ReturnOwn now c m)"

definition UnregisterClient :: "time \<Rightarrow> string \<Rightarrow> Manager \<Rightarrow> Manager" where
  "UnregisterClient now clientID m =
     (case activeClients m clientID of
        None \<Rightarrow> m
      | Some client \<Rightarrow>
          let m = return_held now (AssignedConn client) m;
              m = return_held now (TransactionConn client) m
          in m\<lparr>activeClients := (activeClients m)(clientID := None)\<rparr>)"

definition set_client :: "string \<Rightarrow> ClientConnection \<Rightarrow> Manager \<Rightarrow> Manager" where
  "set_client clientID client m = m\<lparr>activeClients := (activeClients m)(clientID \<mapsto> client)\<rparr>"

definition GetConnection ::
    "time \<Rightarrow> string \<Rightarrow> string \<Rightarrow> mongo_ref option \<Rightarrow> bool \<Rightarrow> string \<Rightarrow> Manager \<Rightarrow> (string + pconn_ref) \<times> Manager" where
  "GetConnection now clientID database mongoClient isTransaction transactionID m =
     (case activeClients m clientID of
        None \<Rightarrow> (Inl ''client not registered'', m)
      | Some client \<Rightarrow>
          let client = client\<lparr>cl_LastActivity := now\<rparr>;
              m = set_client clientID client m;
              (pool, m) = GetPool now database mongoClient (cl_PoolMode client) m
          in if cl_PoolMode client = SessionMode then
               (case AssignedConn client of
                  Some conn \<Rightarrow> (Inr conn, m)
                | None \<Rightarrow>
                    let (conn, m) = Checkout now pool clientID m
                    in (Inr conn, set_client clientID (client\<lparr>AssignedConn := Some conn\<rparr>) m))
             else if cl_PoolMode client = TransactionMode then
               if isTransaction then
                 if (case TransactionConn client of
                       None \<Rightarrow> True
                     | Some c \<Rightarrow> TransactionID (conn_heap m c) \<noteq> transactionID) then
                   let m = (case TransactionConn client of None \<Rightarrow> m | Some c \<Rightarrow> Return now pool c m);
                       (conn, m) = Checkout now pool clientID m;
                       m = m\<lparr>conn_heap := (conn_heap m)(conn := (conn_heap m conn)\<lparr>TransactionID := transactionID\<rparr>)\<rparr>
                   in (Inr conn, set_client clientID (client\<lparr>TransactionConn := Some conn\<rparr>) m)
                 else (Inr (the (TransactionConn client)), m)
               else map_prod Inr id (Checkout now pool clientID m)
             else if cl_PoolMode client = StatementMode then map_prod Inr id (Checkout now pool clientID m)
             else (Inl (''unknown pool mode: '' @ cl_PoolMode client), m))"

definition ReturnConnection :: "time \<Rightarrow> string \<Rightarrow> pconn_ref \<Rightarrow> bool \<Rightarrow> Manager \<Rightarrow> Manager" where
  "ReturnConnection now clientID conn isEndOfTransaction m =
     (case activeClients m clientID of
        None \<Rightarrow> ReturnOwn now conn m
      | Some client \<Rightarrow>
          if cl_PoolMode client = SessionMode then
            (if Some conn \<noteq> AssignedConn client then ReturnOwn now conn m else m)
          else if cl_PoolMode client = TransactionMode then
            (if isEndOfTransaction \<and> TransactionConn client = Some conn then
               set_client clientID (client\<lparr>TransactionConn := None\<rparr>) (ReturnOwn now conn m)
             else if \<not> isEndOfTransaction \<and> Some conn \<noteq> TransactionConn client then ReturnOwn now conn m
             else m)
          else if cl_PoolMode client = StatementMode then ReturnOwn now conn m
          else m)"

definition GetDefaultMode :: "Manager \<Rightarrow> PoolMode" where
  "GetDefaultMode m = defaultMode m"

definition GetDefaultPoolSizes :: "Manager \<Rightarrow> int \<times> int" where
  "GetDefaultPoolSizes m = (minPoolSize m, maxPoolSize m)"

section \<open>Executions\<close>

text \<open>
  The manager with the connection of each request in flight. \<open>modes\<close> are the pool modes the
  clients register with.
\<close>

type_synonym pool_state = "Manager \<times> (string \<rightharpoonup> pconn_ref)"

inductive Pool_step :: "PoolMode set \<Rightarrow> pool_state \<Rightarrow> pool_state \<Rightarrow> bool" for modes where
  register: "mode \<in> modes \<Longrightarrow> Pool_step modes (m, fl) (snd (RegisterClient now cid user db mode m), fl)"
| unregister: "fl cid = None \<Longrightarrow> Pool_step modes (m, fl) (UnregisterClient now cid m, fl)"
| pool: "Pool_step modes (m, fl) (snd (GetPool now db mc mode m), fl)"
| get: "fl cid = None \<Longrightarrow> GetConnection now cid db mc isTxn txn m = (Inr conn, m') \<Longrightarrow>
    Pool_step modes (m, fl) (m', fl(cid \<mapsto> conn))"
| get_error: "GetConnection now cid db mc isTxn txn m = (Inl err, m') \<Longrightarrow> Pool_step modes (m, fl) (m', fl)"
| return: "fl cid = Some conn \<Longrightarrow>
    Pool_step modes (m, fl) (ReturnConnection now cid conn isEnd m, fl(cid := None))"

inductive Pool_run :: "PoolMode set \<Rightarrow> pool_state \<Rightarrow> pool_state \<Rightarrow> bool" for modes where
  idle: "Pool_run modes s s"
| more: "Pool_run modes s s' \<Longrightarrow> Pool_step modes s' s'' \<Longrightarrow> Pool_run modes s s''"

definition Pool_start :: "string \<Rightarrow> int \<Rightarrow> int \<Rightarrow> int \<Rightarrow> pool_state" where
  "Pool_start mode minSize maxSize maxClients = (NewManager mode minSize maxSize maxClients, Map.empty)"

section \<open>Accounting\<close>

definition used :: "Manager \<Rightarrow> pool_ref \<Rightarrow> pconn_ref set" where
  "used m p = {c. c < next_conn m \<and> InUse (conn_heap m c) \<and> pc_Pool (conn_heap m c) = p}"

abbreviation active :: "Manager \<Rightarrow> pool_ref \<Rightarrow> int" where
  "active m p \<equiv> ActiveConnections (p_stats (pool_heap m p))"

definition accounts :: "Manager \<Rightarrow> bool" where
  "accounts m \<longleftrightarrow>
     (\<forall>p < next_pool m. active m p = int (card (used m p))) \<and>
     (\<forall>c < next_conn m. pc_Pool (conn_heap m c) < next_pool m) \<and>
     (\<forall>db p. pools m db = Some p \<longrightarrow> p < next_pool m)"

lemma finite_used [simp]: "finite (used m p)"
  by (simp add: used_def)

lemma update_stats_frame [simp, frame]:
  "activeClients (update_stats p f m) = activeClients m" "conn_heap (update_stats p f m) = conn_heap m"
  "next_conn (update_stats p f m) = next_conn m" "next_pool (update_stats p f m) = next_pool m"
  "pools (update_stats p f m) = pools m" "maxClientConn (update_stats p f m) = maxClientConn m"
  "used (update_stats p f m) = used m"
  by (simp_all add: update_stats_def used_def fun_eq_iff)

lemma active_update_stats [simp]:
  "active (update_stats p f m) q = (if q = p then ActiveConnections (f (p_stats (pool_heap m p))) else active m q)"
  by (simp add: update_stats_def)

lemma stats_active [simp]:
  "ActiveConnections (incrementRequests s) = ActiveConnections s"
  "ActiveConnections (incrementSuccessfulRequests s) = ActiveConnections s"
  "ActiveConnections (incrementActiveConnections s) = ActiveConnections s + 1"
  "ActiveConnections (decrementActiveConnections s) = max 0 (ActiveConnections s) - (if ActiveConnections s > 0 then 1 else 0)
     + (if ActiveConnections s < 0 then ActiveConnections s else 0)"
  by (simp_all add: incrementRequests_def incrementSuccessfulRequests_def incrementActiveConnections_def
      decrementActiveConnections_def)

lemma Checkout_result:
  assumes "Checkout now p cid m = (c, m')"
  shows "c = next_conn m" "next_conn m' = Suc (next_conn m)" "next_pool m' = next_pool m" "pools m' = pools m"
    "activeClients m' = activeClients m" "maxClientConn m' = maxClientConn m"
    "pc_Pool (conn_heap m' c) = p" "InUse (conn_heap m' c)" "\<And>c'. c' \<noteq> c \<Longrightarrow> conn_heap m' c' = conn_heap m c'"
    "\<And>q. active m' q = active m q + (if q = p then 1 else 0)"
    "TransactionID (conn_heap m' c) = ''''"
  using assms by (auto simp: Checkout_def Let_def update_stats_def incrementActiveConnections_def
      incrementRequests_def incrementSuccessfulRequests_def)

lemma used_Checkout:
  assumes "Checkout now p cid m = (c, m')"
  shows "used m' q = (if q = p then insert c (used m q) else used m q)" and "c \<notin> used m q"
proof -
  note r = Checkout_result [OF assms]
  show "c \<notin> used m q" using r(1) by (simp add: used_def)
  show "used m' q = (if q = p then insert c (used m q) else used m q)"
  proof (rule set_eqI)
    fix x show "x \<in> used m' q \<longleftrightarrow> x \<in> (if q = p then insert c (used m q) else used m q)"
      using r(1,2,7,8) r(9) [of x] by (cases "x = c") (auto simp: used_def less_Suc_eq)
  qed
qed

lemma accounts_Checkout [wf_preserve]:
  assumes "accounts m" and "p < next_pool m" and "Checkout now p cid m = (c, m')"
  shows "accounts m'"
proof -
  note r = Checkout_result [OF assms(3)] and u = used_Checkout [OF assms(3)]
  have "active m' q = int (card (used m' q))" if "q < next_pool m'" for q
    using assms(1) that u by (simp add: accounts_def r)
  moreover have "pc_Pool (conn_heap m' x) < next_pool m'" if "x < next_conn m'" for x
    using assms(1,2) that r(1,2,3,7) r(9) [of x] by (cases "x = c") (auto simp: accounts_def less_Suc_eq)
  ultimately show ?thesis using assms(1) by (simp add: accounts_def r(3,4))
qed

lemma Return_frame [simp, frame]:
  "activeClients (Return now p c m) = activeClients m" "next_conn (Return now p c m) = next_conn m"
  "next_pool (Return now p c m) = next_pool m" "pools (Return now p c m) = pools m"
  "maxClientConn (Return now p c m) = maxClientConn m"
  "pc_Pool (conn_heap (Return now p c m) c') = pc_Pool (conn_heap m c')"
  by (auto simp: Return_def Let_def)

lemma Return_InUse:
  "InUse (conn_heap (Return now p c m) c') \<longleftrightarrow> InUse (conn_heap m c') \<and> \<not> (c' = c \<and> pc_Pool (conn_heap m c) = p)"
  by (auto simp: Return_def Let_def)

lemma used_Return:
  "used (Return now p c m) q = (if q = p \<and> pc_Pool (conn_heap m c) = p then used m q - {c} else used m q)"
  by (auto simp: used_def Return_InUse)

lemma accounts_Return [wf_preserve]:
  assumes "accounts m" and "c < next_conn m" and "InUse (conn_heap m c)"
  shows "accounts (Return now p c m)"
proof (cases "pc_Pool (conn_heap m c) = p")
  case False
  with assms(1) show ?thesis by (simp add: Return_def)
next
  case True
  then have c: "c \<in> used m p" using assms(2,3) by (simp add: used_def)
  have p: "p < next_pool m" using assms(1,2) True by (auto simp: accounts_def)
  then have act: "active m p = int (card (used m p))" using assms(1) by (simp add: accounts_def)
  have pos: "card (used m p) > 0" using c by (metis card_gt_0_iff empty_iff finite_used)
  have "active (Return now p c m) q = int (card (used (Return now p c m) q))" if "q < next_pool m" for q
  proof (cases "q = p")
    case q: True
    have "active (Return now p c m) p = active m p - 1"
      using True act pos by (simp add: Return_def Let_def update_stats_def decrementActiveConnections_def)
    with q act pos c True show ?thesis by (simp add: used_Return of_nat_diff)
  next
    case False
    then have "active (Return now p c m) q = active m q" using True by (simp add: Return_def Let_def update_stats_def)
    with False assms(1) that show ?thesis by (simp add: used_Return accounts_def)
  qed
  with assms(1) show ?thesis by (simp add: accounts_def)
qed

lemma accounts_clients [simp]: "accounts (m\<lparr>activeClients := x\<rparr>) = accounts m"
  by (simp add: accounts_def used_def)

lemma accounts_set_client [simp]: "accounts (set_client cid cl m) = accounts m"
  by (simp add: set_client_def)

lemma accounts_GetPool [wf_preserve]:
  assumes "accounts m" and "GetPool now db mc mode m = (p, m')"
  shows "accounts m'" and "p < next_pool m'"
proof -
  have new: "used m (next_pool m) = {}" using assms(1) by (fastforce simp: used_def accounts_def)
  show "p < next_pool m'" using assms by (auto simp: GetPool_def accounts_def Let_def split: option.splits)
  show "accounts m'"
  proof (cases "pools m db")
    case None
    then have m': "next_pool m' = Suc (next_pool m)" "pools m' = (pools m)(db \<mapsto> next_pool m)" "conn_heap m' = conn_heap m"
        "next_conn m' = next_conn m" "\<And>q. q \<noteq> next_pool m \<Longrightarrow> pool_heap m' q = pool_heap m q" "active m' (next_pool m) = 0"
      using assms(2) by (auto simp: GetPool_def Let_def zero_stats_def)
    have u: "used m' = used m" by (simp add: used_def fun_eq_iff m')
    have "active m' q = int (card (used m' q))" if "q < next_pool m'" for q
      using assms(1) that new m'(6) m'(5) [of q] by (cases "q = next_pool m") (auto simp: accounts_def u m'(1))
    moreover have "q < next_pool m'" if "pools m' d = Some q" for d q
      using assms(1) that by (auto simp: accounts_def m' less_Suc_eq split: if_splits)
    ultimately show ?thesis using assms(1) by (auto simp: accounts_def m' less_Suc_eq)
  next
    case (Some q)
    with assms show ?thesis by (simp add: GetPool_def)
  qed
qed


lemma GetPool_frame:
  assumes "GetPool now db mc mode m = (p, m')"
  shows "activeClients m' = activeClients m" "conn_heap m' = conn_heap m" "next_conn m' = next_conn m"
    "maxClientConn m' = maxClientConn m"
  using assms by (auto simp: GetPool_def Let_def split: option.splits)

section \<open>Who holds a connection\<close>

text \<open>
  The connections a client can still reach: the one of its request in flight, and those
  assigned to it or to its transaction.
\<close>

definition held_by :: "ClientConnection option \<Rightarrow> pconn_ref option \<Rightarrow> pconn_ref set" where
  "held_by cl f = set_option f \<union> (case cl of None \<Rightarrow> {} | Some cl \<Rightarrow> set_option (AssignedConn cl) \<union> set_option (TransactionConn cl))"

definition holds :: "pool_state \<Rightarrow> string \<Rightarrow> pconn_ref set" where
  "holds s cid = held_by (activeClients (fst s) cid) (snd s cid)"

definition in_use :: "Manager \<Rightarrow> pconn_ref set" where
  "in_use m = {c. c < next_conn m \<and> InUse (conn_heap m c)}"

text \<open>
  The contract of the manager: a connection is acquired fresh for one client, and released
  only by a client that holds it. With \<open>may_forget\<close> a client can also lose track of connections
  that stay in use.
\<close>

type_synonym holding = "pconn_ref set \<times> nat \<times> (string \<Rightarrow> pconn_ref set)"

inductive hold_step :: "bool \<Rightarrow> holding \<Rightarrow> holding \<Rightarrow> bool" for may_forget where
  acquire: "hold_step may_forget (U, n, h) (insert n U, Suc n, h(cid := insert n (h cid)))"
| release: "c \<in> h cid \<Longrightarrow> hold_step may_forget (U, n, h) (U - {c}, n, h(cid := h cid - {c}))"
| forget: "may_forget \<Longrightarrow> hold_step may_forget (U, n, h) (U, n, h(cid := h cid - {c}))"

definition holding_of :: "pool_state \<Rightarrow> holding" where
  "holding_of s = (in_use (fst s), next_conn (fst s), holds s)"

fun exclusive :: "holding \<Rightarrow> bool" where
  "exclusive (U, n, h) \<longleftrightarrow> (\<forall>c \<in> U. c < n) \<and> (\<forall>cid. h cid \<subseteq> U) \<and> (\<forall>cid cid' c. c \<in> h cid \<longrightarrow> c \<in> h cid' \<longrightarrow> cid = cid')"

fun all_held :: "holding \<Rightarrow> bool" where
  "all_held (U, n, h) \<longleftrightarrow> U \<subseteq> (\<Union>cid. h cid)"

fun orphan :: "pconn_ref \<Rightarrow> holding \<Rightarrow> bool" where
  "orphan c (U, n, h) \<longleftrightarrow> c < n \<and> c \<in> U \<and> (\<forall>cid. c \<notin> h cid)"

lemma exclusive_step:
  assumes "hold_step b s s'" and "exclusive s"
  shows "exclusive s'"
  using assms
proof cases
  case (acquire U n h cid)
  with assms(2) have "n \<notin> h d" for d by auto
  with acquire assms(2) show ?thesis by (auto split: if_splits)
qed (use assms(2) in \<open>auto split: if_splits\<close>)

lemma orphan_step: "hold_step b s s' \<Longrightarrow> orphan c s \<Longrightarrow> orphan c s'"
  by (auto elim!: hold_step.cases)

lemma all_held_update:
  assumes "U \<subseteq> (\<Union>d. h d)" and "\<And>x. x \<in> U' \<Longrightarrow> x \<in> X \<or> (x \<in> U \<and> x \<notin> h cid)"
  shows "all_held (U', n, h(cid := X))"
proof -
  have "\<exists>d. x \<in> (h(cid := X)) d" if "x \<in> U'" for x
    using assms(1) assms(2) [OF that] by (metis UN_E fun_upd_apply subsetD)
  then show ?thesis unfolding all_held.simps by blast
qed

lemma all_held_step:
  assumes "hold_step False s s'" and "all_held s"
  shows "all_held s'"
  using assms(1)
proof cases
  case (acquire U n h cid)
  with assms(2) show ?thesis unfolding acquire(2) by (intro all_held_update [of U]) auto
next
  case (release c h cid U n)
  with assms(2) show ?thesis unfolding release(2) by (intro all_held_update [of U]) auto
qed simp

lemma hold_steps:
  assumes "(hold_step b)\<^sup>*\<^sup>* s s'"
  shows "exclusive s \<Longrightarrow> exclusive s'" and "orphan c s \<Longrightarrow> orphan c s'"
    and "all_held s \<Longrightarrow> \<not> b \<Longrightarrow> all_held s'"
  using assms by (induction, auto dest: exclusive_step orphan_step all_held_step)


section \<open>The manager keeps the contract\<close>

definition client_ok :: "PoolMode set \<Rightarrow> ClientConnection \<Rightarrow> pconn_ref option \<Rightarrow> bool" where
  "client_ok modes cl f \<longleftrightarrow>
     cl_PoolMode cl \<in> modes \<and>
     (cl_PoolMode cl \<noteq> SessionMode \<longrightarrow> AssignedConn cl = None) \<and>
     (cl_PoolMode cl \<noteq> TransactionMode \<longrightarrow> TransactionConn cl = None) \<and>
     (cl_PoolMode cl = SessionMode \<longrightarrow> f = None \<or> f = AssignedConn cl) \<and>
     (f \<noteq> None \<longrightarrow> cl_PoolMode cl \<in> {SessionMode, TransactionMode, StatementMode})"

definition clients_ok :: "PoolMode set \<Rightarrow> pool_state \<Rightarrow> bool" where
  "clients_ok modes s \<longleftrightarrow>
     dom (snd s) \<subseteq> dom (activeClients (fst s)) \<and>
     (\<forall>cid cl. activeClients (fst s) cid = Some cl \<longrightarrow> client_ok modes cl (snd s cid)) \<and>
     finite (dom (activeClients (fst s))) \<and>
     (maxClientConn (fst s) > 0 \<longrightarrow> int (card (dom (activeClients (fst s)))) \<le> maxClientConn (fst s))"

lemma in_use_Checkout: "Checkout now p k m = (c, m') \<Longrightarrow> in_use m' = insert c (in_use m)"
  using Checkout_result [of now p k m c m'] by (auto simp: in_use_def less_Suc_eq)

lemma in_use_Return: "in_use (Return now p c m) = (if pc_Pool (conn_heap m c) = p then in_use m - {c} else in_use m)"
  by (auto simp: in_use_def Return_InUse)

lemma ReturnOwn_frame [simp, frame]:
  "activeClients (ReturnOwn now c m) = activeClients m" "next_conn (ReturnOwn now c m) = next_conn m"
  "next_pool (ReturnOwn now c m) = next_pool m" "pools (ReturnOwn now c m) = pools m"
  "maxClientConn (ReturnOwn now c m) = maxClientConn m" "in_use (ReturnOwn now c m) = in_use m - {c}"
  by (simp_all add: ReturnOwn_def in_use_Return)

lemma set_client_frame [simp, frame]:
  "activeClients (set_client cid cl m) = (activeClients m)(cid \<mapsto> cl)" "conn_heap (set_client cid cl m) = conn_heap m"
  "next_conn (set_client cid cl m) = next_conn m" "maxClientConn (set_client cid cl m) = maxClientConn m"
  "in_use (set_client cid cl m) = in_use m" "pools (set_client cid cl m) = pools m"
  by (simp_all add: set_client_def in_use_def)

lemma holds_update:
  assumes "activeClients m' = (activeClients m)(cid := cl)" and "fl' = fl(cid := f)"
  shows "holds (m', fl') = (holds (m, fl))(cid := held_by cl f)"
  using assms by (auto simp: holds_def fun_eq_iff)

lemma clients_ok_update:
  assumes "clients_ok modes (m, fl)" and "activeClients m cid = Some cl" and "client_ok modes cl' f"
    and "activeClients m' = (activeClients m)(cid \<mapsto> cl')" and "maxClientConn m' = maxClientConn m"
  shows "clients_ok modes (m', fl(cid := f))"
proof -
  have "dom ((activeClients m)(cid \<mapsto> cl')) = dom (activeClients m)" using assms(2) by auto
  with assms show ?thesis by (auto simp: clients_ok_def)
qed

lemma hold_steps_intros:
  "s = (insert n U, Suc n, h(cid := insert n (h cid))) \<Longrightarrow> (hold_step b)\<^sup>*\<^sup>* (U, n, h) s"
  "s = (U - {c}, n, h(cid := h cid - {c})) \<Longrightarrow> c \<in> h cid \<Longrightarrow> (hold_step b)\<^sup>*\<^sup>* (U, n, h) s"
  "s = (U, n, h(cid := h cid - {c})) \<Longrightarrow> b \<Longrightarrow> (hold_step b)\<^sup>*\<^sup>* (U, n, h) s"
  by (auto intro!: r_into_rtranclp intro: hold_step.intros)

text \<open>The ways \<open>GetConnection\<close> succeeds.\<close>

lemma GetConnection_cases:
  assumes "GetConnection now cid db mc isTxn txn m = (Inr conn, m')"
  obtains (known) cl p m1 where "activeClients m cid = Some cl"
      "GetPool now db mc (cl_PoolMode cl) (set_client cid (cl\<lparr>cl_LastActivity := now\<rparr>) m) = (p, m1)" "m' = m1"
      "cl_PoolMode cl = SessionMode \<and> AssignedConn cl = Some conn \<or> cl_PoolMode cl = TransactionMode \<and> TransactionConn cl = Some conn"
  | (session) cl p m1 m2 where "activeClients m cid = Some cl"
      "GetPool now db mc (cl_PoolMode cl) (set_client cid (cl\<lparr>cl_LastActivity := now\<rparr>) m) = (p, m1)"
      "cl_PoolMode cl = SessionMode" "AssignedConn cl = None" "Checkout now p cid m1 = (conn, m2)"
      "m' = set_client cid (cl\<lparr>cl_LastActivity := now, AssignedConn := Some conn\<rparr>) m2"
  | (switch) cl p m1 m2 where "activeClients m cid = Some cl"
      "GetPool now db mc (cl_PoolMode cl) (set_client cid (cl\<lparr>cl_LastActivity := now\<rparr>) m) = (p, m1)"
      "cl_PoolMode cl = TransactionMode"
      "Checkout now p cid (case TransactionConn cl of None \<Rightarrow> m1 | Some c \<Rightarrow> Return now p c m1) = (conn, m2)"
      "m' = set_client cid (cl\<lparr>cl_LastActivity := now, TransactionConn := Some conn\<rparr>)
         (m2\<lparr>conn_heap := (conn_heap m2)(conn := (conn_heap m2 conn)\<lparr>TransactionID := txn\<rparr>)\<rparr>)"
  | (fresh) cl p m1 where "activeClients m cid = Some cl"
      "GetPool now db mc (cl_PoolMode cl) (set_client cid (cl\<lparr>cl_LastActivity := now\<rparr>) m) = (p, m1)"
      "cl_PoolMode cl \<in> {TransactionMode, StatementMode}" "Checkout now p cid m1 = (conn, m')"
proof -
  obtain cl where cl: "activeClients m cid = Some cl"
    using assms by (cases "activeClients m cid") (auto simp: GetConnection_def)
  obtain p m1 where p: "GetPool now db mc (cl_PoolMode cl) (set_client cid (cl\<lparr>cl_LastActivity := now\<rparr>) m) = (p, m1)"
    by fastforce
  consider "cl_PoolMode cl = SessionMode" | "cl_PoolMode cl = TransactionMode" | "cl_PoolMode cl = StatementMode"
    using assms cl p by (auto simp: GetConnection_def Let_def split: if_splits)
  then show ?thesis
  proof cases
    case 1
    with assms cl p show ?thesis using known session
      by (auto simp: GetConnection_def Let_def split: option.splits prod.splits)
  next
    case 2
    with assms cl p show ?thesis
      by (auto simp: GetConnection_def Let_def map_prod_def split: if_splits option.splits prod.splits
          intro: known switch fresh)
  next
    case 3
    with assms cl p show ?thesis by (auto simp: GetConnection_def Let_def map_prod_def split: prod.splits intro: fresh)
  qed
qed


lemma held_by_simps [simp]:
  "held_by None f = set_option f"
  "held_by (Some cl) f = set_option f \<union> set_option (AssignedConn cl) \<union> set_option (TransactionConn cl)"
  by (auto simp: held_by_def)

lemma holding_of_pair: "holding_of (m, fl) = (in_use m, next_conn m, holds (m, fl))"
  by (simp add: holding_of_def)

lemma holds_eq: "holds (m, fl) cid = held_by (activeClients m cid) (fl cid)"
  by (simp add: holds_def)

lemma GetPool_after_set_client:
  assumes "GetPool now db mc mode (set_client cid cl m) = (p, m1)"
  shows "activeClients m1 = (activeClients m)(cid \<mapsto> cl)" "in_use m1 = in_use m" "next_conn m1 = next_conn m"
    "maxClientConn m1 = maxClientConn m"
  using GetPool_frame [OF assms] by (simp_all add: in_use_def)

definition may_forget :: "PoolMode set \<Rightarrow> bool" where
  "may_forget modes \<longleftrightarrow> TransactionMode \<in> modes"

lemma clients_okD: "clients_ok modes (m, fl) \<Longrightarrow> activeClients m cid = Some cl \<Longrightarrow> client_ok modes cl (fl cid)"
  by (simp add: clients_ok_def)

lemma acquire_refines:
  assumes "Checkout now p k m1 = (conn, m2)" and "in_use m' = in_use m2" and "next_conn m' = next_conn m2"
    and "activeClients m' = A(cid \<mapsto> cl)" and "\<And>d. d \<noteq> cid \<Longrightarrow> h d = held_by (A d) (fl d)"
    and "held_by (Some cl) (Some conn) = insert conn (h cid)"
  shows "(hold_step b)\<^sup>*\<^sup>* (in_use m1, next_conn m1, h) (holding_of (m', fl(cid \<mapsto> conn)))"
proof -
  have "holds (m', fl(cid \<mapsto> conn)) = h(cid := insert conn (h cid))"
    using assms(4-6) by (auto simp: fun_eq_iff holds_eq)
  then show ?thesis using assms(2,3) Checkout_result(1,2) [OF assms(1)] in_use_Checkout [OF assms(1)]
    by (intro hold_steps_intros(1) [where cid = cid]) (simp add: holding_of_pair)
qed

lemma replaced_transaction_refines:
  assumes "activeClients m cid = Some cl" and "AssignedConn cl = None" and "fl cid = None" and "may_forget modes"
    and "in_use m1 = in_use m" and "next_conn m1 = next_conn m"
    and mr: "mr = (case TransactionConn cl of None \<Rightarrow> m1 | Some c \<Rightarrow> Return now p c m1)"
  shows "(hold_step (may_forget modes))\<^sup>*\<^sup>* (holding_of (m, fl)) (in_use mr, next_conn mr, (holds (m, fl))(cid := {}))"
proof (cases "TransactionConn cl")
  case None
  then have "(holds (m, fl))(cid := {}) = holds (m, fl)" using assms(1-3) by (auto simp: fun_eq_iff holds_eq)
  with None assms(5,6) show ?thesis by (simp add: mr holding_of_pair)
next
  case (Some c)
  then have "holds (m, fl) cid = {c}" using assms(1-3) by (simp add: holds_eq)
  then have "(holds (m, fl))(cid := {}) = (holds (m, fl))(cid := holds (m, fl) cid - {c})" and "c \<in> holds (m, fl) cid"
    by simp_all
  then show ?thesis unfolding holding_of_pair using Some assms(4-6)
    by (cases "pc_Pool (conn_heap m1 c) = p")
      (simp add: mr in_use_Return hold_steps_intros(2), simp add: mr in_use_Return hold_steps_intros(3))
qed

lemma GetConnection_refines:
  assumes ok: "clients_ok modes (m, fl)" and free: "fl cid = None"
    and get: "GetConnection now cid db mc isTxn txn m = (Inr conn, m')"
  shows "(hold_step (may_forget modes))\<^sup>*\<^sup>* (holding_of (m, fl)) (holding_of (m', fl(cid \<mapsto> conn)))"
proof -
  have c_ok: "client_ok modes cl None" if "activeClients m cid = Some cl" for cl
    using clients_okD [OF ok that] free by simp
  show ?thesis
    using get
  proof (cases rule: GetConnection_cases)
    case (known cl p m1)
    note f = GetPool_after_set_client [OF known(2)]
    have "holds (m1, fl(cid \<mapsto> conn)) = holds (m, fl)"
      using known(1,4) free by (subst holds_update [OF f(1) refl]) (auto simp: fun_eq_iff holds_eq)
    with known(3) f show ?thesis by (simp add: holding_of_pair)
  next
    case (session cl p m1 m2)
    note f = GetPool_after_set_client [OF session(2)] and r = Checkout_result [OF session(5)]
    have t: "TransactionConn cl = None" using c_ok [OF session(1)] session(3) by (simp add: client_ok_def)
    have "(hold_step (may_forget modes))\<^sup>*\<^sup>* (in_use m1, next_conn m1, holds (m, fl)) (holding_of (m', fl(cid \<mapsto> conn)))"
      using session f(1) r(5) t free by (intro acquire_refines [OF session(5), where A = "activeClients m"]) (auto simp: holds_eq)
    with f show ?thesis by (simp add: holding_of_pair)
  next
    case (switch cl p m1 m2)
    note f = GetPool_after_set_client [OF switch(2)] and r = Checkout_result [OF switch(4)]
    have t: "AssignedConn cl = None" and mf: "may_forget modes"
      using c_ok [OF switch(1)] switch(3) by (simp_all add: client_ok_def may_forget_def)
    define mr where "mr = (case TransactionConn cl of None \<Rightarrow> m1 | Some c \<Rightarrow> Return now p c m1)"
    note co = switch(4) [folded mr_def]
    have "activeClients m2 = (activeClients m)(cid \<mapsto> cl\<lparr>cl_LastActivity := now\<rparr>)"
      using r(5) f(1) by (simp split: option.splits)
    moreover have "in_use m' = in_use m2" using switch(5) by (auto simp: in_use_def)
    ultimately have "(hold_step (may_forget modes))\<^sup>*\<^sup>* (in_use mr, next_conn mr, (holds (m, fl))(cid := {}))
        (holding_of (m', fl(cid \<mapsto> conn)))"
      using switch(5) t by (intro acquire_refines [OF co, where A = "activeClients m"]) (auto simp: holds_eq)
    with replaced_transaction_refines [where fl = fl and cid = cid, OF switch(1) t free mf f(2,3) mr_def] show ?thesis by (rule rtranclp_trans)
  next
    case (fresh cl p m1)
    note f = GetPool_after_set_client [OF fresh(2)] and r = Checkout_result [OF fresh(4)]
    have "(hold_step (may_forget modes))\<^sup>*\<^sup>* (in_use m1, next_conn m1, holds (m, fl)) (holding_of (m', fl(cid \<mapsto> conn)))"
      using fresh f(1) r(5) free by (intro acquire_refines [OF fresh(4), where A = "activeClients m" and cl = "cl\<lparr>cl_LastActivity := now\<rparr>"]) (auto simp: holds_eq)
    with f show ?thesis by (simp add: holding_of_pair)
  qed
qed

lemma GetConnection_clients_ok:
  assumes ok: "clients_ok modes (m, fl)" and free: "fl cid = None"
    and get: "GetConnection now cid db mc isTxn txn m = (Inr conn, m')"
  shows "clients_ok modes (m', fl(cid \<mapsto> conn))"
proof -
  have c_ok: "client_ok modes cl None" if "activeClients m cid = Some cl" for cl
    using clients_okD [OF ok that] free by simp
  show ?thesis
    using get
  proof (cases rule: GetConnection_cases)
    case (known cl p m1)
    with c_ok [OF known(1)] GetPool_after_set_client [OF known(2)] show ?thesis
      by (intro clients_ok_update [OF ok known(1), where cl' = "cl\<lparr>cl_LastActivity := now\<rparr>"]) (auto simp: client_ok_def)
  next
    case (session cl p m1 m2)
    with c_ok [OF session(1)] GetPool_after_set_client [OF session(2)] Checkout_result(5,6) [OF session(5)] show ?thesis
      by (intro clients_ok_update [OF ok session(1), where cl' = "cl\<lparr>cl_LastActivity := now, AssignedConn := Some conn\<rparr>"])
        (auto simp: client_ok_def)
  next
    case (switch cl p m1 m2)
    with c_ok [OF switch(1)] GetPool_after_set_client [OF switch(2)] Checkout_result(5,6) [OF switch(4)] show ?thesis
      by (intro clients_ok_update [OF ok switch(1), where cl' = "cl\<lparr>cl_LastActivity := now, TransactionConn := Some conn\<rparr>"])
        (auto simp: client_ok_def split: option.splits)
  next
    case (fresh cl p m1)
    with c_ok [OF fresh(1)] GetPool_after_set_client [OF fresh(2)] Checkout_result(5,6) [OF fresh(4)] show ?thesis
      by (intro clients_ok_update [OF ok fresh(1), where cl' = "cl\<lparr>cl_LastActivity := now\<rparr>"]) (auto simp: client_ok_def)
  qed
qed


lemma GetConnection_error:
  assumes "GetConnection now cid db mc isTxn txn m = (Inl err, m')"
  shows "m' = m \<or> (\<exists>cl p. activeClients m cid = Some cl \<and>
    GetPool now db mc (cl_PoolMode cl) (set_client cid (cl\<lparr>cl_LastActivity := now\<rparr>) m) = (p, m'))"
  using assms by (auto simp: GetConnection_def Let_def map_prod_def split: option.splits prod.splits if_splits)

lemma release_refines:
  assumes "c \<in> holds (m, fl) cid" and "activeClients m' = (activeClients m)(cid := cl)" and "held_by cl f = holds (m, fl) cid - {c}"
    and "in_use m' = in_use m - {c}" and "next_conn m' = next_conn m"
  shows "(hold_step b)\<^sup>*\<^sup>* (holding_of (m, fl)) (holding_of (m', fl(cid := f)))"
  using assms unfolding holding_of_pair
  by (intro hold_steps_intros(2) [where cid = cid]) (simp_all add: holds_update [OF assms(2) HOL.refl])

lemma ReturnConnection_cases:
  assumes "clients_ok modes (m, fl)" and "fl cid = Some conn"
  obtains (keep) cl where "activeClients m cid = Some cl" "Some conn = AssignedConn cl \<or> Some conn = TransactionConn cl"
      "ReturnConnection now cid conn isEnd m = m"
  | (ended) cl where "activeClients m cid = Some cl" "TransactionConn cl = Some conn" "AssignedConn cl = None"
      "ReturnConnection now cid conn isEnd m = set_client cid (cl\<lparr>TransactionConn := None\<rparr>) (ReturnOwn now conn m)"
  | (returned) cl where "activeClients m cid = Some cl" "TransactionConn cl \<noteq> Some conn" "AssignedConn cl = None"
      "ReturnConnection now cid conn isEnd m = ReturnOwn now conn m"
  | (lost) cl where "activeClients m cid = Some cl" "may_forget modes" "TransactionConn cl \<noteq> Some conn" "AssignedConn cl = None"
      "ReturnConnection now cid conn isEnd m = m"
proof -
  obtain cl where cl: "activeClients m cid = Some cl" using assms by (fastforce simp: clients_ok_def)
  have c: "client_ok modes cl (Some conn)" using clients_okD [OF assms(1) cl] assms(2) by simp
  then consider "cl_PoolMode cl = SessionMode" | "cl_PoolMode cl = TransactionMode" | "cl_PoolMode cl = StatementMode"
    by (auto simp: client_ok_def)
  then show ?thesis
  proof cases
    case 1
    with c cl show ?thesis by (intro keep) (auto simp: ReturnConnection_def client_ok_def)
  next
    case 2
    with c have "AssignedConn cl = None" "may_forget modes" by (auto simp: client_ok_def may_forget_def)
    with 2 cl show ?thesis
      by (cases "isEnd"; cases "TransactionConn cl = Some conn")
        (auto simp: ReturnConnection_def intro: keep ended returned lost)
  next
    case 3
    with c cl show ?thesis by (intro returned) (auto simp: ReturnConnection_def client_ok_def)
  qed
qed

lemma ReturnConnection_refines:
  assumes ok: "clients_ok modes (m, fl)" and fl: "fl cid = Some conn"
  shows "(hold_step (may_forget modes))\<^sup>*\<^sup>* (holding_of (m, fl)) (holding_of (ReturnConnection now cid conn isEnd m, fl(cid := None)))"
  using ok fl
proof (cases rule: ReturnConnection_cases [where now = now and isEnd = isEnd])
  case (keep cl)
  then have "holds (m, fl(cid := None)) = holds (m, fl)" using fl by (auto simp: fun_eq_iff holds_eq)
  with keep show ?thesis by (simp add: holding_of_pair)
next
  case (ended cl)
  then show ?thesis
    using fl by (intro release_refines [where cl = "Some (cl\<lparr>TransactionConn := None\<rparr>)"]) (auto simp: holds_eq)
next
  case (returned cl)
  then have "(activeClients m)(cid \<mapsto> cl) = activeClients m" by auto
  with returned fl show ?thesis by (intro release_refines [where cl = "Some cl"]) (auto simp: holds_eq)
next
  case (lost cl)
  then have "holds (m, fl(cid := None)) = (holds (m, fl))(cid := holds (m, fl) cid - {conn})"
    using fl by (auto simp: fun_eq_iff holds_eq)
  with lost show ?thesis unfolding holding_of_pair by (intro hold_steps_intros(3) [where cid = cid]) auto
qed

lemma ReturnConnection_clients_ok:
  assumes ok: "clients_ok modes (m, fl)" and fl: "fl cid = Some conn"
  shows "clients_ok modes (ReturnConnection now cid conn isEnd m, fl(cid := None))"
proof -
  have upd: "activeClients m = (activeClients m)(cid \<mapsto> cl)" if "activeClients m cid = Some cl" for cl using that by auto
  have c: "client_ok modes cl None" "client_ok modes (cl\<lparr>TransactionConn := None\<rparr>) None" if "activeClients m cid = Some cl" for cl
    using clients_okD [OF ok that] fl by (auto simp: client_ok_def)
  from ok fl show ?thesis
  proof (cases rule: ReturnConnection_cases [where now = now and isEnd = isEnd])
    case (ended cl)
    with c show ?thesis by (intro clients_ok_update [OF ok]) auto
  qed (use c upd in \<open>auto intro!: clients_ok_update [OF ok]\<close>)
qed


lemma in_use_clients [simp]: "in_use (m\<lparr>activeClients := x\<rparr>) = in_use m"
  by (simp add: in_use_def)

lemma return_held_frame [simp, frame]:
  "activeClients (return_held now c m) = activeClients m" "next_conn (return_held now c m) = next_conn m"
  "maxClientConn (return_held now c m) = maxClientConn m" "in_use (return_held now c m) = in_use m - set_option c"
  by (auto simp: return_held_def split: option.split)

lemma UnregisterClient_refines:
  assumes ok: "clients_ok modes (m, fl)" and fl: "fl cid = None"
  shows "(hold_step (may_forget modes))\<^sup>*\<^sup>* (holding_of (m, fl)) (holding_of (UnregisterClient now cid m, fl))"
proof (cases "activeClients m cid")
  case None
  then show ?thesis by (simp add: UnregisterClient_def)
next
  case (Some cl)
  have c: "AssignedConn cl = None \<or> TransactionConn cl = None"
    using clients_okD [OF ok Some] by (auto simp: client_ok_def)
  let ?m' = "UnregisterClient now cid m"
  have A: "activeClients ?m' = (activeClients m)(cid := None)" and n: "next_conn ?m' = next_conn m"
    and u: "in_use ?m' = in_use m - holds (m, fl) cid"
    using Some fl by (auto simp: UnregisterClient_def Let_def holds_eq)
  have f: "fl = fl(cid := None)" using fl by auto
  have h: "holds (?m', fl) = (holds (m, fl))(cid := {})"
    using A fl by (auto simp: fun_eq_iff holds_eq)
  show ?thesis
  proof (cases "holds (m, fl) cid = {}")
    case True
    then show ?thesis using h n u by (simp add: holding_of_pair fun_upd_idem)
  next
    case False
    then obtain x where x: "holds (m, fl) cid = {x}" using c Some fl
      by (cases "AssignedConn cl"; cases "TransactionConn cl") (auto simp: holds_eq)
    show ?thesis unfolding holding_of_pair n u h x
      by (rule hold_steps_intros(2) [where cid = cid and c = x]) (simp_all add: x)
  qed
qed

lemma UnregisterClient_clients_ok:
  assumes "clients_ok modes (m, fl)" and "fl cid = None"
  shows "clients_ok modes (UnregisterClient now cid m, fl)"
proof (cases "activeClients m cid")
  case None
  with assms show ?thesis by (simp add: UnregisterClient_def)
next
  case (Some cl)
  have "card (dom (activeClients m) - {cid}) \<le> card (dom (activeClients m))"
    using assms(1) by (intro card_mono) (auto simp: clients_ok_def)
  moreover have "dom fl \<subseteq> dom (activeClients m) - {cid}" using assms by (auto simp: clients_ok_def)
  ultimately show ?thesis using assms Some by (auto simp: UnregisterClient_def Let_def clients_ok_def)
qed

lemma RegisterClient_refines:
  assumes ok: "clients_ok modes (m, fl)"
  shows "holding_of (snd (RegisterClient now cid user db mode m), fl) = holding_of (m, fl)"
proof (cases "activeClients m cid")
  case None
  then have "fl cid = None" using ok by (auto simp: clients_ok_def)
  with None show ?thesis by (auto simp: RegisterClient_def Let_def holding_of_pair holds_eq fun_eq_iff)
qed (simp add: RegisterClient_def)

lemma RegisterClient_clients_ok:
  assumes ok: "clients_ok modes (m, fl)" and "mode \<in> modes"
  shows "clients_ok modes (snd (RegisterClient now cid user db mode m), fl)"
proof (cases "activeClients m cid")
  case None
  then have fl: "fl cid = None" using ok by (auto simp: clients_ok_def)
  have "card (insert cid (dom (activeClients m))) = Suc (card (dom (activeClients m)))"
    using ok None by (subst card_insert_disjoint) (auto simp: clients_ok_def)
  with ok None fl assms(2) show ?thesis
    by (auto simp: RegisterClient_def Let_def clients_ok_def client_ok_def)
qed (simp add: RegisterClient_def ok)

lemma GetPool_refines:
  assumes "GetPool now db mc mode m = (p, m')"
  shows "holding_of (m', fl) = holding_of (m, fl)" and "clients_ok modes (m', fl) = clients_ok modes (m, fl)"
  using GetPool_frame [OF assms] by (auto simp: holding_of_pair in_use_def holds_eq intro!: ext) (simp_all add: clients_ok_def)

lemma touch_client_refines:
  assumes "activeClients m cid = Some cl"
  shows "holding_of (set_client cid (cl\<lparr>cl_LastActivity := t\<rparr>) m, fl) = holding_of (m, fl)"
    and "clients_ok modes (m, fl) \<Longrightarrow> clients_ok modes (set_client cid (cl\<lparr>cl_LastActivity := t\<rparr>) m, fl)"
proof -
  show "holding_of (set_client cid (cl\<lparr>cl_LastActivity := t\<rparr>) m, fl) = holding_of (m, fl)"
    using assms by (auto simp: holding_of_pair holds_eq fun_eq_iff)
  assume ok: "clients_ok modes (m, fl)"
  have "client_ok modes (cl\<lparr>cl_LastActivity := t\<rparr>) (fl cid)" using clients_okD [OF ok assms] by (simp add: client_ok_def)
  from clients_ok_update [OF ok assms this, of "set_client cid (cl\<lparr>cl_LastActivity := t\<rparr>) m"]
  show "clients_ok modes (set_client cid (cl\<lparr>cl_LastActivity := t\<rparr>) m, fl)" by simp
qed

lemma GetConnection_error_refines:
  assumes "GetConnection now cid db mc isTxn txn m = (Inl err, m')"
  shows "holding_of (m', fl) = holding_of (m, fl)" and "clients_ok modes (m, fl) \<Longrightarrow> clients_ok modes (m', fl)"
  using GetConnection_error [OF assms] by (auto simp: GetPool_refines touch_client_refines)

lemma Pool_step_refines:
  assumes "Pool_step modes s s'" and "clients_ok modes s"
  shows "(hold_step (may_forget modes))\<^sup>*\<^sup>* (holding_of s) (holding_of s') \<and> clients_ok modes s'"
  using assms
proof (induction rule: Pool_step.induct)
  case (pool m fl now db mc mode)
  then show ?case using GetPool_refines [of now db mc mode m "fst (GetPool now db mc mode m)" "snd (GetPool now db mc mode m)"]
    by simp
qed (simp_all add: RegisterClient_refines RegisterClient_clients_ok UnregisterClient_refines UnregisterClient_clients_ok
    GetConnection_refines GetConnection_clients_ok GetConnection_error_refines ReturnConnection_refines
    ReturnConnection_clients_ok)

section \<open>Accounting of every step\<close>

lemma held_in_use:
  assumes "exclusive (holding_of (m, fl))" and "c \<in> holds (m, fl) cid"
  shows "c < next_conn m" and "InUse (conn_heap m c)"
  using assms by (auto simp: holding_of_pair in_use_def)

lemma accounts_frame:
  assumes "accounts m" and "conn_heap m' = conn_heap m" and "next_conn m' = next_conn m" and "pool_heap m' = pool_heap m"
    and "next_pool m' = next_pool m" and "pools m' = pools m"
  shows "accounts m'"
  using assms by (simp add: accounts_def used_def)

lemma accounts_TransactionID:
  assumes "accounts m"
  shows "accounts (m\<lparr>conn_heap := (conn_heap m)(c := (conn_heap m c)\<lparr>TransactionID := x\<rparr>)\<rparr>)"
proof -
  have "used (m\<lparr>conn_heap := (conn_heap m)(c := (conn_heap m c)\<lparr>TransactionID := x\<rparr>)\<rparr>) = used m"
    by (auto simp: used_def fun_eq_iff)
  with assms show ?thesis by (simp add: accounts_def)
qed

lemma accounts_GetConnection:
  assumes "accounts m" and ex: "exclusive (holding_of (m, fl))"
    and "GetConnection now cid db mc isTxn txn m = (Inr conn, m')"
  shows "accounts m'"
  using assms(3)
proof (cases rule: GetConnection_cases)
  case (known cl p m1)
  with assms(1) show ?thesis using accounts_GetPool [OF _ known(2)] by simp
next
  case (session cl p m1 m2)
  note g = accounts_GetPool [OF _ session(2)]
  have "accounts m2" using assms(1) by (intro accounts_Checkout [OF g(1) g(2) session(5)]) simp_all
  with session show ?thesis by simp
next
  case (switch cl p m1 m2)
  note g = accounts_GetPool [OF _ switch(2)] and f = GetPool_frame [OF switch(2)]
  have h: "c < next_conn m1 \<and> InUse (conn_heap m1 c)" if "TransactionConn cl = Some c" for c
    using held_in_use [OF ex, of c cid] that switch(1) f by (simp add: holds_eq)
  have "accounts (case TransactionConn cl of None \<Rightarrow> m1 | Some c \<Rightarrow> Return now p c m1)"
    using g(1) assms(1) h by (auto split: option.split intro!: accounts_Return)
  moreover have "p < next_pool (case TransactionConn cl of None \<Rightarrow> m1 | Some c \<Rightarrow> Return now p c m1)"
    using g(2) assms(1) by (auto split: option.split)
  ultimately have "accounts m2" by (rule accounts_Checkout [OF _ _ switch(4)])
  with switch(5) show ?thesis by (simp add: accounts_TransactionID)
next
  case (fresh cl p m1)
  note g = accounts_GetPool [OF _ fresh(2)]
  show ?thesis using assms(1) by (intro accounts_Checkout [OF g(1) g(2) fresh(4)]) simp_all
qed

lemma accounts_ReturnOwn:
  "accounts m \<Longrightarrow> c < next_conn m \<Longrightarrow> InUse (conn_heap m c) \<Longrightarrow> accounts (ReturnOwn now c m)"
  by (simp add: ReturnOwn_def accounts_Return)

lemma accounts_Pool_step:
  assumes "Pool_step modes s s'" and "accounts (fst s)" and "clients_ok modes s" and "exclusive (holding_of s)"
  shows "accounts (fst s')"
  using assms
proof (induction rule: Pool_step.induct)
  case (register mode m fl now cid user db)
  then show ?case by (auto simp: RegisterClient_def Let_def split: option.split)
next
  case (unregister fl cid m now)
  show ?case
  proof (cases "activeClients m cid")
    case (Some cl)
    have h: "c < next_conn m \<and> InUse (conn_heap m c)" if "AssignedConn cl = Some c \<or> TransactionConn cl = Some c" for c
      using held_in_use [of m fl c cid] unregister.prems(3) that Some by (auto simp: holds_eq)
    have "AssignedConn cl = None \<or> TransactionConn cl = None"
      using clients_okD [OF unregister.prems(2) Some] by (auto simp: client_ok_def)
    with Some h unregister.prems(1) show ?thesis
      by (auto simp: UnregisterClient_def Let_def return_held_def accounts_ReturnOwn split: option.split)
  qed (use unregister in \<open>simp add: UnregisterClient_def\<close>)
next
  case (pool m fl now db mc mode)
  then show ?case using accounts_GetPool(1) [of m now db mc mode] by (metis fst_conv prod.collapse)
next
  case (get fl cid now db mc isTxn txn m conn m')
  then show ?case using accounts_GetConnection by simp
next
  case (get_error now cid db mc isTxn txn m err m' fl)
  then show ?case using GetConnection_error [OF get_error.hyps] by (auto dest!: accounts_GetPool(1) [rotated])
next
  case (return fl cid conn m now isEnd)
  have "conn < next_conn m" "InUse (conn_heap m conn)"
    using held_in_use [of m fl conn cid] return by (auto simp: holds_def held_by_def)
  with return(1,2) show ?case using return.prems(2)
    by (auto simp: accounts_ReturnOwn elim!: ReturnConnection_cases [where now = now and isEnd = isEnd and cid = cid and conn = conn])
qed

lemma Pool_start_ok:
  "clients_ok modes (Pool_start mode a b c)" "exclusive (holding_of (Pool_start mode a b c))"
  "all_held (holding_of (Pool_start mode a b c))" "accounts (fst (Pool_start mode a b c))"
  by (simp_all add: Pool_start_def clients_ok_def NewManager_def holding_of_pair in_use_def holds_eq accounts_def)

lemma Pool_run_refines:
  assumes "Pool_run modes s s'" and "clients_ok modes s"
  shows "(hold_step (may_forget modes))\<^sup>*\<^sup>* (holding_of s) (holding_of s') \<and> clients_ok modes s'"
  using assms by induction (auto dest: Pool_step_refines intro: rtranclp_trans)

lemma Pool_run_accounts:
  assumes "Pool_run modes s s'" and "accounts (fst s)" and "clients_ok modes s" and "exclusive (holding_of s)"
  shows "accounts (fst s')"
  using assms
proof induction
  case (more s s' s'')
  then show ?case using accounts_Pool_step Pool_run_refines hold_steps(1) by metis
qed

section \<open>An execution\<close>

text \<open>
  A client in the transaction mode that has checked out a connection outside a transaction.
\<close>

definition example_m1 :: Manager where
  "example_m1 = snd (RegisterClient 0 ''a'' ''u'' ''db'' TransactionMode (NewManager ''transaction'' 1 2 2))"

definition example_m2 :: Manager where
  "example_m2 = snd (GetConnection 1 ''a'' ''db'' (Some 0) False '''' example_m1)"

definition statement_example :: Manager where
  "statement_example = snd (GetConnection 1 ''a'' ''db'' (Some 0) False ''''
     (snd (RegisterClient 0 ''a'' ''u'' ''db'' StatementMode (NewManager ''statement'' 1 2 2))))"

lemmas example_defs = example_m2_def example_m1_def RegisterClient_def NewManager_def GetConnection_def
  GetPool_def Checkout_def Let_def update_stats_def set_client_def

lemma one_request_run:
  assumes "mode \<in> modes"
    and "GetConnection t ''a'' ''db'' mc isTxn txn (snd (RegisterClient 0 ''a'' ''u'' ''db'' mode (NewManager mode' a b c))) = (Inr conn, m)"
  shows "Pool_run modes (Pool_start mode' a b c) (m, [''a'' \<mapsto> conn])"
proof -
  let ?m1 = "snd (RegisterClient 0 ''a'' ''u'' ''db'' mode (NewManager mode' a b c))"
  have "Pool_step modes (Pool_start mode' a b c) (?m1, Map.empty)"
    unfolding Pool_start_def by (rule register [OF assms(1)])
  moreover have "Pool_step modes (?m1, Map.empty) (m, Map.empty(''a'' \<mapsto> conn))"
    by (rule get [OF _ assms(2)]) simp
  ultimately show ?thesis by (blast intro: Pool_run.intros)
qed

lemma example_run: "Pool_run {TransactionMode} (Pool_start ''transaction'' 1 2 2) (example_m2, [''a'' \<mapsto> 0])"
  by (rule one_request_run [of TransactionMode _ 1 "Some 0" False "[]"]) (simp_all add: example_defs)

lemma Pool_run_invariant:
  assumes "Pool_run modes (Pool_start mode minSize maxSize maxClients) (m, fl)"
  shows "(\<forall>p < next_pool m. ActiveConnections (p_stats (pool_heap m p)) = int (card (used m p)))
    \<and> (\<forall>cid cid' c. c \<in> holds (m, fl) cid \<longrightarrow> c \<in> holds (m, fl) cid' \<longrightarrow> cid = cid')
    \<and> (\<forall>cid. \<forall>c \<in> holds (m, fl) cid. InUse (conn_heap m c))
    \<and> (maxClientConn m > 0 \<longrightarrow> int (card (dom (activeClients m))) \<le> maxClientConn m)"
proof -
  note r = Pool_run_refines [OF assms Pool_start_ok(1)]
  have "accounts m" using Pool_run_accounts [OF assms Pool_start_ok(4) Pool_start_ok(1) Pool_start_ok(2)] by simp
  moreover have "exclusive (holding_of (m, fl))" using hold_steps(1) [OF conjunct1 [OF r] Pool_start_ok(2)] .
  then have "exclusive (in_use m, next_conn m, holds (m, fl))" by (simp add: holding_of_pair)
  moreover have "clients_ok modes (m, fl)" using r ..
  ultimately show ?thesis by (auto simp: accounts_def clients_ok_def in_use_def)
qed

lemma Pool_run_held:
  assumes "Pool_run modes (Pool_start mode minSize maxSize maxClients) (m, fl)" and "TransactionMode \<notin> modes"
    and "c < next_conn m" and "InUse (conn_heap m c)"
  shows "\<exists>cid. c \<in> holds (m, fl) cid"
proof -
  have "all_held (holding_of (m, fl))"
    using hold_steps(3) [OF conjunct1 [OF Pool_run_refines [OF assms(1) Pool_start_ok(1)]] Pool_start_ok(3)] assms(2)
    by (simp add: may_forget_def)
  with assms(3,4) show ?thesis by (auto simp: holding_of_pair in_use_def)
qed

section \<open>Properties of the pool manager\<close>

text \<open>
  C15. In every state a pool manager can reach, with any interleaving of the clients' requests and any
  pool modes: the number of active connections a pool reports is the number of its connections
  that are checked out; no two clients hold the same connection, and what a client holds is
  checked out; and with a positive limit there are never more clients than the limit.
\<close>

theorem Pool_reachable_invariant:
  assumes "Pool_run modes (Pool_start mode minSize maxSize maxClients) (m, fl)"
  shows "(\<forall>p < next_pool m. ActiveConnections (p_stats (pool_heap m p)) = int (card (used m p)))
    \<and> (\<forall>cid cid' c. c \<in> holds (m, fl) cid \<longrightarrow> c \<in> holds (m, fl) cid' \<longrightarrow> cid = cid')
    \<and> (\<forall>cid. \<forall>c \<in> holds (m, fl) cid. InUse (conn_heap m c))
    \<and> (maxClientConn m > 0 \<longrightarrow> int (card (dom (activeClients m))) \<le> maxClientConn m)"
  using Pool_run_invariant [OF assms] .

theorem Pool_reachable_invariant_witness:
  "ActiveConnections (p_stats (pool_heap example_m2 0)) = int (card (used example_m2 0)) \<and> InUse (conn_heap example_m2 0) \<and> next_pool example_m2 = 1"
proof -
  have "next_pool example_m2 = 1" "(0 :: nat) \<in> holds (example_m2, [''a'' \<mapsto> 0]) ''a''"
    by (simp add: example_defs) (simp add: holds_def held_by_def)
  with Pool_reachable_invariant [OF example_run] show ?thesis by (metis zero_less_one)
qed

text \<open>
  C16. The pool manager implements its contract: every execution is, seen through the connections in
  use and who holds them, a sequence of acquiring a fresh connection for one client and of
  releasing a connection by the client that holds it; only the transaction mode can
  make a client lose track of a connection that stays in use.
\<close>

theorem Pool_refines_contract:
  assumes "Pool_run modes (Pool_start mode minSize maxSize maxClients) s"
  shows "(hold_step (TransactionMode \<in> modes))\<^sup>*\<^sup>* ({}, 0, \<lambda>_. {}) (holding_of s)"
proof -
  have "holding_of (Pool_start mode minSize maxSize maxClients) = ({}, 0, \<lambda>_. {})"
    by (auto simp: Pool_start_def NewManager_def holding_of_pair in_use_def holds_eq fun_eq_iff)
  with Pool_run_refines [OF assms Pool_start_ok(1)] show ?thesis by (simp add: may_forget_def)
qed

theorem Pool_refines_contract_witness:
  "(hold_step (TransactionMode \<in> {TransactionMode}))\<^sup>*\<^sup>* ({}, 0, \<lambda>_. {}) (holding_of (example_m2, [''a'' \<mapsto> 0]))"
  by (rule Pool_refines_contract [OF example_run])

text \<open>
  C18. As long as no client uses the transaction mode, no connection leaks: every connection that is
  checked out is held by a client, which returns it with its request or when it
  is unregistered.
\<close>

theorem Pool_no_leak:
  assumes "Pool_run modes (Pool_start mode minSize maxSize maxClients) (m, fl)" and "TransactionMode \<notin> modes"
    and "c < next_conn m" and "InUse (conn_heap m c)"
  shows "\<exists>cid. c \<in> holds (m, fl) cid"
  using Pool_run_held [OF assms] .

theorem Pool_no_leak_witness:
  "\<exists>cid. 0 \<in> holds (statement_example, [''a'' \<mapsto> 0]) cid"
proof -
  have "Pool_run {StatementMode} (Pool_start ''statement'' 1 2 2) (statement_example, [''a'' \<mapsto> 0])"
    by (rule one_request_run [of StatementMode _ 1 "Some 0" False "[]"]) (simp_all add: statement_example_def example_defs)
  then show ?thesis
    by (rule Pool_no_leak [where c = 0]) (simp_all add: statement_example_def example_defs)
qed

text \<open>
  C40. In the transaction mode a connection leaks: when the request in flight runs outside the
  client's transaction and ends with \<^verbatim>\<open>isEndOfTransaction\<close> set, its connection is not returned, no
  client holds it any more, and in every later state it is still checked out.
\<close>

theorem Pool_transaction_leak:
  assumes "Pool_run modes (Pool_start mode minSize maxSize maxClients) (m, fl)"
    and "activeClients m cid = Some cl" and "cl_PoolMode cl = TransactionMode"
    and "fl cid = Some conn" and "TransactionConn cl \<noteq> Some conn"
    and "Pool_run modes (ReturnConnection now cid conn True m, fl(cid := None)) (m', fl')"
  shows "InUse (conn_heap m' conn) \<and> (\<forall>cid'. conn \<notin> holds (m', fl') cid')"
proof -
  note r = Pool_run_refines [OF assms(1) Pool_start_ok(1)]
  then have ok: "clients_ok modes (m, fl)" ..
  have ex: "exclusive (holding_of (m, fl))" using hold_steps(1) [OF conjunct1 [OF r] Pool_start_ok(2)] .
  have held: "conn \<in> holds (m, fl) cid" using assms(4) by (simp add: holds_def held_by_def)
  have a: "AssignedConn cl = None" using clients_okD [OF ok assms(2)] assms(3) by (simp add: client_ok_def)
  have m: "ReturnConnection now cid conn True m = m" using assms(2,3,5) by (simp add: ReturnConnection_def)
  have "conn \<notin> holds (m, fl(cid := None)) d" for d
    using ex held assms(2,5) a by (cases "d = cid") (auto simp: holding_of_pair holds_eq)
  with held_in_use [OF ex held] have "orphan conn (holding_of (m, fl(cid := None)))"
    by (simp add: holding_of_pair in_use_def)
  moreover have "clients_ok modes (m, fl(cid := None))"
    using ReturnConnection_clients_ok [OF ok assms(4), of now True] m by simp
  ultimately have "orphan conn (holding_of (m', fl'))"
    using hold_steps(2) [OF conjunct1 [OF Pool_run_refines [OF assms(6) [unfolded m]]]] by blast
  then show ?thesis by (simp add: holding_of_pair in_use_def)
qed

theorem Pool_transaction_leak_witness:
  "InUse (conn_heap (ReturnConnection 2 ''a'' 0 True example_m2) 0)
    \<and> (\<forall>cid'. 0 \<notin> holds (ReturnConnection 2 ''a'' 0 True example_m2, [''a'' \<mapsto> 0](''a'' := None)) cid')"
proof -
  obtain cl where cl: "activeClients example_m2 ''a'' = Some cl" "cl_PoolMode cl = TransactionMode" "TransactionConn cl \<noteq> Some 0"
    by (simp add: example_defs)
  show ?thesis
    by (rule Pool_transaction_leak [OF example_run cl(1,2) _ cl(3) Pool_run.idle]) simp
qed

end
