(* ===== verification/Wire.thy ===== *)
theory Wire
  imports Parsing "HOL-Library.Monad_Syntax"
begin

text \<open>
  What the message layer uses of the MongoDB driver: the packages \<^verbatim>\<open>wiremessage\<close> and
  \<^verbatim>\<open>bsoncore\<close> are not part of the program, so their functions are the fields of a record that
  the definitions of \<^verbatim>\<open>Operations\<close> take as an argument. The constants are those of the wire
  protocol. \<open>wire_laws\<close> states what the functions are documented to do: a reader returns what
  the appender of the same field wrote, and the rest of the bytes. \<open>std_wire\<close> is an
  implementation of the protocol that satisfies the laws. The last part holds the byte
  helpers that \<^verbatim>\<open>src/mongo/operations.go\<close> has of its own.
\<close>

section \<open>Constants of the protocol\<close>

abbreviation (input) OpReply :: i32 where "OpReply \<equiv> 1"
abbreviation (input) OpUpdate :: i32 where "OpUpdate \<equiv> 2001"
abbreviation (input) OpInsert :: i32 where "OpInsert \<equiv> 2002"
abbreviation (input) OpQuery :: i32 where "OpQuery \<equiv> 2004"
abbreviation (input) OpGetMore :: i32 where "OpGetMore \<equiv> 2005"
abbreviation (input) OpDelete :: i32 where "OpDelete \<equiv> 2006"
abbreviation (input) OpKillCursors :: i32 where "OpKillCursors \<equiv> 2007"
abbreviation (input) OpMsg :: i32 where "OpMsg \<equiv> 2013"

abbreviation (input) SingleDocument :: byte where "SingleDocument \<equiv> 0"
abbreviation (input) DocumentSequence :: byte where "DocumentSequence \<equiv> 1"

unbundle bit_operations_syntax

definition ChecksumPresent :: "i32 \<Rightarrow> bool" where "ChecksumPresent flags \<longleftrightarrow> flags AND 1 = 1"
definition MoreToCome :: "i32 \<Rightarrow> bool" where "MoreToCome flags \<longleftrightarrow> flags AND 2 = 2"

section \<open>Documents\<close>

type_synonym document = bytes

datatype bson_value = VMissing \<comment> \<open>no such element: \<^verbatim>\<open>Data\<close> is nil\<close>
  | VString string | VInt32 i32 | VInt64 i64 | VBoolean bool | VBinary byte bytes
  | VOther bytes

fun StringValueOK :: "bson_value \<Rightarrow> string option" where
  "StringValueOK (VString s) = Some s" | "StringValueOK _ = None"

fun Int32OK :: "bson_value \<Rightarrow> i32 option" where
  "Int32OK (VInt32 i) = Some i" | "Int32OK _ = None"

fun Int64OK :: "bson_value \<Rightarrow> i64 option" where
  "Int64OK (VInt64 i) = Some i" | "Int64OK _ = None"

fun BooleanOK :: "bson_value \<Rightarrow> bool option" where
  "BooleanOK (VBoolean b) = Some b" | "BooleanOK _ = None"

fun BinaryOK :: "bson_value \<Rightarrow> bytes option" where
  "BinaryOK (VBinary _ bs) = Some bs" | "BinaryOK _ = None"

section \<open>Errors\<close>

text \<open>
  The errors the code tells apart by their type: those of \<^verbatim>\<open>errors.New\<close> and \<^verbatim>\<open>fmt.Errorf\<close>, the
  driver's \<^verbatim>\<open>Error\<close> (message, labels, wrapped error), \<^verbatim>\<open>WriteConcernError\<close> and \<^verbatim>\<open>ConnectionError\<close>, a
  \<^verbatim>\<open>net.Error\<close> with its \<^verbatim>\<open>Timeout\<close>, and the two errors of a context.
\<close>

datatype go_error = ErrorString string
  | DriverError string "string list" "go_error option"
  | WriteConcernError string
  | ConnectionError "go_error option"
  | NetError string bool
  | ContextCanceled
  | ContextDeadlineExceeded

section \<open>The driver's functions\<close>

text \<open>A reader returns \<open>None\<close> where the Go function returns \<^verbatim>\<open>ok = false\<close>.\<close>

type_synonym 'a reader = "bytes \<Rightarrow> ('a \<times> bytes) option"
type_synonym 'a appender = "bytes \<Rightarrow> 'a \<Rightarrow> bytes"

record wire_read =
  ReadHeader :: "bytes \<Rightarrow> (i32 \<times> i32 \<times> i32 \<times> i32 \<times> bytes) option"
  ReadQueryFlags :: "i32 reader"
  ReadQueryFullCollectionName :: "string reader"
  ReadQueryNumberToSkip :: "i32 reader"
  ReadQueryNumberToReturn :: "i32 reader"
  ReadQueryQuery :: "document reader"
  ReadQueryReturnFieldsSelector :: "document reader"
  ReadMsgFlags :: "i32 reader"
  ReadMsgChecksum :: "i32 reader"
  ReadMsgSectionType :: "byte reader"
  ReadMsgSectionSingleDocument :: "document reader"
  ReadMsgSectionDocumentSequence :: "(string \<times> document list) reader"
  ReadReplyFlags :: "i32 reader"
  ReadReplyCursorID :: "i64 reader"
  ReadReplyStartingFrom :: "i32 reader"
  ReadReplyNumberReturned :: "i32 reader"
  ReadReplyDocuments :: "document list reader"
  ReadKillCursorsZero :: "i32 reader"
  ReadKillCursorsNumberIDs :: "i32 reader"
  ReadKillCursorsCursorIDs :: "bytes \<Rightarrow> i32 \<Rightarrow> (i64 list \<times> bytes) option"
  ReadDocument :: "document reader"

record wire_append =
  AppendHeaderStart :: "bytes \<Rightarrow> i32 \<Rightarrow> i32 \<Rightarrow> i32 \<Rightarrow> nat \<times> bytes"
  AppendQueryFlags :: "i32 appender"
  AppendQueryFullCollectionName :: "string appender"
  AppendQueryNumberToSkip :: "i32 appender"
  AppendQueryNumberToReturn :: "i32 appender"
  AppendMsgFlags :: "i32 appender"
  AppendMsgSectionType :: "byte appender"
  AppendReplyFlags :: "i32 appender"
  AppendReplyCursorID :: "i64 appender"
  AppendReplyStartingFrom :: "i32 appender"
  AppendReplyNumberReturned :: "i32 appender"
  AppendGetMoreZero :: "bytes \<Rightarrow> bytes"
  AppendGetMoreFullCollectionName :: "string appender"
  AppendGetMoreNumberToReturn :: "i32 appender"
  AppendGetMoreCursorID :: "i64 appender"
  AppendKillCursorsZero :: "bytes \<Rightarrow> bytes"
  AppendKillCursorsNumberIDs :: "i32 appender"
  AppendKillCursorsCursorIDs :: "i64 list appender"
  UpdateLength :: "bytes \<Rightarrow> nat \<Rightarrow> i32 \<Rightarrow> bytes"

record wire =
  wr :: wire_read
  wa :: wire_append
  Lookup :: "document \<Rightarrow> string list \<Rightarrow> bson_value"
  docString :: "document \<Rightarrow> string"
  queryFlagString :: "i32 \<Rightarrow> string"
  ExtractErrorFromServerResponse :: "document \<Rightarrow> go_error option"

section \<open>The byte helpers of operations.go\<close>

definition string_bytes :: "string \<Rightarrow> bytes" where
  "string_bytes s = map (\<lambda>c. of_nat (of_char c)) s"

definition bytes_string :: "bytes \<Rightarrow> string" where
  "bytes_string bs = map (\<lambda>b. char_of (unat b)) bs"

definition appendi32 :: "bytes \<Rightarrow> i32 \<Rightarrow> bytes" where
  "appendi32 dst i = dst @ [ucast i, ucast (signed_drop_bit 8 i), ucast (signed_drop_bit 16 i), ucast (signed_drop_bit 24 i)]"

definition appendCString :: "bytes \<Rightarrow> string \<Rightarrow> bytes" where
  "appendCString b str = (b @ string_bytes str) @ [0]"

definition readi32 :: "i32 reader" where
  "readi32 src =
     (if length src < 4 then None
      else Some (ucast (src ! 0) OR push_bit 8 (ucast (src ! 1)) OR push_bit 16 (ucast (src ! 2))
                 OR push_bit 24 (ucast (src ! 3)), drop 4 src))"

fun IndexByte :: "bytes \<Rightarrow> byte \<Rightarrow> nat option" where
  "IndexByte [] c = None"
| "IndexByte (b # bs) c = (if b = c then Some 0 else map_option Suc (IndexByte bs c))"

definition readCString :: "string reader" where
  "readCString src =
     (case IndexByte src 0 of
        None \<Rightarrow> None
      | Some idx \<Rightarrow> Some (bytes_string (take idx src), drop (idx + 1) src))"

subsection \<open>They are inverse to each other\<close>

lemma signed_drop_bit_byte:
  fixes x :: i32
  assumes "k + 8 \<le> 32"
  shows "ucast (signed_drop_bit k x) = (ucast (drop_bit k x) :: byte)"
  by (rule bit_word_eqI) (use assms in \<open>auto simp: bit_simps\<close>)

lemma i32_of_bytes:
  fixes x :: i32
  shows "ucast (ucast x :: byte) OR push_bit 8 (ucast (ucast (drop_bit 8 x) :: byte))
    OR push_bit 16 (ucast (ucast (drop_bit 16 x) :: byte)) OR push_bit 24 (ucast (ucast (drop_bit 24 x) :: byte)) = x"
    (is "?l = x")
proof (rule bit_word_eqI)
  fix n assume "n < LENGTH(32)"
  then consider "n < 8" | "8 \<le> n" "n < 16" | "16 \<le> n" "n < 24" | "24 \<le> n" "n < 32" by fastforce
  then show "bit ?l n = bit x n"
    by cases (auto simp: bit_simps)
qed

lemma appendi32_append: "appendi32 b i = b @ appendi32 [] i"
  by (simp add: appendi32_def)

lemma length_appendi32 [simp]: "length (appendi32 b i) = length b + 4"
  by (simp add: appendi32_def)

lemma readi32_appendi32 [simp]: "readi32 (appendi32 [] i @ rest) = Some (i, rest)"
  by (simp add: readi32_def appendi32_def signed_drop_bit_byte i32_of_bytes)

lemma readi32_zero_bytes [simp]: "readi32 (0 # 0 # 0 # 0 # rest) = Some (0, rest)"
  using readi32_appendi32 [of 0 rest] by (simp add: appendi32_def)

lemma string_bytes_append [simp]: "string_bytes (s @ t) = string_bytes s @ string_bytes t"
  by (simp add: string_bytes_def)

lemma length_string_bytes [simp]: "length (string_bytes s) = length s"
  by (simp add: string_bytes_def)

lemma unat_of_char [simp]: "unat (of_nat (of_char c) :: byte) = of_char c"
  by (simp add: unsigned_of_nat take_bit_eq_mod)

lemma bytes_string_bytes [simp]: "bytes_string (string_bytes s) = s"
  by (simp add: bytes_string_def string_bytes_def comp_def)

lemma IndexByte_append: "c \<notin> set p \<Longrightarrow> IndexByte (p @ c # s) c = Some (length p)"
  by (induction p) auto

abbreviation no_nul :: "string \<Rightarrow> bool" where
  "no_nul s \<equiv> CHR 0x00 \<notin> set s"

lemma zero_string_bytes: "no_nul s \<Longrightarrow> 0 \<notin> set (string_bytes s)"
proof
  assume "no_nul s" and "0 \<in> set (string_bytes s)"
  then obtain c where c: "c \<in> set s" "(of_nat (of_char c) :: byte) = 0" by (auto simp: string_bytes_def)
  then have "(of_char c :: nat) = 0" by (metis unat_of_char unsigned_0)
  then have "(of_char c :: nat) = of_char CHR 0x00" by simp
  then have "c = CHR 0x00" by (simp only: of_char_eq_iff)
  with c(1) \<open>no_nul s\<close> show False by simp
qed

lemma appendCString_append: "appendCString b s = b @ appendCString [] s"
  by (simp add: appendCString_def)

lemma length_appendCString [simp]: "length (appendCString b s) = length b + length s + 1"
  by (simp add: appendCString_def)

lemma readCString_appendCString [simp]:
  assumes "no_nul s"
  shows "readCString (appendCString [] s @ rest) = Some (s, rest)"
  using IndexByte_append [OF zero_string_bytes [OF assms], of rest]
  by (simp add: readCString_def appendCString_def)

section \<open>What the driver's functions are documented to do\<close>

definition codec :: "('a \<Rightarrow> bool) \<Rightarrow> 'a reader \<Rightarrow> 'a appender \<Rightarrow> bool" where
  "codec P rd ap \<longleftrightarrow>
     (\<forall>b v. ap b v = b @ ap [] v) \<and> (\<forall>v rest. P v \<longrightarrow> rd (ap [] v @ rest) = Some (v, rest))"

definition is_document :: "wire \<Rightarrow> document \<Rightarrow> bool" where
  "is_document w d \<longleftrightarrow> 5 \<le> length d \<and> (\<forall>rest. ReadDocument (wr w) (d @ rest) = Some (d, rest))"

text \<open>The bytes of a document sequence after its type: length, identifier, documents.\<close>

definition sequence_bytes :: "string \<Rightarrow> document list \<Rightarrow> bytes" where
  "sequence_bytes identifier msgs =
     appendCString (appendi32 [] (of_nat (length identifier + 5 + length (concat msgs)))) identifier @ concat msgs"

definition header_laws :: "wire \<Rightarrow> bool" where
  "header_laws w \<longleftrightarrow>
     (\<forall>reqID responseTo opCode. fst (AppendHeaderStart (wa w) [] reqID responseTo opCode) = 0) \<and>
     (\<forall>reqID responseTo opCode. length (snd (AppendHeaderStart (wa w) [] reqID responseTo opCode)) = 16) \<and>
     (\<forall>b idx n. idx + 4 \<le> length b \<longrightarrow> length (UpdateLength (wa w) b idx n) = length b) \<and>
     (\<forall>reqID responseTo opCode body n.
        ReadHeader (wr w) (UpdateLength (wa w) (snd (AppendHeaderStart (wa w) [] reqID responseTo opCode) @ body) 0 n)
        = Some (n, reqID, responseTo, opCode, body))"

definition query_laws :: "wire \<Rightarrow> bool" where
  "query_laws w \<longleftrightarrow>
     codec (\<lambda>_. True) (ReadQueryFlags (wr w)) (AppendQueryFlags (wa w)) \<and>
     codec no_nul (ReadQueryFullCollectionName (wr w)) (AppendQueryFullCollectionName (wa w)) \<and>
     codec (\<lambda>_. True) (ReadQueryNumberToSkip (wr w)) (AppendQueryNumberToSkip (wa w)) \<and>
     codec (\<lambda>_. True) (ReadQueryNumberToReturn (wr w)) (AppendQueryNumberToReturn (wa w)) \<and>
     ReadQueryQuery (wr w) = ReadDocument (wr w) \<and>
     ReadQueryReturnFieldsSelector (wr w) = ReadDocument (wr w)"

definition msg_laws :: "wire \<Rightarrow> bool" where
  "msg_laws w \<longleftrightarrow>
     codec (\<lambda>_. True) (ReadMsgFlags (wr w)) (AppendMsgFlags (wa w)) \<and>
     codec (\<lambda>_. True) (ReadMsgSectionType (wr w)) (AppendMsgSectionType (wa w)) \<and>
     (\<forall>t. length (AppendMsgSectionType (wa w) [] t) = 1) \<and>
     ReadMsgSectionSingleDocument (wr w) = ReadDocument (wr w) \<and>
     (\<forall>c rest. ReadMsgChecksum (wr w) (appendi32 [] c @ rest) = Some (c, rest)) \<and>
     (\<forall>identifier msgs rest.
        no_nul identifier \<longrightarrow> list_all (is_document w) msgs \<longrightarrow>
        length identifier + 5 + length (concat msgs) < 2 ^ 31 \<longrightarrow>
        ReadMsgSectionDocumentSequence (wr w) (sequence_bytes identifier msgs @ rest)
        = Some ((identifier, msgs), rest))"

definition reply_laws :: "wire \<Rightarrow> bool" where
  "reply_laws w \<longleftrightarrow>
     codec (\<lambda>_. True) (ReadReplyFlags (wr w)) (AppendReplyFlags (wa w)) \<and>
     codec (\<lambda>_. True) (ReadReplyCursorID (wr w)) (AppendReplyCursorID (wa w)) \<and>
     codec (\<lambda>_. True) (ReadReplyStartingFrom (wr w)) (AppendReplyStartingFrom (wa w)) \<and>
     codec (\<lambda>_. True) (ReadReplyNumberReturned (wr w)) (AppendReplyNumberReturned (wa w)) \<and>
     (\<forall>docs. list_all (is_document w) docs \<longrightarrow> ReadReplyDocuments (wr w) (concat docs) = Some (docs, []))"

definition cursor_laws :: "wire \<Rightarrow> bool" where
  "cursor_laws w \<longleftrightarrow>
     (\<forall>b. AppendGetMoreZero (wa w) b = b @ AppendGetMoreZero (wa w) []) \<and>
     (\<forall>rest. ReadKillCursorsZero (wr w) (AppendGetMoreZero (wa w) [] @ rest) = Some (0, rest)) \<and>
     codec no_nul (ReadQueryFullCollectionName (wr w)) (AppendGetMoreFullCollectionName (wa w)) \<and>
     codec (\<lambda>_. True) (ReadQueryNumberToReturn (wr w)) (AppendGetMoreNumberToReturn (wa w)) \<and>
     codec (\<lambda>_. True) (ReadReplyCursorID (wr w)) (AppendGetMoreCursorID (wa w)) \<and>
     (\<forall>b. AppendKillCursorsZero (wa w) b = b @ AppendKillCursorsZero (wa w) []) \<and>
     (\<forall>rest. ReadKillCursorsZero (wr w) (AppendKillCursorsZero (wa w) [] @ rest) = Some (0, rest)) \<and>
     codec (\<lambda>_. True) (ReadKillCursorsNumberIDs (wr w)) (AppendKillCursorsNumberIDs (wa w)) \<and>
     (\<forall>b ids. AppendKillCursorsCursorIDs (wa w) b ids = b @ AppendKillCursorsCursorIDs (wa w) [] ids) \<and>
     (\<forall>ids rest. length ids < 2 ^ 31 \<longrightarrow>
        ReadKillCursorsCursorIDs (wr w) (AppendKillCursorsCursorIDs (wa w) [] ids @ rest) (of_nat (length ids))
        = Some (ids, rest))"

definition wire_laws :: "wire \<Rightarrow> bool" where
  "wire_laws w \<longleftrightarrow> header_laws w \<and> query_laws w \<and> msg_laws w \<and> reply_laws w \<and> cursor_laws w"

text \<open>A successful read of a section leaves no more bytes than there were.\<close>

definition readers_consume :: "wire \<Rightarrow> bool" where
  "readers_consume w \<longleftrightarrow>
     (\<forall>bs v rest. ReadMsgChecksum (wr w) bs = Some (v, rest) \<longrightarrow> length rest < length bs) \<and>
     (\<forall>bs v rest. ReadMsgSectionType (wr w) bs = Some (v, rest) \<longrightarrow> length rest < length bs) \<and>
     (\<forall>bs v rest. ReadMsgSectionSingleDocument (wr w) bs = Some (v, rest) \<longrightarrow> length rest \<le> length bs) \<and>
     (\<forall>bs v rest. ReadMsgSectionDocumentSequence (wr w) bs = Some (v, rest) \<longrightarrow> length rest \<le> length bs)"

section \<open>The protocol satisfies the laws\<close>

definition appendi64 :: "bytes \<Rightarrow> i64 \<Rightarrow> bytes" where
  "appendi64 b x = appendi32 (appendi32 b (ucast x)) (ucast (drop_bit 32 x))"

definition readi64 :: "i64 reader" where
  "readi64 src =
     do { (lo, src) \<leftarrow> readi32 src;
          (hi, src) \<leftarrow> readi32 src;
          Some (ucast lo OR push_bit 32 (ucast hi), src) }"

definition read_document :: "document reader" where
  "read_document src =
     (case readi32 src of
        None \<Rightarrow> None
      | Some (n, _) \<Rightarrow>
          if 5 \<le> unat n \<and> unat n < 2 ^ 31 \<and> unat n \<le> length src then Some (take (unat n) src, drop (unat n) src) else None)"

fun read_documents :: "nat \<Rightarrow> bytes \<Rightarrow> document list option" where
  "read_documents fuel [] = Some []"
| "read_documents 0 (b # bs) = None"
| "read_documents (Suc fuel) (b # bs) =
     (case read_document (b # bs) of
        None \<Rightarrow> None
      | Some (d, rest) \<Rightarrow> map_option (Cons d) (read_documents fuel rest))"

definition read_sequence :: "(string \<times> document list) reader" where
  "read_sequence src =
     (case readi32 src of
        None \<Rightarrow> None
      | Some (n, body) \<Rightarrow>
          if unat n < 4 \<or> length src < unat n then None
          else (case readCString (take (unat n - 4) body) of
                  None \<Rightarrow> None
                | Some (identifier, docs) \<Rightarrow>
                    map_option (\<lambda>msgs. ((identifier, msgs), drop (unat n) src)) (read_documents (length docs) docs)))"

fun read_ids :: "nat \<Rightarrow> bytes \<Rightarrow> (i64 list \<times> bytes) option" where
  "read_ids 0 src = Some ([], src)"
| "read_ids (Suc n) src =
     (case readi64 src of
        None \<Rightarrow> None
      | Some (i, src) \<Rightarrow> map_option (map_prod (Cons i) id) (read_ids n src))"

definition std_read :: wire_read where
  "std_read =
     \<lparr>ReadHeader = (\<lambda>bs. do { (len, bs) \<leftarrow> readi32 bs; (reqID, bs) \<leftarrow> readi32 bs; (resp, bs) \<leftarrow> readi32 bs;
                              (opCode, bs) \<leftarrow> readi32 bs; Some (len, reqID, resp, opCode, bs) }),
      ReadQueryFlags = readi32, ReadQueryFullCollectionName = readCString, ReadQueryNumberToSkip = readi32,
      ReadQueryNumberToReturn = readi32, ReadQueryQuery = read_document,
      ReadQueryReturnFieldsSelector = read_document, ReadMsgFlags = readi32, ReadMsgChecksum = readi32,
      ReadMsgSectionType = (\<lambda>bs. case bs of [] \<Rightarrow> None | t # rest \<Rightarrow> Some (t, rest)),
      ReadMsgSectionSingleDocument = read_document, ReadMsgSectionDocumentSequence = read_sequence,
      ReadReplyFlags = readi32, ReadReplyCursorID = readi64, ReadReplyStartingFrom = readi32,
      ReadReplyNumberReturned = readi32,
      ReadReplyDocuments = (\<lambda>bs. map_option (\<lambda>docs. (docs, [])) (read_documents (length bs) bs)),
      ReadKillCursorsZero = readi32, ReadKillCursorsNumberIDs = readi32,
      ReadKillCursorsCursorIDs = (\<lambda>bs n. read_ids (unat n) bs), ReadDocument = read_document\<rparr>"

definition std_append :: wire_append where
  "std_append =
     \<lparr>AppendHeaderStart = (\<lambda>b reqID resp opCode.
        (length b, appendi32 (appendi32 (appendi32 (appendi32 b 0) reqID) resp) opCode)),
      AppendQueryFlags = appendi32, AppendQueryFullCollectionName = appendCString,
      AppendQueryNumberToSkip = appendi32, AppendQueryNumberToReturn = appendi32, AppendMsgFlags = appendi32,
      AppendMsgSectionType = (\<lambda>b t. b @ [t]), AppendReplyFlags = appendi32, AppendReplyCursorID = appendi64,
      AppendReplyStartingFrom = appendi32, AppendReplyNumberReturned = appendi32,
      AppendGetMoreZero = (\<lambda>b. appendi32 b 0), AppendGetMoreFullCollectionName = appendCString,
      AppendGetMoreNumberToReturn = appendi32, AppendGetMoreCursorID = appendi64,
      AppendKillCursorsZero = (\<lambda>b. appendi32 b 0), AppendKillCursorsNumberIDs = appendi32,
      AppendKillCursorsCursorIDs = (\<lambda>b ids. b @ concat (map (appendi64 []) ids)),
      UpdateLength = (\<lambda>b idx n. take idx b @ appendi32 [] n @ drop (idx + 4) b)\<rparr>"

definition std_wire :: wire where
  "std_wire =
     \<lparr>wr = std_read, wa = std_append, Lookup = (\<lambda>_ _. VMissing), docString = (\<lambda>_. ''{}''),
      queryFlagString = (\<lambda>_. ''''), ExtractErrorFromServerResponse = (\<lambda>_. None)\<rparr>"

lemma std_wire_sel [simp]: "wr std_wire = std_read" "wa std_wire = std_append"
  by (simp_all add: std_wire_def)

lemma codec_i32 [simp]: "codec (\<lambda>_. True) readi32 appendi32"
  by (simp add: codec_def appendi32_append [symmetric])

lemma codec_CString [simp]: "codec no_nul readCString appendCString"
  by (simp add: codec_def appendCString_append [symmetric])

lemma i64_of_halves:
  fixes x :: i64
  shows "ucast (ucast x :: i32) OR push_bit 32 (ucast (ucast (drop_bit 32 x) :: i32)) = x"
    (is "?l = x")
proof (rule bit_word_eqI)
  fix n assume "n < LENGTH(64)"
  then consider "n < 32" | "32 \<le> n" "n < 64" by fastforce
  then show "bit ?l n = bit x n" by cases (auto simp: bit_simps)
qed

lemma appendi64_halves: "appendi64 b x = b @ appendi32 [] (ucast x) @ appendi32 [] (ucast (drop_bit 32 x))"
  by (simp add: appendi64_def appendi32_append [of b] appendi32_append [of "_ @ _"])

lemma readi64_appendi64 [simp]: "readi64 (appendi64 [] x @ rest) = Some (x, rest)"
  by (simp add: appendi64_halves readi64_def i64_of_halves)

lemma codec_i64 [simp]: "codec (\<lambda>_. True) readi64 appendi64"
  by (simp add: codec_def) (simp add: appendi64_halves)

lemma read_ids_append: "read_ids (length ids) (concat (map (appendi64 []) ids) @ rest) = Some (ids, rest)"
  by (induction ids) simp_all

lemma read_document_length: "read_document src = Some (d, rest) \<Longrightarrow> src = d @ rest \<and> 5 \<le> length d"
  by (auto simp: read_document_def split: option.splits if_splits)

lemma is_document_std: "is_document std_wire d \<longleftrightarrow> read_document d = Some (d, [])"
proof
  assume "is_document std_wire d"
  then have "\<forall>rest. read_document (d @ rest) = Some (d, rest)" by (simp add: is_document_def std_read_def)
  from this [THEN spec, of "[]"] show "read_document d = Some (d, [])" by simp
next
  assume d: "read_document d = Some (d, [])"
  then obtain n m where n: "readi32 d = Some (n, m)" "5 \<le> unat n" "unat n < 2 ^ 31" "unat n = length d"
    by (auto simp: read_document_def split: option.splits if_splits)
  then have "readi32 (d @ rest) = Some (n, m @ rest)" for rest
    by (auto simp: readi32_def nth_append split: if_splits)
  with n have "read_document (d @ rest) = Some (d, rest)" for rest by (simp add: read_document_def)
  then show "is_document std_wire d" using n by (simp add: is_document_def std_read_def)
qed

lemma read_documents_concat:
  "list_all (is_document std_wire) docs \<Longrightarrow> length (concat docs) \<le> fuel \<Longrightarrow>
   read_documents fuel (concat docs) = Some docs"
proof (induction docs arbitrary: fuel)
  case (Cons d docs)
  then have d: "5 \<le> length d" "read_document (d @ concat docs) = Some (d, concat docs)"
    by (simp_all add: is_document_def std_read_def)
  then obtain b bs where b: "d @ concat docs = b # bs" by (cases d) auto
  obtain f where f: "fuel = Suc f" using Cons.prems(2) d(1) by (cases fuel) auto
  have "read_documents f (concat docs) = Some docs"
    using Cons.prems d(1) f by (intro Cons.IH) auto
  with d(2) b f show ?case by simp
qed simp

lemma read_sequence_bytes:
  assumes "no_nul identifier" and "list_all (is_document std_wire) msgs"
    and "length identifier + 5 + length (concat msgs) < 2 ^ 31"
  shows "read_sequence (sequence_bytes identifier msgs @ rest) = Some ((identifier, msgs), rest)"
proof -
  define n where "n = length identifier + 5 + length (concat msgs)"
  define body where "body = appendCString [] identifier @ concat msgs"
  have seq: "sequence_bytes identifier msgs = appendi32 [] (of_nat n) @ body"
    by (simp add: sequence_bytes_def body_def appendCString_append [of "appendi32 _ _"] n_def)
  have len: "length body = n - 4" "4 \<le> n" by (simp_all add: body_def n_def)
  have un: "unat (of_nat n :: i32) = n" using assms(3) unfolding n_def [symmetric] by (simp add: unsigned_of_nat take_bit_nat_eq_self)
  have "readCString body = Some (identifier, concat msgs)"
    using assms(1) by (simp add: body_def)
  moreover have "read_documents (length (concat msgs)) (concat msgs) = Some msgs"
    by (rule read_documents_concat [OF assms(2)]) simp
  moreover have "length (appendi32 [] (of_nat n) @ body @ rest) \<ge> n" "drop n (appendi32 [] (of_nat n) @ body @ rest) = rest"
    using len by simp_all
  ultimately show ?thesis
    unfolding read_sequence_def seq append_assoc readi32_appendi32
    using un len by simp
qed

lemma std_wire_laws: "wire_laws std_wire"
proof -
  have "header_laws std_wire"
    by (simp add: header_laws_def std_read_def std_append_def) (simp add: appendi32_append [of "appendi32 _ _"] appendi32_append [of "_ @ _"])
  moreover have "query_laws std_wire" by (simp add: query_laws_def std_read_def std_append_def)
  moreover have "msg_laws std_wire"
    using read_sequence_bytes
    by (simp add: msg_laws_def std_read_def std_append_def codec_def appendi32_append [symmetric])
  moreover have "reply_laws std_wire"
    using read_documents_concat by (simp add: reply_laws_def std_read_def std_append_def)
  moreover have "cursor_laws std_wire"
  proof -
    have "read_ids (unat (of_nat (length ids) :: i32)) (concat (map (appendi64 []) ids) @ rest) = Some (ids, rest)"
      if "length ids < 2 ^ 31" for ids rest
      using that read_ids_append [of ids rest] by (simp add: unsigned_of_nat take_bit_nat_eq_self)
    then show ?thesis
      by (simp add: cursor_laws_def std_read_def std_append_def appendi32_append [symmetric])
  qed
  ultimately show ?thesis by (simp add: wire_laws_def)
qed

lemma std_wire_consumes: "readers_consume std_wire"
proof -
  have "length rest < length bs" if "readi32 bs = Some (v, rest)" for bs v rest
    using that by (auto simp: readi32_def split: if_splits)
  moreover have "length rest \<le> length bs" if "read_sequence bs = Some (v, rest)" for bs v rest
    using that by (auto simp: read_sequence_def split: option.splits if_splits)
  ultimately show ?thesis
    using read_document_length
    by (auto simp: readers_consume_def std_read_def split: list.splits) fastforce
qed

end
