(* ===== verification/Operations.thy ===== *)
theory Operations
  imports Wire
begin

text \<open>
  The message layer, \<^verbatim>\<open>src/mongo/command.go\<close> and \<^verbatim>\<open>src/mongo/operations.go\<close>: the operations of
  the wire protocol, their decoders and encoders, and what the proxy asks of an operation.
  Each operation type of the source is a record; the interface \<^verbatim>\<open>Operation\<close> is the datatype
  of the types that implement it, and the methods of one type are the record \<open>Operation_methods\<close>
  that \<open>methods\<close> looks up, as Go looks up an interface's method table.

  \<open>decodeMsg\<close> loops as long as bytes are left; it is a \<^theory_text>\<open>partial_function\<close>, whose \<open>None\<close> is a loop
  that does not end. Shown here: decoding returns on every input when the readers consume
  bytes; decoding what was encoded gives the operation back, for all types but one.
\<close>

section \<open>Commands\<close>

datatype Command = Unknown | AbortTransaction | Aggregate | CommitTransaction | Count | CreateIndexes
  | Delete | Distinct | Drop | DropDatabase | DropIndexes | EndSessions | Find | FindAndModify | GetMore
  | Insert | IsMaster | Ismaster | ListCollections | ListIndexes | ListDatabases | MapReduce | Update
  | BuildInfo | AtlasVersion | GetParameter

fun Command_string :: "Command \<Rightarrow> string" where
  "Command_string Unknown = ''unknown''"
| "Command_string AbortTransaction = ''abortTransaction''"
| "Command_string Aggregate = ''aggregate''"
| "Command_string CommitTransaction = ''commitTransaction''"
| "Command_string Count = ''count''"
| "Command_string CreateIndexes = ''createIndexes''"
| "Command_string Delete = ''delete''"
| "Command_string Distinct = ''distinct''"
| "Command_string Drop = ''drop''"
| "Command_string DropDatabase = ''dropDatabase''"
| "Command_string DropIndexes = ''dropIndexes''"
| "Command_string EndSessions = ''endSessions''"
| "Command_string Find = ''find''"
| "Command_string FindAndModify = ''findAndModify''"
| "Command_string GetMore = ''getMore''"
| "Command_string Insert = ''insert''"
| "Command_string IsMaster = ''isMaster''"
| "Command_string Ismaster = ''ismaster''"
| "Command_string ListCollections = ''listCollections''"
| "Command_string ListIndexes = ''listIndexes''"
| "Command_string ListDatabases = ''listDatabases''"
| "Command_string MapReduce = ''mapReduce''"
| "Command_string Update = ''update''"
| "Command_string BuildInfo = ''buildInfo''"
| "Command_string AtlasVersion = ''atlasVersion''"
| "Command_string GetParameter = ''getParameter''"

definition collectionCommands :: "Command list" where
  "collectionCommands = [Aggregate, Count, CreateIndexes, Delete, Distinct, Drop, DropIndexes, Find,
     FindAndModify, Insert, ListIndexes, MapReduce, Update]"

definition int32Commands :: "Command list" where
  "int32Commands = [AbortTransaction, Aggregate, CommitTransaction, DropDatabase, IsMaster, Ismaster,
     ListCollections, ListDatabases, BuildInfo, AtlasVersion, GetParameter]"

definition int64Commands :: "Command list" where
  "int64Commands = [GetMore]"

definition arrayCommands :: "Command list" where
  "arrayCommands = [EndSessions]"

definition IsWrite :: "Command \<Rightarrow> bool" where
  "IsWrite command \<longleftrightarrow> command \<in> {CommitTransaction, CreateIndexes, Delete, Drop, DropIndexes, DropDatabase,
     FindAndModify, Insert, Update}"

definition doc_CommandAndCollection :: "wire \<Rightarrow> document \<Rightarrow> Command \<times> string" where
  "doc_CommandAndCollection w msg =
     (let lookup = (\<lambda>s. Lookup w msg [Command_string s]);
          present = (\<lambda>s. lookup s \<noteq> VMissing)
      in case find (\<lambda>s. StringValueOK (lookup s) \<noteq> None) collectionCommands of
           Some s \<Rightarrow> (s, the (StringValueOK (lookup s)))
         | None \<Rightarrow>
             (case find present int32Commands of
                Some s \<Rightarrow> (s, '''')
              | None \<Rightarrow>
                  (case find present int64Commands of
                     Some s \<Rightarrow>
                       (case StringValueOK (Lookup w msg [''collection'']) of
                          Some coll \<Rightarrow> (s, coll)
                        | None \<Rightarrow> (s, ''''))
                   | None \<Rightarrow>
                       (case find present arrayCommands of
                          Some s \<Rightarrow> (s, '''')
                        | None \<Rightarrow> (Unknown, '''')))))"

text \<open>\<^verbatim>\<open>Int32OK\<close> returns zero where it is not ok.\<close>

definition IsIsMasterValueTruthy :: "bson_value \<Rightarrow> bool" where
  "IsIsMasterValueTruthy val =
     (let (intValue, isInt) = (case Int32OK val of Some i \<Rightarrow> (i, True) | None \<Rightarrow> (0, False))
      in if 0 <s intValue then True
         else if \<not> isInt then (case BooleanOK val of Some boolValue \<Rightarrow> boolValue | None \<Rightarrow> False)
         else False)"

definition IsIsMasterDoc :: "wire \<Rightarrow> document \<Rightarrow> bool" where
  "IsIsMasterDoc w doc =
     (IsIsMasterValueTruthy (Lookup w doc [Command_string IsMaster]) \<or>
      IsIsMasterValueTruthy (Lookup w doc [Command_string Ismaster]) \<or>
      IsIsMasterValueTruthy (Lookup w doc [Command_string BuildInfo]))"

section \<open>The operations\<close>

record TransactionDetails =
  LsID :: bytes
  TxnNumber :: int
  IsStartTransaction :: bool
  Autocommit :: bool

record opUnknown =
  n_opCode :: i32
  n_reqID :: i32
  n_wm :: bytes

record opQuery =
  q_reqID :: i32
  q_flags :: i32
  q_fullCollectionName :: string
  q_numberToSkip :: i32
  q_numberToReturn :: i32
  q_query :: document
  q_returnFieldsSelector :: document

datatype opMsgSection = opMsgSectionSingle document | opMsgSectionSequence string "document list"

record opMsg =
  m_reqID :: i32
  m_flags :: i32
  m_sections :: "opMsgSection list"
  m_checksum :: i32

record opReply =
  r_reqID :: i32
  r_flags :: i32
  r_cursorID :: i64
  r_startingFrom :: i32
  r_numReturned :: i32
  r_documents :: "document list"

record opGetMore =
  g_reqID :: i32
  g_fullCollectionName :: string
  g_numberToReturn :: i32
  g_cursorID :: i64

record opUpdate =
  u_reqID :: i32
  u_fullCollectionName :: string
  u_flags :: i32
  u_selector :: document
  u_update :: document

record opInsert =
  i_reqID :: i32
  i_flags :: i32
  i_fullCollectionName :: string
  i_documents :: "document list"

record opDelete =
  d_reqID :: i32
  d_fullCollectionName :: string
  d_flags :: i32
  d_selector :: document

record opKillCursors =
  k_reqID :: i32
  k_cursorIDs :: "i64 list"

datatype Operation = Op_Unknown opUnknown | Op_Query opQuery | Op_Msg opMsg | Op_Reply opReply
  | Op_GetMore opGetMore | Op_Update opUpdate | Op_Insert opInsert | Op_Delete opDelete
  | Op_KillCursors opKillCursors

section \<open>Decoding\<close>

definition if_ok :: "'a option \<Rightarrow> string \<Rightarrow> ('a \<Rightarrow> string + 'b) \<Rightarrow> string + 'b" where
  "if_ok r msg k = (case r of None \<Rightarrow> Inl msg | Some x \<Rightarrow> k x)"

lemma if_ok_Some [simp]: "if_ok (Some x) msg k = k x"
  by (simp add: if_ok_def)

lemma if_ok_None [simp]: "if_ok None msg k = Inl msg"
  by (simp add: if_ok_def)

definition decodeQuery :: "wire \<Rightarrow> i32 \<Rightarrow> bytes \<Rightarrow> string + opQuery" where
  "decodeQuery w reqID wm =
     if_ok (ReadQueryFlags (wr w) wm) ''malformed query message: missing OP_QUERY flags'' (\<lambda>(flags, wm).
     if_ok (ReadQueryFullCollectionName (wr w) wm) ''malformed query message: full collection name'' (\<lambda>(name, wm).
     if_ok (ReadQueryNumberToSkip (wr w) wm) ''malformed query message: number to skip'' (\<lambda>(skip, wm).
     if_ok (ReadQueryNumberToReturn (wr w) wm) ''malformed query message: number to return'' (\<lambda>(ret, wm).
     if_ok (ReadQueryQuery (wr w) wm) ''malformed query message: query document'' (\<lambda>(query, wm).
       let q = \<lparr>q_reqID = reqID, q_flags = flags, q_fullCollectionName = name, q_numberToSkip = skip,
                q_numberToReturn = ret, q_query = query, q_returnFieldsSelector = []\<rparr>
       in if length wm > 0 then
            if_ok (ReadQueryReturnFieldsSelector (wr w) wm) ''malformed query message: return fields selector''
              (\<lambda>(sel, _). Inr (q\<lparr>q_returnFieldsSelector := sel\<rparr>))
          else Inr q)))))"

partial_function (option) decodeMsg_loop :: "wire \<Rightarrow> bool \<Rightarrow> bytes \<Rightarrow> opMsg \<Rightarrow> (string + opMsg) option" where
  "decodeMsg_loop w checksumPresent wm m =
     (if length wm > 0 then
        if checksumPresent \<and> length wm = 4 then
          (case ReadMsgChecksum (wr w) wm of
             None \<Rightarrow> Some (Inl ''malformed wire message: insufficient bytes to read checksum'')
           | Some (checksum, wm) \<Rightarrow> decodeMsg_loop w checksumPresent wm (m\<lparr>m_checksum := checksum\<rparr>))
        else
          (case ReadMsgSectionType (wr w) wm of
             None \<Rightarrow> Some (Inl ''malformed wire message: insufficient bytes to read section type'')
           | Some (stype, wm) \<Rightarrow>
               if stype = SingleDocument then
                 (case ReadMsgSectionSingleDocument (wr w) wm of
                    None \<Rightarrow> Some (Inl ''malformed wire message: insufficient bytes to read single document'')
                  | Some (msg, wm) \<Rightarrow>
                      decodeMsg_loop w checksumPresent wm (m\<lparr>m_sections := m_sections m @ [opMsgSectionSingle msg]\<rparr>))
               else if stype = DocumentSequence then
                 (case ReadMsgSectionDocumentSequence (wr w) wm of
                    None \<Rightarrow> Some (Inl ''malformed wire message: insufficient bytes to read document sequence'')
                  | Some ((identifier, msgs), wm) \<Rightarrow>
                      decodeMsg_loop w checksumPresent wm
                        (m\<lparr>m_sections := m_sections m @ [opMsgSectionSequence identifier msgs]\<rparr>))
               else Some (Inl (''malformed wire message: unknown section type '' @ show_nat (unat stype))))
      else Some (Inr m))"

definition decodeMsg :: "wire \<Rightarrow> i32 \<Rightarrow> bytes \<Rightarrow> (string + opMsg) option" where
  "decodeMsg w reqID wm =
     (case ReadMsgFlags (wr w) wm of
        None \<Rightarrow> Some (Inl ''malformed wire message: missing OP_MSG flags'')
      | Some (flags, wm) \<Rightarrow>
          decodeMsg_loop w (ChecksumPresent flags) wm
            \<lparr>m_reqID = reqID, m_flags = flags, m_sections = [], m_checksum = 0\<rparr>)"

definition decodeReply :: "wire \<Rightarrow> i32 \<Rightarrow> bytes \<Rightarrow> string + opReply" where
  "decodeReply w reqID wm =
     if_ok (ReadReplyFlags (wr w) wm) ''malformed reply message: missing OP_REPLY flags'' (\<lambda>(flags, wm).
     if_ok (ReadReplyCursorID (wr w) wm) ''malformed reply message: cursor id'' (\<lambda>(cursor, wm).
     if_ok (ReadReplyStartingFrom (wr w) wm) ''malformed reply message: starting from'' (\<lambda>(start, wm).
     if_ok (ReadReplyNumberReturned (wr w) wm) ''malformed reply message: number returned'' (\<lambda>(num, wm).
     if_ok (ReadReplyDocuments (wr w) wm) ''malformed reply message: could not read documents from reply'' (\<lambda>(docs, _).
       Inr \<lparr>r_reqID = reqID, r_flags = flags, r_cursorID = cursor, r_startingFrom = start,
            r_numReturned = num, r_documents = docs\<rparr>)))))"

definition decodeGetMore :: "wire \<Rightarrow> i32 \<Rightarrow> bytes \<Rightarrow> string + opGetMore" where
  "decodeGetMore w reqID wm =
     if_ok (ReadKillCursorsZero (wr w) wm) ''malformed get_more message: missing zero'' (\<lambda>(_, wm).
     if_ok (ReadQueryFullCollectionName (wr w) wm) ''malformed get_more message: missing full collection name'' (\<lambda>(name, wm).
     if_ok (ReadQueryNumberToReturn (wr w) wm) ''malformed get_more message: missing number to return'' (\<lambda>(ret, wm).
     if_ok (ReadReplyCursorID (wr w) wm) ''malformed get_more message: missing cursorID'' (\<lambda>(cursor, _).
       Inr \<lparr>g_reqID = reqID, g_fullCollectionName = name, g_numberToReturn = ret, g_cursorID = cursor\<rparr>))))"

definition decodeUpdate :: "wire \<Rightarrow> i32 \<Rightarrow> bytes \<Rightarrow> string + opUpdate" where
  "decodeUpdate w reqID wm =
     if_ok (readCString wm) ''malformed update message: full collection name'' (\<lambda>(name, wm).
     if_ok (readi32 wm) ''malformed update message: missing OP_UPDATE flags'' (\<lambda>(flags, wm).
     if_ok (ReadDocument (wr w) wm) ''malformed update message: selector document'' (\<lambda>(selector, wm).
     if_ok (ReadDocument (wr w) wm) ''malformed update message: update document'' (\<lambda>(update, _).
       Inr \<lparr>u_reqID = reqID, u_fullCollectionName = name, u_flags = flags, u_selector = selector,
            u_update = update\<rparr>))))"

definition decodeInsert :: "wire \<Rightarrow> i32 \<Rightarrow> bytes \<Rightarrow> string + opInsert" where
  "decodeInsert w reqID wm =
     if_ok (readi32 wm) ''malformed insert message: missing OP_INSERT flags'' (\<lambda>(flags, wm).
     if_ok (readCString wm) ''malformed insert message: full collection name'' (\<lambda>(name, wm).
     if_ok (ReadReplyDocuments (wr w) wm) ''malformed insert message: could not read documents'' (\<lambda>(docs, _).
       Inr \<lparr>i_reqID = reqID, i_flags = flags, i_fullCollectionName = name, i_documents = docs\<rparr>)))"

definition decodeDelete :: "wire \<Rightarrow> i32 \<Rightarrow> bytes \<Rightarrow> string + opDelete" where
  "decodeDelete w reqID wm =
     if_ok (readi32 wm) ''malformed delete message: missing zero'' (\<lambda>(_, wm).
     if_ok (readCString wm) ''malformed delete message: full collection name'' (\<lambda>(name, wm).
     if_ok (readi32 wm) ''malformed delete message: missing OP_DELETE flags'' (\<lambda>(flags, wm).
     if_ok (ReadDocument (wr w) wm) ''malformed delete message: selector document'' (\<lambda>(selector, _).
       Inr \<lparr>d_reqID = reqID, d_fullCollectionName = name, d_flags = flags, d_selector = selector\<rparr>))))"

definition decodeKillCursors :: "wire \<Rightarrow> i32 \<Rightarrow> bytes \<Rightarrow> string + opKillCursors" where
  "decodeKillCursors w reqID wm =
     if_ok (ReadKillCursorsZero (wr w) wm) ''malformed kill_cursors message: missing zero'' (\<lambda>(_, wm).
     if_ok (ReadKillCursorsNumberIDs (wr w) wm) ''malformed kill_cursors message: missing number of cursor IDs'' (\<lambda>(numIDs, wm).
     if_ok (ReadKillCursorsCursorIDs (wr w) wm numIDs) ''malformed kill_cursors message: missing cursor IDs'' (\<lambda>(ids, _).
       Inr \<lparr>k_reqID = reqID, k_cursorIDs = ids\<rparr>)))"

definition Decode :: "wire \<Rightarrow> bytes \<Rightarrow> (string + Operation) option" where
  "Decode w wm =
     (let wmLength = length wm
      in case ReadHeader (wr w) wm of
           None \<Rightarrow> Some (Inl ''malformed wire message: insufficient bytes'')
         | Some (len, reqID, _, opCode, wmBody) \<Rightarrow>
             if sint len > int wmLength then Some (Inl ''malformed wire message: insufficient bytes'')
             else if opCode = OpQuery then Some (map_sum id Op_Query (decodeQuery w reqID wmBody))
             else if opCode = OpMsg then map_option (map_sum id Op_Msg) (decodeMsg w reqID wmBody)
             else if opCode = OpReply then Some (map_sum id Op_Reply (decodeReply w reqID wmBody))
             else if opCode = OpGetMore then Some (map_sum id Op_GetMore (decodeGetMore w reqID wmBody))
             else if opCode = OpUpdate then Some (map_sum id Op_Update (decodeUpdate w reqID wmBody))
             else if opCode = OpInsert then Some (map_sum id Op_Insert (decodeInsert w reqID wmBody))
             else if opCode = OpDelete then Some (map_sum id Op_Delete (decodeDelete w reqID wmBody))
             else if opCode = OpKillCursors then Some (map_sum id Op_KillCursors (decodeKillCursors w reqID wmBody))
             else Some (Inr (Op_Unknown \<lparr>n_opCode = opCode, n_reqID = reqID, n_wm = wm\<rparr>)))"

section \<open>Encoding\<close>

definition setLength :: "wire \<Rightarrow> nat \<Rightarrow> bytes \<Rightarrow> bytes" where
  "setLength w idx buffer = UpdateLength (wa w) buffer idx (of_nat (length (drop idx buffer)))"

definition opQuery_Encode :: "wire \<Rightarrow> opQuery \<Rightarrow> i32 \<Rightarrow> bytes" where
  "opQuery_Encode w q responseTo =
     (let (idx, buffer) = AppendHeaderStart (wa w) [] 0 responseTo OpQuery;
          buffer = AppendQueryFlags (wa w) buffer (q_flags q);
          buffer = AppendQueryFullCollectionName (wa w) buffer (q_fullCollectionName q);
          buffer = AppendQueryNumberToSkip (wa w) buffer (q_numberToSkip q);
          buffer = AppendQueryNumberToReturn (wa w) buffer (q_numberToReturn q);
          buffer = buffer @ q_query q;
          buffer = (if length (q_returnFieldsSelector q) \<noteq> 0 then buffer @ q_returnFieldsSelector q else buffer)
      in setLength w idx buffer)"

fun opMsgSection_append :: "wire \<Rightarrow> opMsgSection \<Rightarrow> bytes \<Rightarrow> bytes" where
  "opMsgSection_append w (opMsgSectionSingle msg) buffer =
     AppendMsgSectionType (wa w) buffer SingleDocument @ msg"
| "opMsgSection_append w (opMsgSectionSequence identifier msgs) buffer =
     (let buffer = AppendMsgSectionType (wa w) buffer DocumentSequence;
          len = fold (\<lambda>msg len. len + of_nat (length msg)) msgs (of_nat (length identifier + 5));
          buffer = appendi32 buffer len;
          buffer = appendCString buffer identifier
      in fold (\<lambda>msg buffer. buffer @ msg) msgs buffer)"

definition opMsg_Encode :: "wire \<Rightarrow> opMsg \<Rightarrow> i32 \<Rightarrow> bytes" where
  "opMsg_Encode w m responseTo =
     (let (idx, buffer) = AppendHeaderStart (wa w) [] 0 responseTo OpMsg;
          buffer = AppendMsgFlags (wa w) buffer (m_flags m);
          buffer = fold (opMsgSection_append w) (m_sections m) buffer;
          buffer = (if ChecksumPresent (m_flags m) then appendi32 buffer (m_checksum m) else buffer)
      in setLength w idx buffer)"

definition opReply_Encode :: "wire \<Rightarrow> opReply \<Rightarrow> i32 \<Rightarrow> bytes" where
  "opReply_Encode w r responseTo =
     (let (idx, buffer) = AppendHeaderStart (wa w) [] 0 responseTo OpReply;
          buffer = AppendReplyFlags (wa w) buffer (r_flags r);
          buffer = AppendReplyCursorID (wa w) buffer (r_cursorID r);
          buffer = AppendReplyStartingFrom (wa w) buffer (r_startingFrom r);
          buffer = AppendReplyNumberReturned (wa w) buffer (r_numReturned r);
          buffer = fold (\<lambda>doc buffer. buffer @ doc) (r_documents r) buffer
      in setLength w idx buffer)"

definition opGetMore_Encode :: "wire \<Rightarrow> opGetMore \<Rightarrow> i32 \<Rightarrow> bytes" where
  "opGetMore_Encode w g responseTo =
     (let (idx, buffer) = AppendHeaderStart (wa w) [] 0 responseTo OpGetMore;
          buffer = AppendGetMoreZero (wa w) buffer;
          buffer = AppendGetMoreFullCollectionName (wa w) buffer (g_fullCollectionName g);
          buffer = AppendGetMoreNumberToReturn (wa w) buffer (g_numberToReturn g);
          buffer = AppendGetMoreCursorID (wa w) buffer (g_cursorID g)
      in setLength w idx buffer)"

definition opUpdate_Encode :: "wire \<Rightarrow> opUpdate \<Rightarrow> i32 \<Rightarrow> bytes" where
  "opUpdate_Encode w u responseTo =
     (let (idx, buffer) = AppendHeaderStart (wa w) [] 0 responseTo OpUpdate;
          buffer = appendCString buffer (u_fullCollectionName u);
          buffer = appendi32 buffer (u_flags u);
          buffer = buffer @ u_selector u;
          buffer = buffer @ u_update u
      in setLength w idx buffer)"

definition opInsert_Encode :: "wire \<Rightarrow> opInsert \<Rightarrow> i32 \<Rightarrow> bytes" where
  "opInsert_Encode w i responseTo =
     (let (idx, buffer) = AppendHeaderStart (wa w) [] 0 responseTo OpInsert;
          buffer = appendi32 buffer (i_flags i);
          buffer = appendCString buffer (i_fullCollectionName i);
          buffer = fold (\<lambda>doc buffer. buffer @ doc) (i_documents i) buffer
      in setLength w idx buffer)"

definition opDelete_Encode :: "wire \<Rightarrow> opDelete \<Rightarrow> i32 \<Rightarrow> bytes" where
  "opDelete_Encode w d responseTo =
     (let (idx, buffer) = AppendHeaderStart (wa w) [] 0 responseTo OpDelete;
          buffer = appendCString buffer (d_fullCollectionName d);
          buffer = appendi32 buffer (d_flags d);
          buffer = buffer @ d_selector d
      in setLength w idx buffer)"

definition opKillCursors_Encode :: "wire \<Rightarrow> opKillCursors \<Rightarrow> i32 \<Rightarrow> bytes" where
  "opKillCursors_Encode w k responseTo =
     (let (idx, buffer) = AppendHeaderStart (wa w) [] 0 responseTo OpKillCursors;
          buffer = AppendKillCursorsZero (wa w) buffer;
          buffer = AppendKillCursorsNumberIDs (wa w) buffer (of_nat (length (k_cursorIDs k)));
          buffer = AppendKillCursorsCursorIDs (wa w) buffer (k_cursorIDs k)
      in setLength w idx buffer)"

section \<open>The methods of an operation\<close>

record Operation_methods =
  om_OpCode :: i32
  om_Encode :: "i32 \<Rightarrow> bytes"
  om_IsIsMaster :: bool
  om_CursorID :: "i64 option"
  om_RequestID :: i32
  om_Error :: "go_error option"
  om_Unacknowledged :: bool
  om_CommandAndCollection :: "Command \<times> string"
  om_TransactionDetails :: "TransactionDetails option"
  om_DatabaseName :: string
  om_String :: string

definition comma_separated :: "string list \<Rightarrow> string" where
  "comma_separated ss = concat (case ss of [] \<Rightarrow> [] | s # ss \<Rightarrow> s # map (\<lambda>s. '', '' @ s) ss)"

definition opUnknown_methods :: "opUnknown \<Rightarrow> Operation_methods" where
  "opUnknown_methods n =
     \<lparr>om_OpCode = n_opCode n, om_Encode = (\<lambda>responseTo. n_wm n), om_IsIsMaster = False, om_CursorID = None,
      om_RequestID = n_reqID n, om_Error = None, om_Unacknowledged = False,
      om_CommandAndCollection = (Unknown, ''''), om_TransactionDetails = None, om_DatabaseName = '''',
      om_String = ''{ OpUnknown opCode: '' @ show_int (sint (n_opCode n)) @ '', wm: '' @ bytes_string (n_wm n) @ '' }''\<rparr>"

definition opQuery_methods :: "wire \<Rightarrow> opQuery \<Rightarrow> Operation_methods" where
  "opQuery_methods w q =
     \<lparr>om_OpCode = OpQuery, om_Encode = opQuery_Encode w q,
      om_IsIsMaster = (if q_fullCollectionName q \<noteq> ''admin.$cmd'' then False else IsIsMasterDoc w (q_query q)),
      om_CursorID = Int64OK (Lookup w (q_query q) [''getMore'']),
      om_RequestID = q_reqID q, om_Error = None, om_Unacknowledged = False,
      om_CommandAndCollection = (Find, q_fullCollectionName q), om_TransactionDetails = None,
      om_DatabaseName = CI_Database (ParseCollectionName (q_fullCollectionName q)),
      om_String = ''{ OpQuery flags: '' @ queryFlagString w (q_flags q) @ '', fullCollectionName: '' @ q_fullCollectionName q @
        '', numberToSkip: '' @ show_int (sint (q_numberToSkip q)) @ '', numberToReturn: '' @ show_int (sint (q_numberToReturn q)) @
        '', query: '' @ docString w (q_query q) @ '', returnFieldsSelector: '' @ docString w (q_returnFieldsSelector q) @ '' }''\<rparr>"

fun opMsgSection_cursorID :: "wire \<Rightarrow> opMsgSection \<Rightarrow> i64 option" where
  "opMsgSection_cursorID w (opMsgSectionSingle msg) =
     (case Int64OK (Lookup w msg [''getMore'']) of
        Some getMore \<Rightarrow> Some getMore
      | None \<Rightarrow> Int64OK (Lookup w msg [''cursor'', ''id'']))"
| "opMsgSection_cursorID w (opMsgSectionSequence identifier msgs) = None"

fun opMsgSection_isIsMaster :: "wire \<Rightarrow> opMsgSection \<Rightarrow> bool" where
  "opMsgSection_isIsMaster w (opMsgSectionSingle msg) =
     (if StringValueOK (Lookup w msg [''$db'']) = Some ''admin'' then IsIsMasterDoc w msg else False)"
| "opMsgSection_isIsMaster w (opMsgSectionSequence identifier msgs) = False"

fun opMsgSection_commandAndCollection :: "wire \<Rightarrow> opMsgSection \<Rightarrow> Command \<times> string" where
  "opMsgSection_commandAndCollection w (opMsgSectionSingle msg) = doc_CommandAndCollection w msg"
| "opMsgSection_commandAndCollection w (opMsgSectionSequence identifier msgs) = (Unknown, '''')"

fun opMsgSection_String :: "wire \<Rightarrow> opMsgSection \<Rightarrow> string" where
  "opMsgSection_String w (opMsgSectionSingle msg) = ''{ SectionSingle msg: '' @ docString w msg @ '' }''"
| "opMsgSection_String w (opMsgSectionSequence identifier msgs) =
     ''{ SectionSingle identifier: '' @ identifier @ '', msgs: ['' @ comma_separated (map (docString w) msgs) @ ''] }''"

fun opMsg_CursorID :: "wire \<Rightarrow> opMsgSection list \<Rightarrow> i64 option" where
  "opMsg_CursorID w [] = None"
| "opMsg_CursorID w (section # sections) =
     (case opMsgSection_cursorID w section of Some cursorID \<Rightarrow> Some cursorID | None \<Rightarrow> opMsg_CursorID w sections)"

definition opMsg_Error :: "wire \<Rightarrow> opMsg \<Rightarrow> go_error option" where
  "opMsg_Error w m =
     (case m_sections m of
        opMsgSectionSingle msg # _ \<Rightarrow> ExtractErrorFromServerResponse w msg
      | _ \<Rightarrow> None)"

fun opMsg_CommandAndCollection :: "wire \<Rightarrow> opMsgSection list \<Rightarrow> Command \<times> string" where
  "opMsg_CommandAndCollection w [] = (Unknown, '''')"
| "opMsg_CommandAndCollection w (section # sections) =
     (let (command, collection) = opMsgSection_commandAndCollection w section
      in if command \<noteq> Unknown then (command, collection) else opMsg_CommandAndCollection w sections)"

fun opMsg_TransactionDetails :: "wire \<Rightarrow> opMsgSection list \<Rightarrow> TransactionDetails option" where
  "opMsg_TransactionDetails w [] = None"
| "opMsg_TransactionDetails w (opMsgSectionSingle msg # sections) =
     (case BinaryOK (Lookup w msg [''lsid'', ''id'']) of
        None \<Rightarrow> opMsg_TransactionDetails w sections
      | Some lsID \<Rightarrow>
          (case Int64OK (Lookup w msg [''txnNumber'']) of
             None \<Rightarrow> opMsg_TransactionDetails w sections
           | Some txnNumber \<Rightarrow>
               (case BooleanOK (Lookup w msg [''autocommit'']) of
                  None \<Rightarrow> opMsg_TransactionDetails w sections
                | Some autocommit \<Rightarrow>
                    Some \<lparr>LsID = lsID, TxnNumber = sint txnNumber,
                          IsStartTransaction = (BooleanOK (Lookup w msg [''startTransaction'']) = Some True),
                          Autocommit = autocommit\<rparr>)))"
| "opMsg_TransactionDetails w (opMsgSectionSequence identifier msgs # sections) = opMsg_TransactionDetails w sections"

fun opMsg_DatabaseName :: "wire \<Rightarrow> opMsgSection list \<Rightarrow> string" where
  "opMsg_DatabaseName w [] = ''''"
| "opMsg_DatabaseName w (opMsgSectionSingle msg # sections) =
     (case StringValueOK (Lookup w msg [''$db'']) of Some db \<Rightarrow> db | None \<Rightarrow> opMsg_DatabaseName w sections)"
| "opMsg_DatabaseName w (opMsgSectionSequence identifier msgs # sections) = opMsg_DatabaseName w sections"

definition opMsg_methods :: "wire \<Rightarrow> opMsg \<Rightarrow> Operation_methods" where
  "opMsg_methods w m =
     \<lparr>om_OpCode = OpMsg, om_Encode = opMsg_Encode w m,
      om_IsIsMaster = list_ex (opMsgSection_isIsMaster w) (m_sections m),
      om_CursorID = opMsg_CursorID w (m_sections m), om_RequestID = m_reqID m, om_Error = opMsg_Error w m,
      om_Unacknowledged = MoreToCome (m_flags m),
      om_CommandAndCollection = opMsg_CommandAndCollection w (m_sections m),
      om_TransactionDetails = opMsg_TransactionDetails w (m_sections m),
      om_DatabaseName = opMsg_DatabaseName w (m_sections m),
      om_String = ''{ OpMsg flags: '' @ show_nat (unat (m_flags m)) @ '', sections: ['' @
        comma_separated (map (opMsgSection_String w) (m_sections m)) @ ''], checksum: '' @ show_nat (unat (m_checksum m)) @ '' }''\<rparr>"

definition opReply_methods :: "wire \<Rightarrow> opReply \<Rightarrow> Operation_methods" where
  "opReply_methods w r =
     \<lparr>om_OpCode = OpReply, om_Encode = opReply_Encode w r, om_IsIsMaster = False,
      om_CursorID = Some (r_cursorID r), om_RequestID = r_reqID r,
      om_Error = (case r_documents r of [] \<Rightarrow> None | doc # _ \<Rightarrow> ExtractErrorFromServerResponse w doc),
      om_Unacknowledged = False, om_CommandAndCollection = (Find, ''''), om_TransactionDetails = None,
      om_DatabaseName = '''',
      om_String = ''{ OpReply flags: '' @ show_int (sint (r_flags r)) @ '', cursorID: '' @ show_int (sint (r_cursorID r)) @
        '', startingFrom: '' @ show_int (sint (r_startingFrom r)) @ '', numReturned: '' @ show_int (sint (r_numReturned r)) @
        '', documents: ['' @ comma_separated (map (docString w) (r_documents r)) @ ''] }''\<rparr>"

definition opGetMore_methods :: "wire \<Rightarrow> opGetMore \<Rightarrow> Operation_methods" where
  "opGetMore_methods w g =
     \<lparr>om_OpCode = OpGetMore, om_Encode = opGetMore_Encode w g, om_IsIsMaster = False,
      om_CursorID = Some (g_cursorID g), om_RequestID = g_reqID g, om_Error = None, om_Unacknowledged = False,
      om_CommandAndCollection = (GetMore, g_fullCollectionName g), om_TransactionDetails = None,
      om_DatabaseName = CI_Database (ParseCollectionName (g_fullCollectionName g)),
      om_String = ''{ OpGetMore fullCollectionName: '' @ g_fullCollectionName g @ '', numberToReturn: '' @
        show_int (sint (g_numberToReturn g)) @ '', cursorID: '' @ show_int (sint (g_cursorID g)) @ '' }''\<rparr>"

definition opUpdate_methods :: "wire \<Rightarrow> opUpdate \<Rightarrow> Operation_methods" where
  "opUpdate_methods w u =
     \<lparr>om_OpCode = OpUpdate, om_Encode = opUpdate_Encode w u, om_IsIsMaster = False, om_CursorID = None,
      om_RequestID = u_reqID u, om_Error = None, om_Unacknowledged = False,
      om_CommandAndCollection = (Update, u_fullCollectionName u), om_TransactionDetails = None,
      om_DatabaseName = CI_Database (ParseCollectionName (u_fullCollectionName u)),
      om_String = ''{ OpQuery fullCollectionName: '' @ u_fullCollectionName u @ '', flags: '' @ show_int (sint (u_flags u)) @
        '', selector: '' @ docString w (u_selector u) @ '', update: '' @ docString w (u_update u) @ '' }''\<rparr>"

definition opInsert_methods :: "wire \<Rightarrow> opInsert \<Rightarrow> Operation_methods" where
  "opInsert_methods w i =
     \<lparr>om_OpCode = OpInsert, om_Encode = opInsert_Encode w i, om_IsIsMaster = False, om_CursorID = None,
      om_RequestID = i_reqID i, om_Error = None, om_Unacknowledged = False,
      om_CommandAndCollection = (Insert, i_fullCollectionName i), om_TransactionDetails = None,
      om_DatabaseName = CI_Database (ParseCollectionName (i_fullCollectionName i)),
      om_String = ''{ OpInsert flags: '' @ show_int (sint (i_flags i)) @ '', fullCollectionName: '' @ i_fullCollectionName i @
        '', documents: '' @ comma_separated (map (docString w) (i_documents i)) @ '' }''\<rparr>"

definition opDelete_methods :: "wire \<Rightarrow> opDelete \<Rightarrow> Operation_methods" where
  "opDelete_methods w d =
     \<lparr>om_OpCode = OpDelete, om_Encode = opDelete_Encode w d, om_IsIsMaster = False, om_CursorID = None,
      om_RequestID = d_reqID d, om_Error = None, om_Unacknowledged = False,
      om_CommandAndCollection = (Delete, d_fullCollectionName d), om_TransactionDetails = None,
      om_DatabaseName = CI_Database (ParseCollectionName (d_fullCollectionName d)),
      om_String = ''{ OpDelete fullCollectionName: '' @ d_fullCollectionName d @ '', flags: '' @ show_int (sint (d_flags d)) @
        '', selector: '' @ docString w (d_selector d) @ '' }''\<rparr>"

text \<open>The verb \<^verbatim>\<open>%v\<close> prints a slice between brackets, its elements separated by blanks.\<close>

definition opKillCursors_methods :: "wire \<Rightarrow> opKillCursors \<Rightarrow> Operation_methods" where
  "opKillCursors_methods w k =
     \<lparr>om_OpCode = OpKillCursors, om_Encode = opKillCursors_Encode w k, om_IsIsMaster = False, om_CursorID = None,
      om_RequestID = k_reqID k, om_Error = None, om_Unacknowledged = False,
      om_CommandAndCollection = (Unknown, ''''), om_TransactionDetails = None, om_DatabaseName = '''',
      om_String = ''{ OpKillCursors cursorIDs: ['' @ Join CHR '' '' (map (\<lambda>i. show_int (sint i)) (k_cursorIDs k)) @ ''] }''\<rparr>"

fun methods :: "wire \<Rightarrow> Operation \<Rightarrow> Operation_methods" where
  "methods w (Op_Unknown n) = opUnknown_methods n"
| "methods w (Op_Query q) = opQuery_methods w q"
| "methods w (Op_Msg m) = opMsg_methods w m"
| "methods w (Op_Reply r) = opReply_methods w r"
| "methods w (Op_GetMore g) = opGetMore_methods w g"
| "methods w (Op_Update u) = opUpdate_methods w u"
| "methods w (Op_Insert i) = opInsert_methods w i"
| "methods w (Op_Delete d) = opDelete_methods w d"
| "methods w (Op_KillCursors k) = opKillCursors_methods w k"

record Message =
  Wm :: bytes
  Op :: "Operation option" \<comment> \<open>nil for the answer to an unacknowledged write\<close>

section \<open>Decoding ends\<close>

lemma decodeMsg_loop_returns:
  assumes "readers_consume w"
  shows "\<exists>r. decodeMsg_loop w cs wm m = Some r"
proof (induction "length wm" arbitrary: wm m rule: less_induct)
  case less
  note c = assms [unfolded readers_consume_def]
  show ?case
  proof (cases "length wm > 0")
    case False
    then show ?thesis by (subst decodeMsg_loop.simps) simp
  next
    case True
    have seq: "\<exists>r. decodeMsg_loop w cs rest' m' = Some r"
      if "ReadMsgSectionType (wr w) wm = Some (t, rest)" "length rest' \<le> length rest" for t rest rest' m'
      using that c less [of rest' m'] by (meson le_less_trans)
    have sum: "\<exists>r. decodeMsg_loop w cs rest m' = Some r" if "ReadMsgChecksum (wr w) wm = Some (v, rest)" for v rest m'
      using that c less [of rest m'] by blast
    show ?thesis
      using True c seq sum by (subst decodeMsg_loop.simps) (auto split: option.split)
  qed
qed

lemma Decode_total:
  assumes "readers_consume w"
  shows "\<exists>r. Decode w wm = Some r"
  using decodeMsg_loop_returns [OF assms]
  by (auto simp: Decode_def decodeMsg_def Let_def split: option.split)

text \<open>
  C39. Decoding a wire message returns, with an operation or an error, on every input: the
  loop over the sections of an \<^verbatim>\<open>OP_MSG\<close> ends, when the driver's readers consume what they
  read.
\<close>

theorem Decode_returns:
  assumes "readers_consume w"
  shows "\<exists>r. Decode w wm = Some r"
  by (rule Decode_total [OF assms])

theorem Decode_returns_witness:
  "(\<exists>r. Decode std_wire [221, 7, 0] = Some r) \<and> readers_consume std_wire"
  using Decode_returns [OF std_wire_consumes, of "[221, 7, 0]"] std_wire_consumes by blast

section \<open>Decoding an encoded operation\<close>

lemma fold_append_concat: "fold (\<lambda>d b. b @ d) ds b = b @ concat ds"
  by (induction ds arbitrary: b) auto

lemma fold_length: "fold (\<lambda>msg len. len + of_nat (length msg)) ds n = n + (of_nat (length (concat ds)) :: i32)"
  by (induction ds arbitrary: n) (auto simp: ac_simps)

text \<open>The header and the length field come back.\<close>

lemma ReadHeader_setLength:
  assumes "header_laws w" and "AppendHeaderStart (wa w) [] 0 responseTo opCode = (idx, hdr)"
  shows "idx = 0" and "ReadHeader (wr w) (setLength w idx (hdr @ body)) = Some (of_nat (16 + length body), 0, responseTo, opCode, body)"
    and "length (setLength w idx (hdr @ body)) = 16 + length body"
proof -
  let ?h = "AppendHeaderStart (wa w) [] 0 responseTo opCode"
  have "fst ?h = 0" "length (snd ?h) = 16"
    "\<forall>body n. ReadHeader (wr w) (UpdateLength (wa w) (snd ?h @ body) 0 n) = Some (n, 0, responseTo, opCode, body)"
    "\<forall>b n. 0 + 4 \<le> length b \<longrightarrow> length (UpdateLength (wa w) b 0 n) = length b"
    using assms(1) unfolding header_laws_def by blast+
  then have h: "idx = 0" "length hdr = 16"
    "ReadHeader (wr w) (UpdateLength (wa w) (hdr @ body) 0 n) = Some (n, 0, responseTo, opCode, body)"
    "length (UpdateLength (wa w) (hdr @ body) 0 n) = 16 + length body" for n
    using assms(2) by simp_all
  show "idx = 0" by (rule h)
  show "ReadHeader (wr w) (setLength w idx (hdr @ body)) = Some (of_nat (16 + length body), 0, responseTo, opCode, body)"
    "length (setLength w idx (hdr @ body)) = 16 + length body"
    using h by (simp_all add: setLength_def)
qed

lemma sint_of_nat_i32: "n < 2 ^ 31 \<Longrightarrow> sint (of_nat n :: i32) = int n"
  by (simp add: signed_of_nat signed_take_bit_int_eq_self)

text \<open>So \<open>Decode\<close> hands the body to the decoder of the type.\<close>

lemma Decode_dispatch:
  assumes "header_laws w" and "AppendHeaderStart (wa w) [] 0 responseTo opCode = (idx, hdr)"
    and "length body < 2 ^ 31 - 16"
  shows "Decode w (setLength w idx (hdr @ body)) =
    (if opCode = OpQuery then Some (map_sum id Op_Query (decodeQuery w 0 body))
     else if opCode = OpMsg then map_option (map_sum id Op_Msg) (decodeMsg w 0 body)
     else if opCode = OpReply then Some (map_sum id Op_Reply (decodeReply w 0 body))
     else if opCode = OpGetMore then Some (map_sum id Op_GetMore (decodeGetMore w 0 body))
     else if opCode = OpUpdate then Some (map_sum id Op_Update (decodeUpdate w 0 body))
     else if opCode = OpInsert then Some (map_sum id Op_Insert (decodeInsert w 0 body))
     else if opCode = OpDelete then Some (map_sum id Op_Delete (decodeDelete w 0 body))
     else if opCode = OpKillCursors then Some (map_sum id Op_KillCursors (decodeKillCursors w 0 body))
     else Some (Inr (Op_Unknown \<lparr>n_opCode = opCode, n_reqID = 0, n_wm = setLength w idx (hdr @ body)\<rparr>)))"
proof -
  have "sint (of_nat (16 + length body) :: i32) = int (16 + length body)"
    using assms(3) by (intro sint_of_nat_i32) linarith
  then show ?thesis
    unfolding Decode_def Let_def ReadHeader_setLength(2,3) [OF assms(1,2)] option.case prod.case by simp
qed

text \<open>What an operation must satisfy to survive the trip: names without NUL, documents the
  driver reads as such, and a size that fits the length field.\<close>

fun section_ok :: "wire \<Rightarrow> opMsgSection \<Rightarrow> bool" where
  "section_ok w (opMsgSectionSingle msg) = is_document w msg"
| "section_ok w (opMsgSectionSequence identifier msgs) =
     (no_nul identifier \<and> list_all (is_document w) msgs)"

fun op_ok :: "wire \<Rightarrow> Operation \<Rightarrow> bool" where
  "op_ok w (Op_Unknown n) = False"
| "op_ok w (Op_Query q) =
     (no_nul (q_fullCollectionName q) \<and> is_document w (q_query q) \<and>
      (q_returnFieldsSelector q = [] \<or> is_document w (q_returnFieldsSelector q)))"
| "op_ok w (Op_Msg m) =
     (list_all (section_ok w) (m_sections m) \<and> (ChecksumPresent (m_flags m) \<or> m_checksum m = 0))"
| "op_ok w (Op_Reply r) = list_all (is_document w) (r_documents r)"
| "op_ok w (Op_GetMore g) = no_nul (g_fullCollectionName g)"
| "op_ok w (Op_Update u) = (no_nul (u_fullCollectionName u) \<and> is_document w (u_selector u) \<and> is_document w (u_update u))"
| "op_ok w (Op_Insert i) = (no_nul (i_fullCollectionName i) \<and> list_all (is_document w) (i_documents i))"
| "op_ok w (Op_Delete d) = False"
| "op_ok w (Op_KillCursors k) = True"

fun with_reqID :: "i32 \<Rightarrow> Operation \<Rightarrow> Operation" where
  "with_reqID x (Op_Unknown n) = Op_Unknown (n\<lparr>n_reqID := x\<rparr>)"
| "with_reqID x (Op_Query q) = Op_Query (q\<lparr>q_reqID := x\<rparr>)"
| "with_reqID x (Op_Msg m) = Op_Msg (m\<lparr>m_reqID := x\<rparr>)"
| "with_reqID x (Op_Reply r) = Op_Reply (r\<lparr>r_reqID := x\<rparr>)"
| "with_reqID x (Op_GetMore g) = Op_GetMore (g\<lparr>g_reqID := x\<rparr>)"
| "with_reqID x (Op_Update u) = Op_Update (u\<lparr>u_reqID := x\<rparr>)"
| "with_reqID x (Op_Insert i) = Op_Insert (i\<lparr>i_reqID := x\<rparr>)"
| "with_reqID x (Op_Delete d) = Op_Delete (d\<lparr>d_reqID := x\<rparr>)"
| "with_reqID x (Op_KillCursors k) = Op_KillCursors (k\<lparr>k_reqID := x\<rparr>)"

lemma codecE:
  assumes "codec P rd ap"
  obtains e where "\<And>b v. ap b v = b @ e v" "\<And>v rest. P v \<Longrightarrow> rd (e v @ rest) = Some (v, rest)"
    "\<And>v. P v \<Longrightarrow> rd (e v) = Some (v, [])"
  using assms that [of "ap []"] unfolding codec_def by (metis append_Nil2)

lemma is_document_read: "is_document w d \<Longrightarrow> ReadDocument (wr w) (d @ rest) = Some (d, rest)"
  by (simp add: is_document_def)

lemma is_document_read_end: "is_document w d \<Longrightarrow> ReadDocument (wr w) d = Some (d, [])"
  using is_document_read [of w d "[]"] by simp

lemma is_document_nonempty: "is_document w d \<Longrightarrow> d \<noteq> []"
  by (auto simp: is_document_def)

text \<open>The bytes after the header, by the type of the operation.\<close>

definition encodes :: "wire \<Rightarrow> i32 \<Rightarrow> (i32 \<Rightarrow> bytes) \<Rightarrow> bytes \<Rightarrow> bool" where
  "encodes w opCode enc body \<longleftrightarrow>
     (\<forall>responseTo. enc responseTo =
        (let (idx, hdr) = AppendHeaderStart (wa w) [] 0 responseTo opCode in setLength w idx (hdr @ body)))"

lemma opQuery_body:
  assumes "query_laws w" and "op_ok w (Op_Query q)"
  shows "\<exists>body. encodes w OpQuery (opQuery_Encode w q) body \<and> decodeQuery w 0 body = Inr (q\<lparr>q_reqID := 0\<rparr>)"
proof -
  note c = assms(1) [unfolded query_laws_def]
  obtain e1 where e1: "\<And>b v. AppendQueryFlags (wa w) b v = b @ e1 v"
    "\<And>v rest. ReadQueryFlags (wr w) (e1 v @ rest) = Some (v, rest)" using c by (auto elim: codecE)
  obtain e2 where e2: "\<And>b v. AppendQueryFullCollectionName (wa w) b v = b @ e2 v"
    "\<And>v rest. no_nul v \<Longrightarrow> ReadQueryFullCollectionName (wr w) (e2 v @ rest) = Some (v, rest)"
    using c by (auto elim: codecE)
  obtain e3 where e3: "\<And>b v. AppendQueryNumberToSkip (wa w) b v = b @ e3 v"
    "\<And>v rest. ReadQueryNumberToSkip (wr w) (e3 v @ rest) = Some (v, rest)" using c by (auto elim: codecE)
  obtain e4 where e4: "\<And>b v. AppendQueryNumberToReturn (wa w) b v = b @ e4 v"
    "\<And>v rest. ReadQueryNumberToReturn (wr w) (e4 v @ rest) = Some (v, rest)" using c by (auto elim: codecE)
  define body where "body = e1 (q_flags q) @ e2 (q_fullCollectionName q) @ e3 (q_numberToSkip q) @
    e4 (q_numberToReturn q) @ q_query q @ q_returnFieldsSelector q"
  have "encodes w OpQuery (opQuery_Encode w q) body"
    by (simp add: encodes_def opQuery_Encode_def body_def Let_def e1 e2 e3 e4 split: prod.split)
  moreover have "decodeQuery w 0 body = Inr (q\<lparr>q_reqID := 0\<rparr>)"
    using c assms(2) unfolding body_def decodeQuery_def
    by (cases "q_returnFieldsSelector q = []")
      (auto simp: e1 e2 e3 e4 is_document_read is_document_read_end)
  ultimately show ?thesis by blast
qed

lemma opReply_body:
  assumes "reply_laws w" and "op_ok w (Op_Reply r)"
  shows "\<exists>body. encodes w OpReply (opReply_Encode w r) body \<and> decodeReply w 0 body = Inr (r\<lparr>r_reqID := 0\<rparr>)"
proof -
  note c = assms(1) [unfolded reply_laws_def]
  obtain e1 where e1: "\<And>b v. AppendReplyFlags (wa w) b v = b @ e1 v"
    "\<And>v rest. ReadReplyFlags (wr w) (e1 v @ rest) = Some (v, rest)" using c by (auto elim: codecE)
  obtain e2 where e2: "\<And>b v. AppendReplyCursorID (wa w) b v = b @ e2 v"
    "\<And>v rest. ReadReplyCursorID (wr w) (e2 v @ rest) = Some (v, rest)" using c by (auto elim: codecE)
  obtain e3 where e3: "\<And>b v. AppendReplyStartingFrom (wa w) b v = b @ e3 v"
    "\<And>v rest. ReadReplyStartingFrom (wr w) (e3 v @ rest) = Some (v, rest)" using c by (auto elim: codecE)
  obtain e4 where e4: "\<And>b v. AppendReplyNumberReturned (wa w) b v = b @ e4 v"
    "\<And>v rest. ReadReplyNumberReturned (wr w) (e4 v @ rest) = Some (v, rest)" using c by (auto elim: codecE)
  define body where "body = e1 (r_flags r) @ e2 (r_cursorID r) @ e3 (r_startingFrom r) @
    e4 (r_numReturned r) @ concat (r_documents r)"
  have "encodes w OpReply (opReply_Encode w r) body"
    by (simp add: encodes_def opReply_Encode_def body_def Let_def fold_append_concat e1 e2 e3 e4 split: prod.split)
  moreover have "decodeReply w 0 body = Inr (r\<lparr>r_reqID := 0\<rparr>)"
    using c assms(2) unfolding body_def decodeReply_def by (simp add: e1 e2 e3 e4)
  ultimately show ?thesis by blast
qed

lemma opGetMore_body:
  assumes "cursor_laws w" and "op_ok w (Op_GetMore g)"
  shows "\<exists>body. encodes w OpGetMore (opGetMore_Encode w g) body \<and> decodeGetMore w 0 body = Inr (g\<lparr>g_reqID := 0\<rparr>)"
proof -
  note c = assms(1) [unfolded cursor_laws_def]
  have z1: "\<forall>b. AppendGetMoreZero (wa w) b = b @ AppendGetMoreZero (wa w) []" using c by (elim conjE)
  have z2: "\<forall>rest. ReadKillCursorsZero (wr w) (AppendGetMoreZero (wa w) [] @ rest) = Some (0, rest)" using c by (elim conjE)
  obtain e1 where e1: "\<And>b. AppendGetMoreZero (wa w) b = b @ e1"
    "\<And>rest. ReadKillCursorsZero (wr w) (e1 @ rest) = Some (0, rest)"
    by (rule that [OF z1 [THEN spec] z2 [THEN spec]])
  have k2: "codec no_nul (ReadQueryFullCollectionName (wr w)) (AppendGetMoreFullCollectionName (wa w))" using c by (elim conjE)
  obtain e2 where e2: "\<And>b v. AppendGetMoreFullCollectionName (wa w) b v = b @ e2 v"
    "\<And>v rest. no_nul v \<Longrightarrow> ReadQueryFullCollectionName (wr w) (e2 v @ rest) = Some (v, rest)"
    using k2 by (auto elim: codecE)
  have k3: "codec (\<lambda>_. True) (ReadQueryNumberToReturn (wr w)) (AppendGetMoreNumberToReturn (wa w))" using c by (elim conjE)
  obtain e3 where e3: "\<And>b v. AppendGetMoreNumberToReturn (wa w) b v = b @ e3 v"
    "\<And>v rest. ReadQueryNumberToReturn (wr w) (e3 v @ rest) = Some (v, rest)" using k3 by (auto elim: codecE)
  have k4: "codec (\<lambda>_. True) (ReadReplyCursorID (wr w)) (AppendGetMoreCursorID (wa w))" using c by (elim conjE)
  obtain e4 where e4: "\<And>b v. AppendGetMoreCursorID (wa w) b v = b @ e4 v"
    "\<And>v. ReadReplyCursorID (wr w) (e4 v) = Some (v, [])" using k4 by (auto elim: codecE)
  define body where "body = e1 @ e2 (g_fullCollectionName g) @ e3 (g_numberToReturn g) @ e4 (g_cursorID g)"
  have "encodes w OpGetMore (opGetMore_Encode w g) body"
    by (simp add: encodes_def opGetMore_Encode_def body_def Let_def e1 e2 e3 e4 split: prod.split)
  moreover have "decodeGetMore w 0 body = Inr (g\<lparr>g_reqID := 0\<rparr>)"
    using assms(2) unfolding body_def decodeGetMore_def by (simp add: e1 e2 e3 e4)
  ultimately show ?thesis by blast
qed

lemma opKillCursors_body:
  assumes "cursor_laws w" and "length (k_cursorIDs k) < 2 ^ 31"
  shows "\<exists>body. encodes w OpKillCursors (opKillCursors_Encode w k) body \<and>
    decodeKillCursors w 0 body = Inr (k\<lparr>k_reqID := 0\<rparr>)"
proof -
  note c = assms(1) [unfolded cursor_laws_def]
  have z1: "\<forall>b. AppendKillCursorsZero (wa w) b = b @ AppendKillCursorsZero (wa w) []" using c by (elim conjE)
  have z2: "\<forall>rest. ReadKillCursorsZero (wr w) (AppendKillCursorsZero (wa w) [] @ rest) = Some (0, rest)" using c by (elim conjE)
  obtain e1 where e1: "\<And>b. AppendKillCursorsZero (wa w) b = b @ e1"
    "\<And>rest. ReadKillCursorsZero (wr w) (e1 @ rest) = Some (0, rest)"
    by (rule that [OF z1 [THEN spec] z2 [THEN spec]])
  have k2: "codec (\<lambda>_. True) (ReadKillCursorsNumberIDs (wr w)) (AppendKillCursorsNumberIDs (wa w))" using c by (elim conjE)
  obtain e2 where e2: "\<And>b v. AppendKillCursorsNumberIDs (wa w) b v = b @ e2 v"
    "\<And>v rest. ReadKillCursorsNumberIDs (wr w) (e2 v @ rest) = Some (v, rest)" using k2 by (auto elim: codecE)
  have i1: "\<forall>b ids. AppendKillCursorsCursorIDs (wa w) b ids = b @ AppendKillCursorsCursorIDs (wa w) [] ids"
    using c by (elim conjE)
  have i2: "\<forall>ids rest. length ids < 2 ^ 31 \<longrightarrow>
       ReadKillCursorsCursorIDs (wr w) (AppendKillCursorsCursorIDs (wa w) [] ids @ rest) (of_nat (length ids))
       = Some (ids, rest)"
    using c by (elim conjE)
  obtain e3 where e3: "\<And>b v. AppendKillCursorsCursorIDs (wa w) b v = b @ e3 v"
    "\<And>v rest. length v < 2 ^ 31 \<Longrightarrow> ReadKillCursorsCursorIDs (wr w) (e3 v @ rest) (of_nat (length v)) = Some (v, rest)"
    by (rule that [OF i1 [THEN spec, THEN spec] i2 [THEN spec, THEN spec, THEN mp]])
  define body where "body = e1 @ e2 (of_nat (length (k_cursorIDs k))) @ e3 (k_cursorIDs k)"
  have "encodes w OpKillCursors (opKillCursors_Encode w k) body"
    by (simp add: encodes_def opKillCursors_Encode_def body_def Let_def e1 e2 e3 split: prod.split)
  moreover have "decodeKillCursors w 0 body = Inr (k\<lparr>k_reqID := 0\<rparr>)"
    using e3(2) [OF assms(2), of "[]"] unfolding body_def decodeKillCursors_def by (simp add: e1 e2)
  ultimately show ?thesis by blast
qed

lemmas own_bytes = appendi32_append [of "_ @ _"] appendCString_append [of "_ @ _"]

lemma opUpdate_body:
  assumes "op_ok w (Op_Update u)"
  shows "\<exists>body. encodes w OpUpdate (opUpdate_Encode w u) body \<and> decodeUpdate w 0 body = Inr (u\<lparr>u_reqID := 0\<rparr>)"
proof -
  define body where "body = appendCString [] (u_fullCollectionName u) @ appendi32 [] (u_flags u) @ u_selector u @ u_update u"
  have "appendi32 (appendCString hdr n) f = hdr @ appendCString [] n @ appendi32 [] f" for hdr n f
    by (simp add: appendCString_append [of hdr] own_bytes)
  then have "encodes w OpUpdate (opUpdate_Encode w u) body"
    by (simp add: encodes_def opUpdate_Encode_def body_def Let_def split: prod.split)
  moreover have "decodeUpdate w 0 body = Inr (u\<lparr>u_reqID := 0\<rparr>)"
    using assms unfolding body_def decodeUpdate_def by (simp add: is_document_read is_document_read_end)
  ultimately show ?thesis by blast
qed

lemma opInsert_body:
  assumes "reply_laws w" and "op_ok w (Op_Insert i)"
  shows "\<exists>body. encodes w OpInsert (opInsert_Encode w i) body \<and> decodeInsert w 0 body = Inr (i\<lparr>i_reqID := 0\<rparr>)"
proof -
  define body where "body = appendi32 [] (i_flags i) @ appendCString [] (i_fullCollectionName i) @ concat (i_documents i)"
  have "appendCString (appendi32 hdr f) n = hdr @ appendi32 [] f @ appendCString [] n" for hdr n f
    by (simp add: appendi32_append [of hdr] own_bytes)
  then have "encodes w OpInsert (opInsert_Encode w i) body"
    by (simp add: encodes_def opInsert_Encode_def body_def Let_def fold_append_concat split: prod.split)
  moreover have "decodeInsert w 0 body = Inr (i\<lparr>i_reqID := 0\<rparr>)"
    using assms unfolding body_def decodeInsert_def reply_laws_def by simp
  ultimately show ?thesis by blast
qed

subsection \<open>The sections of OP_MSG\<close>

fun section_bytes :: "(byte \<Rightarrow> bytes) \<Rightarrow> opMsgSection \<Rightarrow> bytes" where
  "section_bytes e (opMsgSectionSingle msg) = e 0 @ msg"
| "section_bytes e (opMsgSectionSequence identifier msgs) = e 1 @ sequence_bytes identifier msgs"

lemma opMsgSection_append_bytes:
  assumes "\<And>b v. AppendMsgSectionType (wa w) b v = b @ e v"
  shows "opMsgSection_append w s b = b @ section_bytes e s"
proof (cases s)
  case (opMsgSectionSequence ident msgs)
  then show ?thesis
    by (simp add: assms Let_def fold_append_concat fold_length sequence_bytes_def own_bytes ac_simps
        appendCString_append [of "appendi32 _ _"])
qed (simp add: assms)

lemma fold_sections:
  assumes "\<And>b v. AppendMsgSectionType (wa w) b v = b @ e v"
  shows "fold (opMsgSection_append w) ss b = b @ concat (map (section_bytes e) ss)"
  by (induction ss arbitrary: b) (simp_all add: opMsgSection_append_bytes [OF assms])

lemma decodeMsg_loop_step:
  assumes laws: "msg_laws w" and e: "\<And>b v. AppendMsgSectionType (wa w) b v = b @ e v"
    "\<And>v rest. ReadMsgSectionType (wr w) (e v @ rest) = Some (v, rest)"
    and ok: "section_ok w s" "length (section_bytes e s) < 2 ^ 31"
  shows "decodeMsg_loop w cs (section_bytes e s @ rest) m =
    decodeMsg_loop w cs rest (m\<lparr>m_sections := m_sections m @ [s]\<rparr>)"
proof -
  note c = laws [unfolded msg_laws_def]
  have "\<forall>t. length (AppendMsgSectionType (wa w) [] t) = 1" using c by (elim conjE)
  then have e1: "length (e t) = 1" for t using e(1) [of "[]" t] by (metis append_Nil)
  show ?thesis
  proof (cases s)
    case (opMsgSectionSingle msg)
    then have "length (section_bytes e s @ rest) \<noteq> 4" "length (section_bytes e s @ rest) > 0"
      using ok e1 by (auto simp: is_document_def)
    moreover have "ReadMsgSectionSingleDocument (wr w) (msg @ rest) = Some (msg, rest)"
      using c ok opMsgSectionSingle by (simp add: is_document_read)
    ultimately show ?thesis
      using opMsgSectionSingle by (subst decodeMsg_loop.simps) (simp add: e(2))
  next
    case (opMsgSectionSequence ident msgs)
    then have len: "length ident + 5 + length (concat msgs) < 2 ^ 31"
      using ok(2) e1 by (simp add: sequence_bytes_def)
    have "length (section_bytes e s @ rest) \<noteq> 4" "length (section_bytes e s @ rest) > 0"
      using e1 opMsgSectionSequence by (auto simp: sequence_bytes_def)
    moreover have "ReadMsgSectionDocumentSequence (wr w) (sequence_bytes ident msgs @ rest) = Some ((ident, msgs), rest)"
      using c ok(1) len opMsgSectionSequence by simp
    ultimately show ?thesis
      using opMsgSectionSequence by (subst decodeMsg_loop.simps) (simp add: e(2))
  qed
qed

lemma decodeMsg_loop_trailer:
  assumes "msg_laws w"
  shows "decodeMsg_loop w True (appendi32 [] c) m = Some (Inr (m\<lparr>m_checksum := c\<rparr>))"
    and "decodeMsg_loop w cs [] m = Some (Inr m)"
proof -
  show nil: "decodeMsg_loop w cs [] m = Some (Inr m)" for cs m by (subst decodeMsg_loop.simps) simp
  have "\<forall>c rest. ReadMsgChecksum (wr w) (appendi32 [] c @ rest) = Some (c, rest)"
    using assms unfolding msg_laws_def by (elim conjE)
  from this [THEN spec, THEN spec, of c "[]"]
  show "decodeMsg_loop w True (appendi32 [] c) m = Some (Inr (m\<lparr>m_checksum := c\<rparr>))"
    using nil by (subst decodeMsg_loop.simps) simp
qed

lemma decodeMsg_loop_sections:
  assumes "msg_laws w" and "\<And>b v. AppendMsgSectionType (wa w) b v = b @ e v"
    and "\<And>v rest. ReadMsgSectionType (wr w) (e v @ rest) = Some (v, rest)"
    and "list_all (section_ok w) ss" and "length (concat (map (section_bytes e) ss)) < 2 ^ 31"
  shows "decodeMsg_loop w cs (concat (map (section_bytes e) ss) @ rest) m =
    decodeMsg_loop w cs rest (m\<lparr>m_sections := m_sections m @ ss\<rparr>)"
  using assms(4,5)
proof (induction ss arbitrary: m)
  case (Cons s ss)
  then show ?case
    using decodeMsg_loop_step [OF assms(1-3), of s cs "concat (map (section_bytes e) ss) @ rest" m] by simp
qed simp

lemma opMsg_body:
  assumes "msg_laws w" and "op_ok w (Op_Msg m)"
  shows "\<exists>body. encodes w OpMsg (opMsg_Encode w m) body \<and>
    (length body < 2 ^ 31 - 16 \<longrightarrow> decodeMsg w 0 body = Some (Inr (m\<lparr>m_reqID := 0\<rparr>)))"
proof -
  have k1: "codec (\<lambda>_. True) (ReadMsgFlags (wr w)) (AppendMsgFlags (wa w))"
    using assms(1) unfolding msg_laws_def by (elim conjE)
  obtain e1 where e1: "\<And>b v. AppendMsgFlags (wa w) b v = b @ e1 v"
    "\<And>v rest. ReadMsgFlags (wr w) (e1 v @ rest) = Some (v, rest)" using k1 by (auto elim: codecE)
  have k2: "codec (\<lambda>_. True) (ReadMsgSectionType (wr w)) (AppendMsgSectionType (wa w))"
    using assms(1) unfolding msg_laws_def by (elim conjE)
  obtain e where e: "\<And>b v. AppendMsgSectionType (wa w) b v = b @ e v"
    "\<And>v rest. ReadMsgSectionType (wr w) (e v @ rest) = Some (v, rest)" using k2 by (auto elim: codecE)
  define sections where "sections = concat (map (section_bytes e) (m_sections m))"
  define trailer where "trailer = (if ChecksumPresent (m_flags m) then appendi32 [] (m_checksum m) else [])"
  have "encodes w OpMsg (opMsg_Encode w m) (e1 (m_flags m) @ sections @ trailer)"
    by (simp add: encodes_def opMsg_Encode_def Let_def e1 fold_sections [OF e(1)] sections_def trailer_def
        own_bytes split: prod.split)
  moreover have "decodeMsg w 0 (e1 (m_flags m) @ sections @ trailer) = Some (Inr (m\<lparr>m_reqID := 0\<rparr>))"
    if "length (e1 (m_flags m) @ sections @ trailer) < 2 ^ 31 - 16"
  proof -
    have len: "length (concat (map (section_bytes e) (m_sections m))) < 2 ^ 31"
      using that unfolding sections_def by simp
    have ok: "list_all (section_ok w) (m_sections m)" using assms(2) by simp
    have m: "\<lparr>m_reqID = 0, m_flags = m_flags m, m_sections = m_sections m, m_checksum = m_checksum m\<rparr> = m\<lparr>m_reqID := 0\<rparr>"
      by simp
    show ?thesis
      using assms(2) decodeMsg_loop_trailer [OF assms(1)] m
      by (auto simp: decodeMsg_def e1 sections_def trailer_def decodeMsg_loop_sections [OF assms(1) e ok len])
  qed
  ultimately show ?thesis by blast
qed

lemma Decode_encodes:
  assumes "header_laws w" and "encodes w opCode enc body" and "length (enc responseTo) < 2 ^ 31"
  obtains hdr idx where "enc responseTo = setLength w idx (hdr @ body)"
    "AppendHeaderStart (wa w) [] 0 responseTo opCode = (idx, hdr)" "length body < 2 ^ 31 - 16"
proof -
  obtain idx hdr where h: "AppendHeaderStart (wa w) [] 0 responseTo opCode = (idx, hdr)" by fastforce
  then have "enc responseTo = setLength w idx (hdr @ body)" using assms(2) by (simp add: encodes_def)
  moreover from this have "length body < 2 ^ 31 - 16"
    using ReadHeader_setLength(3) [OF assms(1) h, of body] assms(3) by simp
  ultimately show ?thesis using that h by blast
qed

text \<open>
  C14. Round trip of the message layer: an operation that is encoded and decoded again comes
  back with all its fields, except that its request id is zero, for every type but the
  unknown ones, which are passed through as bytes, and \<open>opDelete\<close>.
\<close>

theorem Decode_Encode:
  assumes laws: "wire_laws w" and ok: "op_ok w op" and size: "length (om_Encode (methods w op) responseTo) < 2 ^ 31"
    and ids: "\<And>k. op = Op_KillCursors k \<Longrightarrow> length (k_cursorIDs k) < 2 ^ 31"
  shows "Decode w (om_Encode (methods w op) responseTo) = Some (Inr (with_reqID 0 op))"
proof -
  have l: "header_laws w" "query_laws w" "msg_laws w" "reply_laws w" "cursor_laws w"
    using laws by (simp_all add: wire_laws_def)
  note via = Decode_encodes [OF l(1), where responseTo = responseTo] Decode_dispatch [OF l(1)]
  show ?thesis
  proof (cases op)
    case (Op_Query q)
    with opQuery_body [OF l(2), of q] ok obtain body where
      "encodes w OpQuery (opQuery_Encode w q) body" "decodeQuery w 0 body = Inr (q\<lparr>q_reqID := 0\<rparr>)" by blast
    with size Op_Query show ?thesis
      by (auto simp: opQuery_methods_def via(2) elim: via(1))
  next
    case (Op_Msg m)
    with opMsg_body [OF l(3), of m] ok obtain body where
      "encodes w OpMsg (opMsg_Encode w m) body"
      "length body < 2 ^ 31 - 16 \<longrightarrow> decodeMsg w 0 body = Some (Inr (m\<lparr>m_reqID := 0\<rparr>))" by blast
    with size Op_Msg show ?thesis by (auto simp: opMsg_methods_def via(2) elim: via(1))
  next
    case (Op_Reply r)
    with opReply_body [OF l(4), of r] ok obtain body where
      "encodes w OpReply (opReply_Encode w r) body" "decodeReply w 0 body = Inr (r\<lparr>r_reqID := 0\<rparr>)" by blast
    with size Op_Reply show ?thesis by (auto simp: opReply_methods_def via(2) elim: via(1))
  next
    case (Op_GetMore g)
    with opGetMore_body [OF l(5), of g] ok obtain body where
      "encodes w OpGetMore (opGetMore_Encode w g) body" "decodeGetMore w 0 body = Inr (g\<lparr>g_reqID := 0\<rparr>)" by blast
    with size Op_GetMore show ?thesis by (auto simp: opGetMore_methods_def via(2) elim: via(1))
  next
    case (Op_Update u)
    with opUpdate_body [of w u] ok obtain body where
      "encodes w OpUpdate (opUpdate_Encode w u) body" "decodeUpdate w 0 body = Inr (u\<lparr>u_reqID := 0\<rparr>)" by blast
    with size Op_Update show ?thesis by (auto simp: opUpdate_methods_def via(2) elim: via(1))
  next
    case (Op_Insert i)
    with opInsert_body [OF l(4), of i] ok obtain body where
      "encodes w OpInsert (opInsert_Encode w i) body" "decodeInsert w 0 body = Inr (i\<lparr>i_reqID := 0\<rparr>)" by blast
    with size Op_Insert show ?thesis by (auto simp: opInsert_methods_def via(2) elim: via(1))
  next
    case (Op_KillCursors k)
    with opKillCursors_body [OF l(5), of k] ids obtain body where
      "encodes w OpKillCursors (opKillCursors_Encode w k) body"
      "decodeKillCursors w 0 body = Inr (k\<lparr>k_reqID := 0\<rparr>)" by blast
    with size Op_KillCursors show ?thesis by (auto simp: opKillCursors_methods_def via(2) elim: via(1))
  qed (use ok in simp_all)
qed

theorem Decode_Encode_witness:
  "Decode std_wire (om_Encode (methods std_wire (Op_Msg \<lparr>m_reqID = 7, m_flags = 1,
       m_sections = [opMsgSectionSingle [5, 0, 0, 0, 0], opMsgSectionSequence ''documents'' [[6, 0, 0, 0, 1, 0]]],
       m_checksum = 99\<rparr>)) 3)
   = Some (Inr (Op_Msg \<lparr>m_reqID = 0, m_flags = 1,
       m_sections = [opMsgSectionSingle [5, 0, 0, 0, 0], opMsgSectionSequence ''documents'' [[6, 0, 0, 0, 1, 0]]],
       m_checksum = 99\<rparr>))"
proof -
  let ?m = "\<lparr>m_reqID = 7, m_flags = 1, m_sections = [opMsgSectionSingle [5, 0, 0, 0, 0],
       opMsgSectionSequence ''documents'' [[6, 0, 0, 0, 1, 0]]], m_checksum = 99\<rparr>"
  have "op_ok std_wire (Op_Msg ?m)"
    by (simp add: is_document_std read_document_def readi32_def ChecksumPresent_def)
  moreover have "length (om_Encode (methods std_wire (Op_Msg ?m)) 3) < 2 ^ 31"
    by (simp add: opMsg_methods_def opMsg_Encode_def std_append_def setLength_def Let_def ChecksumPresent_def)
  ultimately show ?thesis
    using Decode_Encode [OF std_wire_laws, of "Op_Msg ?m" 3] by simp
qed

text \<open>
  \<open>opDelete\<close> does not survive the trip: its encoder leaves out the zero that its decoder
  reads first, so the first four bytes of the collection name are lost.
\<close>

theorem opDelete_Encode_loses_name:
  assumes "wire_laws w" and "no_nul (d_fullCollectionName d)" and "is_document w (d_selector d)"
    and "4 \<le> length (d_fullCollectionName d)" and "length (opDelete_Encode w d responseTo) < 2 ^ 31"
  shows "Decode w (opDelete_Encode w d responseTo) =
    Some (Inr (Op_Delete (d\<lparr>d_reqID := 0, d_fullCollectionName := drop 4 (d_fullCollectionName d)\<rparr>)))"
proof -
  let ?n = "d_fullCollectionName d"
  have h: "header_laws w" using assms(1) by (simp add: wire_laws_def)
  define body where "body = appendCString [] ?n @ appendi32 [] (d_flags d) @ d_selector d"
  have "appendi32 (appendCString hdr n) f = hdr @ appendCString [] n @ appendi32 [] f" for hdr n f
    by (simp add: appendCString_append [of hdr] own_bytes)
  then have enc: "encodes w OpDelete (opDelete_Encode w d) body"
    by (simp add: encodes_def opDelete_Encode_def body_def Let_def split: prod.split)
  have "appendCString [] ?n = string_bytes (take 4 ?n) @ appendCString [] (drop 4 ?n)"
    by (simp add: appendCString_def flip: string_bytes_append)
  moreover have "\<exists>z. readi32 (string_bytes (take 4 ?n) @ rest) = Some (z, rest)" for rest
    using assms(4) by (simp add: readi32_def)
  ultimately obtain z where "readi32 body =
      Some (z, appendCString [] (drop 4 ?n) @ appendi32 [] (d_flags d) @ d_selector d)"
    unfolding body_def by fastforce
  moreover have "no_nul (drop 4 ?n)" using assms(2) by (meson in_set_dropD)
  ultimately have "decodeDelete w 0 body = Inr (d\<lparr>d_reqID := 0, d_fullCollectionName := drop 4 ?n\<rparr>)"
    using assms(3) by (simp add: decodeDelete_def is_document_read_end)
  with enc assms(5) show ?thesis
    by (auto simp: Decode_dispatch [OF h] elim: Decode_encodes [OF h, where responseTo = responseTo])
qed

theorem opDelete_Encode_loses_name_witness:
  "Decode std_wire (opDelete_Encode std_wire \<lparr>d_reqID = 1, d_fullCollectionName = ''shop.items'', d_flags = 0,
       d_selector = [5, 0, 0, 0, 0]\<rparr> 3)
   = Some (Inr (Op_Delete \<lparr>d_reqID = 0, d_fullCollectionName = ''.items'', d_flags = 0, d_selector = [5, 0, 0, 0, 0]\<rparr>))"
proof -
  let ?d = "\<lparr>d_reqID = 1, d_fullCollectionName = ''shop.items'', d_flags = 0, d_selector = [5, 0, 0, 0, 0]\<rparr>"
  have "is_document std_wire (d_selector ?d)" by (simp add: is_document_std read_document_def readi32_def)
  moreover have "length (opDelete_Encode std_wire ?d 3) < 2 ^ 31"
    by (simp add: opDelete_Encode_def std_append_def setLength_def Let_def)
  ultimately show ?thesis using opDelete_Encode_loses_name [OF std_wire_laws, of ?d 3] by simp
qed

end
