(* ===== verification/DistCache.thy ===== *)
theory DistCache
  imports Operations
begin

text \<open>
  The cache shared between the instances of the program, \<^verbatim>\<open>src/mongo/distributed_cache.go\<close>.
  The groups of the \<^verbatim>\<open>groupcache\<close> package that hold the data are not part of the program:
  their state is a type variable and their methods are the fields of \<open>group_api\<close>, an argument
  of the operations; \<open>group_laws\<close> is what the package documents of a key that was set or
  removed. The JSON text that is stored is represented by the structure it was made from,
  which is what \<^verbatim>\<open>json.Unmarshal\<close> gives back; a text of another structure fails to
  unmarshal.
\<close>

section \<open>Data\<close>

type_synonym server_ref = nat
type_synonym conn_ref = nat

datatype SessionState = SessionStateActive | SessionStateInactive | SessionStateEnded

datatype TransactionState = TransactionStateNone | TransactionStateStarting | TransactionStateInProgress
  | TransactionStateCommitted | TransactionStateAborted

record Session =
  S_ID :: string
  S_LsID :: bytes
  ClientID :: string
  S_State :: SessionState
  CreatedAt :: time
  LastActivity :: time
  S_TransactionState :: TransactionState
  CurrentTxnNumber :: int
  PinnedServer :: "server_ref option"
  PinnedConnection :: "conn_ref option"

record SessionLocation =
  SL_SessionID :: string
  PodIP :: string
  PodPort :: int
  SL_CreatedAt :: time
  SL_LastActivity :: time

record SessionData =
  SD_ID :: string
  SD_LsID :: bytes
  SD_ClientID :: string
  SD_State :: SessionState
  SD_CreatedAt :: time
  SD_LastActivity :: time
  SD_TransactionState :: TransactionState
  SD_CurrentTxnNumber :: int
  PinnedServerID :: string
  PinnedConnID :: string

record TransactionData =
  TD_LsID :: bytes
  TD_ServerID :: string
  TransactionNum :: int
  TD_CreatedAt :: time

record CursorData =
  CD_CursorID :: int
  CD_Collection :: string
  CD_ServerID :: string
  CD_DatabaseName :: string
  CD_CreatedAt :: time

datatype json = JSession SessionData | JTransaction TransactionData | JCursor CursorData
  | JLocation SessionLocation

fun Unmarshal_session :: "json \<Rightarrow> SessionData option" where
  "Unmarshal_session (JSession d) = Some d" | "Unmarshal_session _ = None"

fun Unmarshal_transaction :: "json \<Rightarrow> TransactionData option" where
  "Unmarshal_transaction (JTransaction d) = Some d" | "Unmarshal_transaction _ = None"

fun Unmarshal_cursor :: "json \<Rightarrow> CursorData option" where
  "Unmarshal_cursor (JCursor d) = Some d" | "Unmarshal_cursor _ = None"

fun Unmarshal_location :: "json \<Rightarrow> SessionLocation option" where
  "Unmarshal_location (JLocation d) = Some d" | "Unmarshal_location _ = None"

record RequestForwarderConfig =
  RF_MaxConnections :: int
  RF_ConnectionTimeout :: duration
  RF_KeepAlive :: bool
  RF_KeepAliveInterval :: duration

record DistributedCacheConfig =
  DC_Enabled :: bool
  ListenAddr :: string
  ListenPort :: int
  CacheSizeBytes :: int
  SessionExpiry :: duration
  TransactionExpiry :: duration
  CursorExpiry :: duration
  DC_Debug :: bool
  LabelSelector :: string
  PeerURLs :: "string list"
  RequestForwarding :: RequestForwarderConfig

text \<open>
  The groups of one daemon. \<open>Set\<close> and \<open>Remove\<close> return an error or nothing; \<open>Get\<close> may load from
  other instances and so change the group.
\<close>

record 'g group_api =
  g_Set :: "'g \<Rightarrow> string \<Rightarrow> json \<Rightarrow> time \<Rightarrow> string option \<times> 'g"
  g_Get :: "time \<Rightarrow> 'g \<Rightarrow> string \<Rightarrow> (string + json) \<times> 'g"
  g_Remove :: "'g \<Rightarrow> string \<Rightarrow> string option \<times> 'g"
  g_UsedBytes :: "'g \<Rightarrow> int \<times> int"
  g_Name :: "'g \<Rightarrow> string"

record 'g DistributedCache =
  dc_config :: DistributedCacheConfig
  dc_enabled :: bool
  myAddress :: string
  sessionGroup :: "'g option"
  transactionGroup :: "'g option"
  cursorGroup :: "'g option"
  sessionLocationGroup :: "'g option"
  dc_requestForwarder :: bool \<comment> \<open>whether the pointer is set\<close>

section \<open>Creation\<close>

text \<open>
  What creation asks of the outside: whether the daemon starts, which groups it creates, and
  whether the Kubernetes client and the peer discovery start. The peers handed to the daemon
  are returned beside the cache.
\<close>

record 'g cache_env =
  env_ListenAndServe :: "string \<Rightarrow> bool"
  env_NewGroup :: "string \<Rightarrow> int \<Rightarrow> 'g option"
  env_kubeclient_New :: bool
  env_UpdatePeers :: "string \<Rightarrow> string \<Rightarrow> bool" \<comment> \<open>label selector and port\<close>

record peer_info =
  peer_Address :: string
  IsSelf :: bool

datatype discovery = NoDiscovery | Kubernetes string string | ManualPeers "peer_info list"

definition manual_peers :: "string \<Rightarrow> string list \<Rightarrow> peer_info list" where
  "manual_peers self urls =
     \<lparr>peer_Address = self, IsSelf = True\<rparr> #
     map (\<lambda>peerURL.
            let peerAddr = (if length peerURL > 7 \<and> take 7 peerURL = ''http://'' then drop 7 peerURL else peerURL)
            in \<lparr>peer_Address = peerAddr, IsSelf = False\<rparr>) urls"

definition createGroup :: "'g cache_env \<Rightarrow> DistributedCacheConfig \<Rightarrow> string \<Rightarrow> 'g option" where
  "createGroup env config name = env_NewGroup env name (go_div (CacheSizeBytes config) 3)"

definition disabledCache :: "DistributedCacheConfig \<Rightarrow> 'g DistributedCache" where
  "disabledCache config =
     \<lparr>dc_config = config, dc_enabled = False, myAddress = '''', sessionGroup = None, transactionGroup = None,
      cursorGroup = None, sessionLocationGroup = None, dc_requestForwarder = False\<rparr>"

definition NewDistributedCache ::
    "'g cache_env \<Rightarrow> DistributedCacheConfig \<Rightarrow> 'g DistributedCache \<times> discovery" where
  "NewDistributedCache env config =
     (if \<not> DC_Enabled config then (disabledCache config, NoDiscovery)
      else
        let address = ListenAddr config @ '':'' @ show_int (ListenPort config)
        in if \<not> env_ListenAndServe env address then (disabledCache config, NoDiscovery)
           else
             let disc =
                   (if PeerURLs config = [] then
                      (if \<not> env_kubeclient_New env then NoDiscovery
                       else
                         let labelSelector = (if LabelSelector config = '''' then ''app.kubernetes.io/name=mongobouncer''
                                              else LabelSelector config);
                             port = '':'' @ show_int (ListenPort config)
                         in if env_UpdatePeers env labelSelector port then Kubernetes labelSelector port
                            else NoDiscovery)
                    else ManualPeers (manual_peers address (PeerURLs config)))
             in (\<lparr>dc_config = config, dc_enabled = True, myAddress = address,
                  sessionGroup = createGroup env config ''sessions'',
                  transactionGroup = createGroup env config ''transactions'',
                  cursorGroup = createGroup env config ''cursors'',
                  sessionLocationGroup = createGroup env config ''session_locations'',
                  dc_requestForwarder = True\<rparr>, disc))"

section \<open>Operations\<close>

text \<open>The verb \<^verbatim>\<open>%p\<close>, with the reference as the address.\<close>

fun show_hex :: "nat \<Rightarrow> string" where
  "show_hex n = (if n < 16 then [hex_digit n] else show_hex (n div 16) @ [hex_digit (n mod 16)])"

declare show_hex.simps [simp del]

definition show_pointer :: "nat option \<Rightarrow> string" where
  "show_pointer p = (case p of None \<Rightarrow> ''%!p(<nil>)'' | Some a \<Rightarrow> ''0x'' @ show_hex a)"

definition IsEnabled :: "'g DistributedCache \<Rightarrow> bool" where
  "IsEnabled dc = dc_enabled dc"

definition IsRequestForwardingEnabled :: "'g DistributedCache \<Rightarrow> bool" where
  "IsRequestForwardingEnabled dc = (dc_enabled dc \<and> dc_requestForwarder dc)"

definition session_data :: "Session \<Rightarrow> SessionData" where
  "session_data s =
     \<lparr>SD_ID = S_ID s, SD_LsID = S_LsID s, SD_ClientID = ClientID s, SD_State = S_State s,
      SD_CreatedAt = CreatedAt s, SD_LastActivity = LastActivity s, SD_TransactionState = S_TransactionState s,
      SD_CurrentTxnNumber = CurrentTxnNumber s,
      PinnedServerID = (case PinnedServer s of None \<Rightarrow> '''' | Some a \<Rightarrow> ''server_'' @ show_pointer (Some a)),
      PinnedConnID = (case PinnedConnection s of None \<Rightarrow> '''' | Some a \<Rightarrow> ''conn_'' @ show_pointer (Some a))\<rparr>"

text \<open>An error of \<open>Set\<close> is logged and not returned.\<close>

definition StoreSession :: "'g group_api \<Rightarrow> time \<Rightarrow> Session \<Rightarrow> 'g DistributedCache \<Rightarrow> string option \<times> 'g DistributedCache" where
  "StoreSession api now session dc =
     (if \<not> dc_enabled dc \<or> sessionGroup dc = None then (None, dc)
      else
        let g = the (sessionGroup dc);
            expire = now + SessionExpiry (dc_config dc);
            (err, g) = g_Set api g (S_ID session) (JSession (session_data session)) expire
        in (None, dc\<lparr>sessionGroup := Some g\<rparr>))"

definition data_session :: "SessionData \<Rightarrow> Session" where
  "data_session d =
     \<lparr>S_ID = SD_ID d, S_LsID = SD_LsID d, ClientID = SD_ClientID d, S_State = SD_State d,
      CreatedAt = SD_CreatedAt d, LastActivity = SD_LastActivity d, S_TransactionState = SD_TransactionState d,
      CurrentTxnNumber = SD_CurrentTxnNumber d, PinnedServer = None, PinnedConnection = None\<rparr>"

definition dc_GetSession :: "'g group_api \<Rightarrow> time \<Rightarrow> string \<Rightarrow> 'g DistributedCache \<Rightarrow> Session option \<times> 'g DistributedCache" where
  "dc_GetSession api now sessionID dc =
     (if \<not> dc_enabled dc \<or> sessionGroup dc = None then (None, dc)
      else
        let (res, g) = g_Get api now (the (sessionGroup dc)) sessionID;
            dc = dc\<lparr>sessionGroup := Some g\<rparr>
        in case res of
             Inl err \<Rightarrow> (None, dc)
           | Inr data \<Rightarrow>
               (case Unmarshal_session data of
                  None \<Rightarrow> (None, dc)
                | Some sessionData \<Rightarrow> (Some (data_session sessionData), dc)))"

definition transaction_key :: "bytes \<Rightarrow> string" where
  "transaction_key lsid = ''txn_'' @ hex_encode lsid"

definition StoreTransaction ::
    "'g group_api \<Rightarrow> time \<Rightarrow> bytes \<Rightarrow> server_ref option \<Rightarrow> int \<Rightarrow> 'g DistributedCache \<Rightarrow> string option \<times> 'g DistributedCache" where
  "StoreTransaction api now lsid server txnNumber dc =
     (if \<not> dc_enabled dc \<or> transactionGroup dc = None then (None, dc)
      else
        let data = JTransaction \<lparr>TD_LsID = lsid, TD_ServerID = ''server_'' @ show_pointer server,
                                 TransactionNum = txnNumber, TD_CreatedAt = now\<rparr>;
            expire = now + TransactionExpiry (dc_config dc);
            (err, g) = g_Set api (the (transactionGroup dc)) (transaction_key lsid) data expire
        in (None, dc\<lparr>transactionGroup := Some g\<rparr>))"

text \<open>The server is always nil: only whether the transaction is known is returned.\<close>

definition GetTransaction :: "'g group_api \<Rightarrow> time \<Rightarrow> bytes \<Rightarrow> 'g DistributedCache \<Rightarrow> bool \<times> 'g DistributedCache" where
  "GetTransaction api now lsid dc =
     (if \<not> dc_enabled dc \<or> transactionGroup dc = None then (False, dc)
      else
        let (res, g) = g_Get api now (the (transactionGroup dc)) (transaction_key lsid);
            dc = dc\<lparr>transactionGroup := Some g\<rparr>
        in case res of
             Inl err \<Rightarrow> (False, dc)
           | Inr data \<Rightarrow> (Unmarshal_transaction data \<noteq> None, dc))"

definition cursor_key :: "int \<Rightarrow> string \<Rightarrow> string" where
  "cursor_key cursorID collection = ''cursor_'' @ show_int cursorID @ ''_'' @ collection"

definition StoreCursor ::
    "'g group_api \<Rightarrow> time \<Rightarrow> int \<Rightarrow> string \<Rightarrow> server_ref option \<Rightarrow> string \<Rightarrow> 'g DistributedCache \<Rightarrow> string option \<times> 'g DistributedCache" where
  "StoreCursor api now cursorID collection server databaseName dc =
     (if \<not> dc_enabled dc \<or> cursorGroup dc = None then (None, dc)
      else
        let data = JCursor \<lparr>CD_CursorID = cursorID, CD_Collection = collection,
                            CD_ServerID = ''server_'' @ show_pointer server,
                            CD_DatabaseName = databaseName, CD_CreatedAt = now\<rparr>;
            expire = now + CursorExpiry (dc_config dc);
            (err, g) = g_Set api (the (cursorGroup dc)) (cursor_key cursorID collection) data expire
        in (None, dc\<lparr>cursorGroup := Some g\<rparr>))"

definition GetCursor :: "'g group_api \<Rightarrow> time \<Rightarrow> int \<Rightarrow> string \<Rightarrow> 'g DistributedCache \<Rightarrow> string option \<times> 'g DistributedCache" where
  "GetCursor api now cursorID collection dc =
     (if \<not> dc_enabled dc \<or> cursorGroup dc = None then (None, dc)
      else
        let (res, g) = g_Get api now (the (cursorGroup dc)) (cursor_key cursorID collection);
            dc = dc\<lparr>cursorGroup := Some g\<rparr>
        in case res of
             Inl err \<Rightarrow> (None, dc)
           | Inr data \<Rightarrow> (map_option CD_DatabaseName (Unmarshal_cursor data), dc))"

definition RemoveSession :: "'g group_api \<Rightarrow> string \<Rightarrow> 'g DistributedCache \<Rightarrow> string option \<times> 'g DistributedCache" where
  "RemoveSession api sessionID dc =
     (if \<not> dc_enabled dc \<or> sessionGroup dc = None then (None, dc)
      else let (err, g) = g_Remove api (the (sessionGroup dc)) sessionID
           in (err, dc\<lparr>sessionGroup := Some g\<rparr>))"

definition RemoveTransaction :: "'g group_api \<Rightarrow> bytes \<Rightarrow> 'g DistributedCache \<Rightarrow> string option \<times> 'g DistributedCache" where
  "RemoveTransaction api lsid dc =
     (if \<not> dc_enabled dc \<or> transactionGroup dc = None then (None, dc)
      else let (err, g) = g_Remove api (the (transactionGroup dc)) (transaction_key lsid)
           in (err, dc\<lparr>transactionGroup := Some g\<rparr>))"

definition RemoveCursor :: "'g group_api \<Rightarrow> int \<Rightarrow> string \<Rightarrow> 'g DistributedCache \<Rightarrow> string option \<times> 'g DistributedCache" where
  "RemoveCursor api cursorID collection dc =
     (if \<not> dc_enabled dc \<or> cursorGroup dc = None then (None, dc)
      else let (err, g) = g_Remove api (the (cursorGroup dc)) (cursor_key cursorID collection)
           in (err, dc\<lparr>cursorGroup := Some g\<rparr>))"

definition StoreSessionLocation ::
    "'g group_api \<Rightarrow> time \<Rightarrow> string \<Rightarrow> string \<Rightarrow> int \<Rightarrow> 'g DistributedCache \<Rightarrow> string option \<times> 'g DistributedCache" where
  "StoreSessionLocation api now sessionID podIP podPort dc =
     (if \<not> dc_enabled dc \<or> sessionLocationGroup dc = None then (None, dc)
      else
        let data = JLocation \<lparr>SL_SessionID = sessionID, PodIP = podIP, PodPort = podPort, SL_CreatedAt = now,
                              SL_LastActivity = now\<rparr>;
            expire = now + SessionExpiry (dc_config dc);
            (err, g) = g_Set api (the (sessionLocationGroup dc)) sessionID data expire
        in (None, dc\<lparr>sessionLocationGroup := Some g\<rparr>))"

definition GetSessionLocation ::
    "'g group_api \<Rightarrow> time \<Rightarrow> string \<Rightarrow> 'g DistributedCache \<Rightarrow> (string \<times> int) option \<times> 'g DistributedCache" where
  "GetSessionLocation api now sessionID dc =
     (if \<not> dc_enabled dc \<or> sessionLocationGroup dc = None then (None, dc)
      else
        let (res, g) = g_Get api now (the (sessionLocationGroup dc)) sessionID;
            dc = dc\<lparr>sessionLocationGroup := Some g\<rparr>
        in case res of
             Inl err \<Rightarrow> (None, dc)
           | Inr data \<Rightarrow> (map_option (\<lambda>l. (PodIP l, PodPort l)) (Unmarshal_location data), dc))"

definition RemoveSessionLocation :: "'g group_api \<Rightarrow> string \<Rightarrow> 'g DistributedCache \<Rightarrow> string option \<times> 'g DistributedCache" where
  "RemoveSessionLocation api sessionID dc =
     (if \<not> dc_enabled dc \<or> sessionLocationGroup dc = None then (None, dc)
      else let (err, g) = g_Remove api (the (sessionLocationGroup dc)) sessionID
           in (err, dc\<lparr>sessionLocationGroup := Some g\<rparr>))"

record group_stats =
  gs_name :: string
  used_bytes :: int
  total_bytes :: int

record dc_stats =
  st_enabled :: bool
  st_my_address :: "string option"
  st_session_group :: "group_stats option"
  st_transaction_group :: "group_stats option"
  st_cursor_group :: "group_stats option"

definition dc_GetStats :: "'g group_api \<Rightarrow> 'g DistributedCache \<Rightarrow> dc_stats" where
  "dc_GetStats api dc =
     (let stats = map_option (\<lambda>g. \<lparr>gs_name = g_Name api g, used_bytes = fst (g_UsedBytes api g),
                                   total_bytes = snd (g_UsedBytes api g)\<rparr>)
      in if \<not> dc_enabled dc then
           \<lparr>st_enabled = False, st_my_address = None, st_session_group = None, st_transaction_group = None,
            st_cursor_group = None\<rparr>
         else
           \<lparr>st_enabled = True, st_my_address = Some (myAddress dc), st_session_group = stats (sessionGroup dc),
            st_transaction_group = stats (transactionGroup dc), st_cursor_group = stats (cursorGroup dc)\<rparr>)"

text \<open>The getters, which the groups call for a key they do not hold: nothing is loaded.\<close>

definition sessionGetter :: "string \<Rightarrow> string + json" where
  "sessionGetter key = Inl ''session not found''"

definition transactionGetter :: "string \<Rightarrow> string + json" where
  "transactionGetter key = Inl ''transaction not found''"

definition cursorGetter :: "string \<Rightarrow> string + json" where
  "cursorGetter key = Inl (''cursor not found: '' @ key)"

definition sessionLocationGetter :: "string \<Rightarrow> string + json" where
  "sessionLocationGetter key = Inl (''session location not found: '' @ key)"

end
