(* ===== verification/Sessions.thy ===== *)
theory Sessions
  imports DistCache
begin

text \<open>
  The sessions and their transactions, \<^verbatim>\<open>src/mongo/session_manager.go\<close>. A \<^verbatim>\<open>*Session\<close> is shared
  between the manager's map and the requests in flight, so the session objects are cells of
  a heap and the map holds their addresses. The shared cache is an argument of the
  operations that use it, \<open>None\<close> where the manager's pointer is nil. Each operation runs under
  the session's mutex; an execution is a sequence of operations, each with one reading of
  the clock: \<open>SM_step\<close>.
\<close>

section \<open>State\<close>

type_synonym session_ref = nat

record SessionManager =
  sm_sessions :: "string \<rightharpoonup> session_ref"
  sm_heap :: "session_ref \<rightharpoonup> Session"
  sm_next :: session_ref

type_synonym 'g sm_state = "SessionManager \<times> 'g DistributedCache option"

definition NewSessionManager :: SessionManager where
  "NewSessionManager = \<lparr>sm_sessions = Map.empty, sm_heap = Map.empty, sm_next = 0\<rparr>"

definition session_at :: "SessionManager \<Rightarrow> session_ref \<Rightarrow> Session" where
  "session_at sm r = the (sm_heap sm r)"

definition update_session :: "session_ref \<Rightarrow> (Session \<Rightarrow> Session) \<Rightarrow> SessionManager \<Rightarrow> SessionManager" where
  "update_session r f sm = sm\<lparr>sm_heap := (sm_heap sm)(r := map_option f (sm_heap sm r))\<rparr>"

definition new_session :: "Session \<Rightarrow> SessionManager \<Rightarrow> session_ref \<times> SessionManager" where
  "new_session s sm =
     (sm_next sm, sm\<lparr>sm_heap := (sm_heap sm)(sm_next sm \<mapsto> s), sm_next := Suc (sm_next sm)\<rparr>)"

definition publish :: "string \<Rightarrow> session_ref \<Rightarrow> SessionManager \<Rightarrow> SessionManager" where
  "publish sessionID r sm = sm\<lparr>sm_sessions := (sm_sessions sm)(sessionID \<mapsto> r)\<rparr>"

text \<open>\<^verbatim>\<open>sm.distributedCache != nil && sm.distributedCache.IsEnabled()\<close>\<close>

definition dc_active :: "'g DistributedCache option \<Rightarrow> bool" where
  "dc_active dc = (case dc of None \<Rightarrow> False | Some d \<Rightarrow> IsEnabled d)"

section \<open>Operations\<close>

definition GenerateLogicalSessionID :: "(string + bytes) \<Rightarrow> string + bytes" where
  "GenerateLogicalSessionID rand =
     (case rand of
        Inl err \<Rightarrow> Inl (''failed to generate logical session ID: '' @ err)
      | Inr bs \<Rightarrow> Inr (take 16 (bs @ replicate 16 0)))"

definition CreateSession ::
    "'g group_api \<Rightarrow> time \<Rightarrow> (string + bytes) \<Rightarrow> string \<Rightarrow> 'g sm_state \<Rightarrow> (string + session_ref) \<times> 'g sm_state" where
  "CreateSession api now rand clientID st =
     (case st of (sm, dc) \<Rightarrow>
      case GenerateLogicalSessionID rand of
        Inl err \<Rightarrow> (Inl err, (sm, dc))
      | Inr lsid \<Rightarrow>
          let sessionID = base64_encode lsid;
              session = \<lparr>S_ID = sessionID, S_LsID = lsid, ClientID = clientID, S_State = SessionStateActive,
                         CreatedAt = now, LastActivity = now, S_TransactionState = TransactionStateNone,
                         CurrentTxnNumber = 0, PinnedServer = None, PinnedConnection = None\<rparr>;
              (r, sm) = new_session session sm;
              sm = publish sessionID r sm;
              dc = (if dc_active dc then map_option (\<lambda>d. snd (StoreSession api now session d)) dc else dc)
          in (Inr r, (sm, dc)))"

definition GetSession ::
    "'g group_api \<Rightarrow> time \<Rightarrow> bytes \<Rightarrow> 'g sm_state \<Rightarrow> session_ref option \<times> 'g sm_state" where
  "GetSession api now lsid st =
     (case st of (sm, dc) \<Rightarrow>
      let sessionID = base64_encode lsid;
          session = sm_sessions sm sessionID
      in if session \<noteq> None \<and> S_State (session_at sm (the session)) \<noteq> SessionStateEnded then
           (session, (update_session (the session) (\<lambda>s. s\<lparr>LastActivity := now\<rparr>) sm, dc))
         else if dc_active dc then
           (case dc_GetSession api now sessionID (the dc) of
              (Some distributedSession, d) \<Rightarrow>
                let (r, sm) = new_session distributedSession sm;
                    sm = publish sessionID r sm
                in (Some r, (sm, Some d))
            | (None, d) \<Rightarrow> (None, (sm, Some d)))
         else (None, (sm, dc)))"

definition StartTransaction ::
    "'g group_api \<Rightarrow> time \<Rightarrow> session_ref \<Rightarrow> server_ref \<Rightarrow> conn_ref \<Rightarrow> int \<Rightarrow> 'g sm_state \<Rightarrow> string option \<times> 'g sm_state" where
  "StartTransaction api now r server connection txnNumber st =
     (case st of (sm, dc) \<Rightarrow>
      let session = session_at sm r
      in if S_State session \<noteq> SessionStateActive then
           (Some ''cannot start transaction on inactive session'', (sm, dc))
         else if S_TransactionState session \<noteq> TransactionStateNone then
           (Some ''transaction already in progress'', (sm, dc))
         else
           let sm = update_session r (\<lambda>s. s\<lparr>CurrentTxnNumber := txnNumber,
                       S_TransactionState := TransactionStateInProgress, PinnedServer := Some server,
                       PinnedConnection := Some connection, LastActivity := now\<rparr>) sm;
               dc = (if dc_active dc then
                       map_option (\<lambda>d. snd (StoreSession api now (session_at sm r)
                         (snd (StoreTransaction api now (S_LsID session) (Some server) txnNumber d)))) dc
                     else dc)
           in (None, (sm, dc)))"

definition CommitTransaction :: "time \<Rightarrow> session_ref \<Rightarrow> SessionManager \<Rightarrow> string option \<times> SessionManager" where
  "CommitTransaction now r sm =
     (if S_TransactionState (session_at sm r) \<noteq> TransactionStateInProgress then
        (Some ''no transaction in progress to commit'', sm)
      else (None, update_session r (\<lambda>s. s\<lparr>S_TransactionState := TransactionStateCommitted, LastActivity := now\<rparr>) sm))"

definition UnpinTransaction :: "session_ref \<Rightarrow> SessionManager \<Rightarrow> SessionManager" where
  "UnpinTransaction r sm = update_session r (\<lambda>s. s\<lparr>PinnedServer := None, PinnedConnection := None\<rparr>) sm"

definition ResetTransactionState :: "session_ref \<Rightarrow> SessionManager \<Rightarrow> SessionManager" where
  "ResetTransactionState r sm =
     update_session r (\<lambda>s. s\<lparr>S_TransactionState := TransactionStateNone, CurrentTxnNumber := 0,
                             PinnedServer := None, PinnedConnection := None\<rparr>) sm"

definition sm_AbortTransaction :: "time \<Rightarrow> session_ref \<Rightarrow> SessionManager \<Rightarrow> string option \<times> SessionManager" where
  "sm_AbortTransaction now r sm =
     (if S_TransactionState (session_at sm r) \<noteq> TransactionStateInProgress then
        (Some ''no transaction in progress to abort'', sm)
      else (None, update_session r (\<lambda>s. s\<lparr>S_TransactionState := TransactionStateAborted, LastActivity := now\<rparr>) sm))"

definition EndSession :: "'g group_api \<Rightarrow> time \<Rightarrow> session_ref \<Rightarrow> 'g sm_state \<Rightarrow> string option \<times> 'g sm_state" where
  "EndSession api now r st =
     (case st of (sm, dc) \<Rightarrow>
      if S_State (session_at sm r) = SessionStateEnded then (None, (sm, dc))
      else
        let sm = (if S_TransactionState (session_at sm r) = TransactionStateInProgress then
                    update_session r (\<lambda>s. s\<lparr>S_TransactionState := TransactionStateAborted, PinnedServer := None,
                                            PinnedConnection := None\<rparr>) sm
                  else sm);
            sm = update_session r (\<lambda>s. s\<lparr>S_State := SessionStateEnded, LastActivity := now\<rparr>) sm;
            sm = sm\<lparr>sm_sessions := (sm_sessions sm)(S_ID (session_at sm r) := None)\<rparr>;
            dc = (if dc_active dc then map_option (\<lambda>d. snd (RemoveSession api (S_ID (session_at sm r)) d)) dc else dc)
        in (None, (sm, dc)))"

definition CleanupInactiveSessions :: "time \<Rightarrow> duration \<Rightarrow> SessionManager \<Rightarrow> SessionManager" where
  "CleanupInactiveSessions now maxInactiveTime sm =
     sm\<lparr>sm_sessions := (\<lambda>sessionID.
          case sm_sessions sm sessionID of
            None \<Rightarrow> None
          | Some r \<Rightarrow>
              if S_State (session_at sm r) = SessionStateEnded \<or>
                 now - LastActivity (session_at sm r) > maxInactiveTime
              then None else Some r)\<rparr>"

definition GetSessionCount :: "SessionManager \<Rightarrow> nat" where
  "GetSessionCount sm = card (dom (sm_sessions sm))"

definition GetPinnedServer :: "session_ref \<Rightarrow> SessionManager \<Rightarrow> server_ref option" where
  "GetPinnedServer r sm =
     (let session = session_at sm r
      in if S_TransactionState session = TransactionStateInProgress \<and> PinnedServer session \<noteq> None
         then PinnedServer session else None)"

definition GetPinnedConnection :: "session_ref \<Rightarrow> SessionManager \<Rightarrow> conn_ref option" where
  "GetPinnedConnection r sm =
     (let session = session_at sm r
      in if (S_TransactionState session = TransactionStateInProgress \<or>
             S_TransactionState session = TransactionStateCommitted \<or>
             S_TransactionState session = TransactionStateAborted) \<and> PinnedConnection session \<noteq> None
         then PinnedConnection session else None)"

definition IsTransactionActive :: "session_ref \<Rightarrow> SessionManager \<Rightarrow> bool" where
  "IsTransactionActive r sm \<longleftrightarrow> S_TransactionState (session_at sm r) = TransactionStateInProgress"

definition CleanupExpiredSessions :: "time \<Rightarrow> duration \<Rightarrow> SessionManager \<Rightarrow> SessionManager" where
  "CleanupExpiredSessions now maxAge sm =
     sm\<lparr>sm_sessions := (\<lambda>sessionID.
          case sm_sessions sm sessionID of
            None \<Rightarrow> None
          | Some r \<Rightarrow> if now - LastActivity (session_at sm r) > maxAge then None else Some r)\<rparr>"

definition GetActiveTransactionCount :: "SessionManager \<Rightarrow> nat" where
  "GetActiveTransactionCount sm =
     card {sessionID. \<exists>r. sm_sessions sm sessionID = Some r \<and> S_TransactionState (session_at sm r) = TransactionStateInProgress}"

text \<open>What \<open>RoundTrip\<close> does for the first command of a session it does not know.\<close>

definition adoptSession :: "time \<Rightarrow> bytes \<Rightarrow> SessionManager \<Rightarrow> session_ref \<times> SessionManager" where
  "adoptSession now lsid sm =
     (let sessionID = base64_encode lsid;
          (r, sm) = new_session \<lparr>S_ID = sessionID, S_LsID = lsid, ClientID = ''unknown'',
                       S_State = SessionStateActive, CreatedAt = now, LastActivity = now,
                       S_TransactionState = TransactionStateNone, CurrentTxnNumber = 0,
                       PinnedServer = None, PinnedConnection = None\<rparr> sm
      in (r, publish sessionID r sm))"

section \<open>Executions\<close>

text \<open>
  What \<^verbatim>\<open>groupcache\<close> documents: a value that was set without an error can be read until it
  expires, a removed key cannot be read, and only values that were set under a key are
  ever read under it.
\<close>

definition set_get_law :: "'g group_api \<Rightarrow> bool" where
  "set_get_law api \<longleftrightarrow>
     (\<forall>g k v e now. fst (g_Set api g k v e) = None \<longrightarrow> now \<le> e \<longrightarrow>
        fst (g_Get api now (snd (g_Set api g k v e)) k) = Inr v)"

definition remove_get_law :: "'g group_api \<Rightarrow> bool" where
  "remove_get_law api \<longleftrightarrow>
     (\<forall>g k now. fst (g_Remove api g k) = None \<longrightarrow> isl (fst (g_Get api now (snd (g_Remove api g k)) k)))"

definition only_set_law :: "'g group_api \<Rightarrow> bool" where
  "only_set_law api \<longleftrightarrow>
     (\<forall>g k v e k' v' now. fst (g_Get api now (snd (g_Set api g k v e)) k') = Inr v' \<longrightarrow>
        k' = k \<and> v' = v \<or> (\<exists>t. fst (g_Get api t g k') = Inr v')) \<and>
     (\<forall>g g' k' v' now. (\<exists>t k. g' = snd (g_Get api t g k)) \<or> (\<exists>k. g' = snd (g_Remove api g k)) \<longrightarrow>
        fst (g_Get api now g' k') = Inr v' \<longrightarrow> (\<exists>t. fst (g_Get api t g k') = Inr v'))"

definition group_laws :: "'g group_api \<Rightarrow> bool" where
  "group_laws api \<longleftrightarrow> set_get_law api \<and> remove_get_law api \<and> only_set_law api"

lemma group_set_only:
  "group_laws api \<Longrightarrow> fst (g_Get api now (snd (g_Set api g k v e)) k') = Inr v' \<Longrightarrow>
   k' = k \<and> v' = v \<or> (\<exists>t. fst (g_Get api t g k') = Inr v')"
  unfolding group_laws_def only_set_law_def by (elim conjE) blast

lemma group_other_only:
  "group_laws api \<Longrightarrow> (\<exists>t k. g' = snd (g_Get api t g k)) \<or> (\<exists>k. g' = snd (g_Remove api g k)) \<Longrightarrow>
   fst (g_Get api now g' k') = Inr v' \<Longrightarrow> \<exists>t. fst (g_Get api t g k') = Inr v'"
  unfolding group_laws_def only_set_law_def by (elim conjE) (rule disjE, assumption, blast+)

text \<open>The sessions other instances put into the shared cache are stored under their own id.\<close>

definition group_sound :: "'g group_api \<Rightarrow> 'g \<Rightarrow> bool" where
  "group_sound api g \<longleftrightarrow>
     (\<forall>now k d. fst (g_Get api now g k) = Inr (JSession d) \<longrightarrow> SD_ID d = k \<and> base64_encode (SD_LsID d) = k)"

definition dc_sound :: "'g group_api \<Rightarrow> 'g DistributedCache option \<Rightarrow> bool" where
  "dc_sound api dc \<longleftrightarrow> (\<forall>d g. dc = Some d \<longrightarrow> sessionGroup d = Some g \<longrightarrow> group_sound api g)"

datatype SM_event = Started session_ref bytes | Finished session_ref bytes | Adopted session_ref bytes | Silent

text \<open>
  One operation of this instance, or a change other instances make to the shared cache.
  Started transactions and their ends are visible, each with the session object and its logical
  session id, and so are the sessions that come from the shared cache with a transaction in progress, as new objects.
\<close>

definition get_event :: "'g group_api \<Rightarrow> time \<Rightarrow> bytes \<Rightarrow> 'g sm_state \<Rightarrow> SM_event" where
  "get_event api now lsid st =
     (case GetSession api now lsid st of
        (Some r, (sm', _)) \<Rightarrow>
          if sm_heap (fst st) r = None \<and> S_TransactionState (session_at sm' r) = TransactionStateInProgress
          then Adopted r lsid else Silent
      | (None, _) \<Rightarrow> Silent)"

inductive SM_step :: "'g group_api \<Rightarrow> SM_event \<Rightarrow> 'g sm_state \<Rightarrow> 'g sm_state \<Rightarrow> bool" for api where
  create: "SM_step api Silent st (snd (CreateSession api now rand clientID st))"
| get: "SM_step api (get_event api now lsid st) st (snd (GetSession api now lsid st))"
| adopt: "SM_step api Silent (sm, dc) (snd (adoptSession now lsid sm), dc)"
| start: "sm_heap sm r \<noteq> None \<Longrightarrow> StartTransaction api now r server conn txn (sm, dc) = (None, st') \<Longrightarrow>
    SM_step api (Started r (S_LsID (session_at sm r))) (sm, dc) st'"
| commit: "CommitTransaction now r sm = (None, sm') \<Longrightarrow> sm_heap sm r \<noteq> None \<Longrightarrow>
    SM_step api (Finished r (S_LsID (session_at sm r))) (sm, dc) (sm', dc)"
| abort: "sm_AbortTransaction now r sm = (None, sm') \<Longrightarrow> sm_heap sm r \<noteq> None \<Longrightarrow>
    SM_step api (Finished r (S_LsID (session_at sm r))) (sm, dc) (sm', dc)"
| unpin: "SM_step api Silent (sm, dc) (UnpinTransaction r sm, dc)"
| reset: "SM_step api Silent (sm, dc) (ResetTransactionState r sm, dc)"
| end_session: "sm_heap sm r \<noteq> None \<Longrightarrow>
    SM_step api (if S_State (session_at sm r) \<noteq> SessionStateEnded \<and> IsTransactionActive r sm
      then Finished r (S_LsID (session_at sm r)) else Silent)
      (sm, dc) (snd (EndSession api now r (sm, dc)))"
| cleanup: "SM_step api Silent (sm, dc) (CleanupInactiveSessions now age sm, dc)"
| cleanup_expired: "SM_step api Silent (sm, dc) (CleanupExpiredSessions now age sm, dc)"
| peers: "dc_sound api dc' \<Longrightarrow> SM_step api Silent (sm, dc) (sm, dc')"

inductive SM_run :: "'g group_api \<Rightarrow> 'g sm_state \<Rightarrow> SM_event list \<Rightarrow> 'g sm_state \<Rightarrow> bool" for api where
  stop: "SM_run api st [] st"
| step: "SM_step api e st st' \<Longrightarrow> SM_run api st' es st'' \<Longrightarrow> SM_run api st (e # es) st''"

inductive_cases SM_run_NilE: "SM_run api st [] st'"
inductive_cases SM_run_ConsE: "SM_run api st (e # es) st'"

section \<open>The invariant\<close>

definition session_ok :: "Session \<Rightarrow> bool" where
  "session_ok s \<longleftrightarrow>
     S_ID s = base64_encode (S_LsID s) \<and>
     (PinnedServer s \<noteq> None \<or> PinnedConnection s \<noteq> None \<longrightarrow>
        S_TransactionState s \<in> {TransactionStateInProgress, TransactionStateCommitted, TransactionStateAborted})"

definition SM_inv :: "SessionManager \<Rightarrow> bool" where
  "SM_inv sm \<longleftrightarrow>
     (\<forall>r. sm_next sm \<le> r \<longrightarrow> sm_heap sm r = None) \<and>
     (\<forall>r s. sm_heap sm r = Some s \<longrightarrow> session_ok s) \<and>
     (\<forall>k r. sm_sessions sm k = Some r \<longrightarrow> (\<exists>s. sm_heap sm r = Some s \<and> S_ID s = k))"

lemma SM_invD:
  assumes "SM_inv sm"
  shows "sm_heap sm r = Some s \<Longrightarrow> session_ok s" and "sm_heap sm r = Some s \<Longrightarrow> r < sm_next sm"
    and "sm_sessions sm k = Some r \<Longrightarrow> \<exists>s. sm_heap sm r = Some s \<and> S_ID s = k"
  using assms unfolding SM_inv_def by (meson, metis not_less option.distinct(1), meson)

lemma SM_invI:
  assumes "\<And>r s. sm_heap sm r = Some s \<Longrightarrow> r < sm_next sm \<and> session_ok s"
    and "\<And>k r. sm_sessions sm k = Some r \<Longrightarrow> \<exists>s. sm_heap sm r = Some s \<and> S_ID s = k"
  shows "SM_inv sm"
  unfolding SM_inv_def using assms by (metis not_less option.exhaust)

lemma update_session_inv [wf_preserve]:
  assumes "SM_inv sm" and "\<And>s. sm_heap sm r = Some s \<Longrightarrow> session_ok s \<Longrightarrow> session_ok (f s) \<and> S_ID (f s) = S_ID s"
  shows "SM_inv (update_session r f sm)"
proof -
  have ok: "session_ok (f s) \<and> S_ID (f s) = S_ID s" if "sm_heap sm r = Some s" for s
    using assms that SM_invD(1) by blast
  show ?thesis
  proof (rule SM_invI)
    fix r' s' assume "sm_heap (update_session r f sm) r' = Some s'"
    then show "r' < sm_next (update_session r f sm) \<and> session_ok s'"
      using SM_invD(1,2) [OF assms(1)] ok by (auto simp: update_session_def split: if_splits)
  next
    fix k r' assume "sm_sessions (update_session r f sm) k = Some r'"
    then obtain s where "sm_heap sm r' = Some s" "S_ID s = k"
      using SM_invD(3) [OF assms(1)] by (auto simp: update_session_def)
    then show "\<exists>s. sm_heap (update_session r f sm) r' = Some s \<and> S_ID s = k"
      using ok by (auto simp: update_session_def)
  qed
qed

lemma new_session_inv [wf_preserve]:
  assumes "SM_inv sm" and "session_ok s" and "new_session s sm = (r, sm')"
  shows "SM_inv sm'" and "sm_heap sm' r = Some s" and "r = sm_next sm"
    and "sm_sessions sm' = sm_sessions sm" and "\<And>r'. r' \<noteq> r \<Longrightarrow> sm_heap sm' r' = sm_heap sm r'"
proof -
  have fresh: "sm_heap sm (sm_next sm) = None" using assms(1) by (simp add: SM_inv_def)
  have sm': "r = sm_next sm" "sm' = sm\<lparr>sm_heap := (sm_heap sm)(sm_next sm \<mapsto> s), sm_next := Suc (sm_next sm)\<rparr>"
    using assms(3) by (auto simp: new_session_def)
  show "sm_heap sm' r = Some s" "r = sm_next sm" "sm_sessions sm' = sm_sessions sm"
    "\<And>r'. r' \<noteq> r \<Longrightarrow> sm_heap sm' r' = sm_heap sm r'" using sm' by simp_all
  show "SM_inv sm'"
  proof (rule SM_invI)
    fix r' s' assume "sm_heap sm' r' = Some s'"
    then show "r' < sm_next sm' \<and> session_ok s'"
      using SM_invD(1,2) [OF assms(1)] assms(2) unfolding sm'(2) by (auto simp: less_Suc_eq split: if_splits)
  next
    fix k r' assume "sm_sessions sm' k = Some r'"
    then obtain s where "sm_heap sm r' = Some s" "S_ID s = k"
      using SM_invD(3) [OF assms(1)] unfolding sm'(2) by auto
    then show "\<exists>s. sm_heap sm' r' = Some s \<and> S_ID s = k"
      using fresh unfolding sm'(2) by (cases "r' = sm_next sm") auto
  qed
qed

lemma publish_inv [wf_preserve]:
  assumes "SM_inv sm" and "sm_heap sm r = Some s" and "S_ID s = k"
  shows "SM_inv (publish k r sm)"
  using assms by (auto simp: SM_inv_def publish_def)

lemma restrict_sessions_inv [wf_preserve]:
  assumes "SM_inv sm" and "\<And>k. f k = None \<or> f k = sm_sessions sm k"
  shows "SM_inv (sm\<lparr>sm_sessions := f\<rparr>)"
  using SM_invD [OF assms(1)] assms(2) by (intro SM_invI) (simp_all, metis option.distinct(1))

subsection \<open>The shared cache stays sound\<close>

lemma group_soundI:
  assumes "\<And>now k d. fst (g_Get api now g' k) = Inr (JSession d) \<Longrightarrow>
      (\<exists>t. fst (g_Get api t g k) = Inr (JSession d)) \<or> SD_ID d = k \<and> base64_encode (SD_LsID d) = k"
    and "group_sound api g"
  shows "group_sound api g'"
  using assms unfolding group_sound_def by blast

lemma StoreSession_sound [wf_preserve]:
  assumes "group_laws api" and "dc_sound api (Some d)" and "S_ID s = base64_encode (S_LsID s)"
  shows "dc_sound api (Some (snd (StoreSession api now s d)))"
proof (cases "dc_enabled d \<and> sessionGroup d \<noteq> None")
  case True
  then obtain g where g: "sessionGroup d = Some g" by blast
  let ?set = "g_Set api g (S_ID s) (JSession (session_data s)) (now + SessionExpiry (dc_config d))"
  have "group_sound api (snd ?set)"
  proof (rule group_soundI)
    fix t k x assume "fst (g_Get api t (snd ?set) k) = Inr (JSession x)"
    then have "k = S_ID s \<and> JSession x = JSession (session_data s) \<or> (\<exists>t. fst (g_Get api t g k) = Inr (JSession x))"
      by (rule group_set_only [OF assms(1)])
    then show "(\<exists>t. fst (g_Get api t g k) = Inr (JSession x)) \<or> SD_ID x = k \<and> base64_encode (SD_LsID x) = k"
      using assms(3) by (auto simp: session_data_def)
  next
    show "group_sound api g" using assms(2) g by (simp add: dc_sound_def)
  qed
  with True g show ?thesis by (auto simp: dc_sound_def StoreSession_def Let_def split: prod.splits)
next
  case False
  with assms(2) show ?thesis by (auto simp: StoreSession_def)
qed

lemma StoreTransaction_sessionGroup [simp, frame]:
  "sessionGroup (snd (StoreTransaction api now lsid server txn d)) = sessionGroup d"
  by (simp add: StoreTransaction_def Let_def split: prod.split)

lemma dc_GetSession_sound [wf_preserve]:
  assumes "group_laws api" and "dc_sound api (Some d)"
  shows "dc_sound api (Some (snd (dc_GetSession api now k d)))"
proof (cases "dc_enabled d \<and> sessionGroup d \<noteq> None")
  case True
  then obtain g where g: "sessionGroup d = Some g" by blast
  have "group_sound api (snd (g_Get api now g k))"
  proof (rule group_soundI [where g = g])
    show "group_sound api g" using assms(2) g by (simp add: dc_sound_def)
  qed (rule disjI1, rule group_other_only [OF assms(1)], auto)
  with True g show ?thesis
    by (auto simp: dc_sound_def dc_GetSession_def Let_def split: prod.splits sum.splits option.splits)
next
  case False
  with assms(2) show ?thesis by (auto simp: dc_GetSession_def)
qed

lemma RemoveSession_sound [wf_preserve]:
  assumes "group_laws api" and "dc_sound api (Some d)"
  shows "dc_sound api (Some (snd (RemoveSession api k d)))"
proof (cases "dc_enabled d \<and> sessionGroup d \<noteq> None")
  case True
  then obtain g where g: "sessionGroup d = Some g" by blast
  have "group_sound api (snd (g_Remove api g k))"
  proof (rule group_soundI [where g = g])
    show "group_sound api g" using assms(2) g by (simp add: dc_sound_def)
  qed (rule disjI1, rule group_other_only [OF assms(1)], auto)
  with True g show ?thesis
    by (auto simp: dc_sound_def RemoveSession_def Let_def split: prod.splits)
next
  case False
  with assms(2) show ?thesis by (auto simp: RemoveSession_def)
qed

lemma dc_GetSession_value:
  assumes "dc_sound api (Some d)" and "fst (dc_GetSession api now k d) = Some s"
  shows "S_ID s = k" and "session_ok s"
proof -
  from assms(2) obtain g x where g: "sessionGroup d = Some g" and x: "fst (g_Get api now g k) = Inr (JSession x)"
    and s: "s = data_session x"
    by (auto simp: dc_GetSession_def Let_def split: if_splits prod.splits sum.splits option.splits
        elim: Unmarshal_session.elims)
  then have "SD_ID x = k \<and> base64_encode (SD_LsID x) = k"
    using assms(1) by (auto simp: dc_sound_def group_sound_def)
  then show "S_ID s = k" "session_ok s" by (auto simp: s data_session_def session_ok_def)
qed

subsection \<open>Every operation keeps the invariant\<close>

definition st_inv :: "'g group_api \<Rightarrow> 'g sm_state \<Rightarrow> bool" where
  "st_inv api st \<longleftrightarrow> SM_inv (fst st) \<and> dc_sound api (snd st)"

lemma session_at_ok: "SM_inv sm \<Longrightarrow> sm_heap sm r \<noteq> None \<Longrightarrow> session_ok (session_at sm r)"
  using SM_invD(1) by (fastforce simp: session_at_def)

lemma session_at_update [simp]:
  "sm_heap sm r \<noteq> None \<Longrightarrow> session_at (update_session r f sm) r = f (session_at sm r)"
  by (auto simp: session_at_def update_session_def)

lemma heap_update_session [simp]: "sm_heap (update_session r f sm) r' = None \<longleftrightarrow> sm_heap sm r' = None"
  by (simp add: update_session_def)

lemma new_published_inv:
  assumes "SM_inv sm" and "session_ok s" and "new_session s sm = (r, sm')"
  shows "SM_inv (publish (S_ID s) r sm')"
  using new_session_inv [OF assms] by (intro publish_inv) auto

lemma CreateSession_inv [wf_preserve]:
  assumes "group_laws api" and "st_inv api st"
  shows "st_inv api (snd (CreateSession api now rand clientID st))"
proof -
  obtain sm dc where st: "st = (sm, dc)" by fastforce
  show ?thesis
  proof (cases "GenerateLogicalSessionID rand")
    case (Inl err)
    with assms(2) st show ?thesis by (simp add: CreateSession_def)
  next
    case (Inr lsid)
    define s where "s = \<lparr>S_ID = base64_encode lsid, S_LsID = lsid, ClientID = clientID, S_State = SessionStateActive,
      CreatedAt = now, LastActivity = now, S_TransactionState = TransactionStateNone, CurrentTxnNumber = 0,
      PinnedServer = None, PinnedConnection = None\<rparr>"
    obtain r sm' where new: "new_session s sm = (r, sm')" by fastforce
    have "session_ok s" by (simp add: s_def session_ok_def)
    then have "SM_inv (publish (S_ID s) r sm')" using assms(2) st new by (auto simp: st_inv_def intro: new_published_inv)
    moreover have "dc_sound api (map_option (\<lambda>d. snd (StoreSession api now s d)) dc)"
      using StoreSession_sound [OF assms(1), of _ s now] assms(2) st
      by (cases dc) (auto simp: st_inv_def s_def dc_sound_def)
    ultimately show ?thesis
      using Inr st new assms(2) by (auto simp: CreateSession_def st_inv_def Let_def s_def)
  qed
qed

lemma GetSession_inv [wf_preserve]:
  assumes "group_laws api" and "st_inv api st"
  shows "st_inv api (snd (GetSession api now lsid st))"
proof -
  obtain sm dc where st: "st = (sm, dc)" by fastforce
  have inv: "SM_inv sm" "dc_sound api dc" using assms(2) st by (simp_all add: st_inv_def)
  have touch: "SM_inv (update_session r (\<lambda>s. s\<lparr>LastActivity := now\<rparr>) sm)" for r
    using inv(1) by (intro update_session_inv) (auto simp: session_ok_def)
  show ?thesis
  proof (cases "dc_active dc")
    case False
    with touch inv st show ?thesis by (auto simp: GetSession_def st_inv_def Let_def)
  next
    case True
    then obtain d where d: "dc = Some d" by (cases dc) (auto simp: dc_active_def)
    have sound: "dc_sound api (Some (snd (dc_GetSession api now (base64_encode lsid) d)))"
      using dc_GetSession_sound [OF assms(1)] inv(2) d by simp
    have pub: "SM_inv (publish (base64_encode lsid) (fst (new_session s sm)) (snd (new_session s sm)))"
      if "fst (dc_GetSession api now (base64_encode lsid) d) = Some s" for s
      using dc_GetSession_value [of api d now "base64_encode lsid" s] new_published_inv [OF inv(1), of s] that inv(2) d
      by auto
    show ?thesis
      using True d touch inv st sound pub
      by (auto simp: GetSession_def st_inv_def Let_def split: prod.splits option.splits)
  qed
qed

lemma StartTransaction_inv [wf_preserve]:
  assumes "group_laws api" and "st_inv api (sm, dc)" and "sm_heap sm r \<noteq> None"
  shows "st_inv api (snd (StartTransaction api now r server conn txn (sm, dc)))"
proof -
  define sm' where "sm' = update_session r (\<lambda>s. s\<lparr>CurrentTxnNumber := txn,
    S_TransactionState := TransactionStateInProgress, PinnedServer := Some server,
    PinnedConnection := Some conn, LastActivity := now\<rparr>) sm"
  have inv: "SM_inv sm" "dc_sound api dc" using assms(2) by (simp_all add: st_inv_def)
  then have inv': "SM_inv sm'" unfolding sm'_def by (intro update_session_inv) (auto simp: session_ok_def)
  have "dc_sound api (map_option (\<lambda>d. snd (StoreSession api now (session_at sm' r)
      (snd (StoreTransaction api now lsid (Some server) txn d)))) dc)" for lsid
  proof (cases dc)
    case (Some d)
    have "dc_sound api (Some (snd (StoreTransaction api now lsid (Some server) txn d)))"
      using inv(2) Some by (simp add: dc_sound_def)
    moreover have "session_ok (session_at sm' r)"
      using inv' assms(3) by (intro session_at_ok) (simp_all add: sm'_def)
    ultimately show ?thesis using Some StoreSession_sound [OF assms(1)] by (simp add: session_ok_def)
  qed (simp add: dc_sound_def)
  with inv inv' show ?thesis
    by (simp add: StartTransaction_def Let_def st_inv_def sm'_def)
qed

lemma EndSession_inv [wf_preserve]:
  assumes "group_laws api" and "st_inv api (sm, dc)"
  shows "st_inv api (snd (EndSession api now r (sm, dc)))"
proof -
  have inv: "SM_inv sm" "dc_sound api dc" using assms(2) by (simp_all add: st_inv_def)
  define sm1 where "sm1 = (if S_TransactionState (session_at sm r) = TransactionStateInProgress then
      update_session r (\<lambda>s. s\<lparr>S_TransactionState := TransactionStateAborted, PinnedServer := None,
        PinnedConnection := None\<rparr>) sm else sm)"
  define sm2 where "sm2 = update_session r (\<lambda>s. s\<lparr>S_State := SessionStateEnded, LastActivity := now\<rparr>) sm1"
  have "SM_inv sm1" using inv(1) unfolding sm1_def by (auto intro!: update_session_inv simp: session_ok_def)
  then have "SM_inv sm2" unfolding sm2_def by (intro update_session_inv) (auto simp: session_ok_def)
  then have "SM_inv (sm2\<lparr>sm_sessions := (sm_sessions sm2)(k := None)\<rparr>)" for k
    by (rule restrict_sessions_inv) simp
  moreover have "dc_sound api (map_option (\<lambda>d. snd (RemoveSession api k d)) dc)" for k
    using RemoveSession_sound [OF assms(1)] inv(2) by (cases dc) auto
  ultimately show ?thesis
    using inv by (simp add: EndSession_def Let_def st_inv_def sm1_def [symmetric] sm2_def [symmetric])
qed

lemma adoptSession_inv [wf_preserve]: "SM_inv sm \<Longrightarrow> SM_inv (snd (adoptSession now lsid sm))"
  using new_published_inv [of sm "\<lparr>S_ID = base64_encode lsid, S_LsID = lsid, ClientID = ''unknown'',
      S_State = SessionStateActive, CreatedAt = now, LastActivity = now,
      S_TransactionState = TransactionStateNone, CurrentTxnNumber = 0, PinnedServer = None, PinnedConnection = None\<rparr>"]
  by (auto simp: adoptSession_def session_ok_def Let_def split: prod.splits)

lemma local_ops_inv [wf_preserve]:
  assumes "SM_inv sm"
  shows "SM_inv (snd (CommitTransaction now r sm))" "SM_inv (snd (sm_AbortTransaction now r sm))"
    "SM_inv (UnpinTransaction r sm)" "SM_inv (ResetTransactionState r sm)"
    "SM_inv (CleanupInactiveSessions now age sm)" "SM_inv (CleanupExpiredSessions now age sm)"
proof -
  show "SM_inv (snd (CommitTransaction now r sm))" "SM_inv (snd (sm_AbortTransaction now r sm))"
    "SM_inv (UnpinTransaction r sm)" "SM_inv (ResetTransactionState r sm)"
    using assms by (auto simp: CommitTransaction_def sm_AbortTransaction_def UnpinTransaction_def
        ResetTransactionState_def session_ok_def intro!: update_session_inv)
  show "SM_inv (CleanupInactiveSessions now age sm)" "SM_inv (CleanupExpiredSessions now age sm)"
    unfolding CleanupInactiveSessions_def CleanupExpiredSessions_def
    by (rule restrict_sessions_inv [OF assms]; auto split: option.splits)+
qed

lemma SM_step_inv: "SM_step api e st st' \<Longrightarrow> group_laws api \<Longrightarrow> st_inv api st \<Longrightarrow> st_inv api st'"
proof (induction rule: SM_step.induct)
  case (start sm r now server conn txn dc st')
  then show ?case using StartTransaction_inv [of api sm dc r now server conn txn] by simp
next
  case (commit now r sm sm' dc)
  then show ?case using local_ops_inv(1) [of sm now r] by (simp add: st_inv_def)
next
  case (abort now r sm sm' dc)
  then show ?case using local_ops_inv(2) [of sm now r] by (simp add: st_inv_def)
next
  case (end_session sm r dc now)
  then show ?case by (intro EndSession_inv)
next
  case (create st now rand clientID)
  then show ?case by (intro CreateSession_inv)
next
  case (get now lsid st)
  then show ?case by (intro GetSession_inv)
qed (simp_all add: st_inv_def adoptSession_inv local_ops_inv)

lemma SM_run_inv: "SM_run api st es st' \<Longrightarrow> group_laws api \<Longrightarrow> st_inv api st \<Longrightarrow> st_inv api st'"
  by (induction rule: SM_run.induct) (auto dest: SM_step_inv)

lemma st_inv_New: "dc_sound api dc \<Longrightarrow> st_inv api (NewSessionManager, dc)"
  by (simp add: st_inv_def SM_inv_def NewSessionManager_def)

section \<open>A group that satisfies the laws\<close>

definition map_group :: "(string \<rightharpoonup> json \<times> time) group_api" where
  "map_group =
     \<lparr>g_Set = (\<lambda>g k v e. (None, g(k \<mapsto> (v, e)))),
      g_Get = (\<lambda>now g k. (case g k of Some (v, e) \<Rightarrow> if now \<le> e then Inr v else Inl ''not found''
                                     | None \<Rightarrow> Inl ''not found'', g)),
      g_Remove = (\<lambda>g k. (None, g(k := None))),
      g_UsedBytes = (\<lambda>g. (0, 0)), g_Name = (\<lambda>g. ''map'')\<rparr>"

lemma map_group_laws: "group_laws map_group"
proof -
  have "only_set_law map_group"
    unfolding only_set_law_def map_group_def by (auto split: option.splits if_splits)
  then show ?thesis
    by (simp add: group_laws_def set_get_law_def remove_get_law_def map_group_def)
qed

section \<open>Properties\<close>

text \<open>
  C20. In every execution the manager's map holds, under each key, an existing session whose
  id is that key and the encoding of its logical session id, and a session has a pinned
  server or connection only while its transaction is in progress, committed or aborted,
  that is, from the start of a transaction to its reset.
\<close>

theorem SM_reachable_invariant:
  assumes "group_laws api" and "dc_sound api dc0" and "SM_run api (NewSessionManager, dc0) es (sm, dc)"
  shows "(\<forall>k r. sm_sessions sm k = Some r \<longrightarrow>
           (\<exists>s. sm_heap sm r = Some s \<and> S_ID s = k \<and> base64_encode (S_LsID s) = k)) \<and>
    (\<forall>r s. sm_heap sm r = Some s \<longrightarrow> PinnedServer s \<noteq> None \<or> PinnedConnection s \<noteq> None \<longrightarrow>
       S_TransactionState s \<in> {TransactionStateInProgress, TransactionStateCommitted, TransactionStateAborted})"
proof -
  have "SM_inv sm" using SM_run_inv [OF assms(3,1) st_inv_New [OF assms(2)]] by (simp add: st_inv_def)
  then show ?thesis using SM_invD by (fastforce simp: session_ok_def)
qed

lemma SM_run_append:
  "SM_run api st (es @ es') st'' \<Longrightarrow> \<exists>st'. SM_run api st es st' \<and> SM_run api st' es' st''"
  by (induction es arbitrary: st) (auto intro: SM_run.intros elim!: SM_run_ConsE, blast intro: SM_run.intros)

lemma SM_run_snoc: "SM_run api st es st' \<Longrightarrow> SM_step api e st' st'' \<Longrightarrow> SM_run api st (es @ [e]) st''"
  by (induction rule: SM_run.induct) (auto intro: SM_run.intros)

text \<open>A session without a transaction in progress.\<close>

definition idle :: "session_ref \<Rightarrow> SessionManager \<Rightarrow> bool" where
  "idle r sm \<longleftrightarrow> (\<exists>s. sm_heap sm r = Some s \<and> S_TransactionState s \<noteq> TransactionStateInProgress)"

lemma idle_update:
  "idle r sm \<Longrightarrow> (\<And>s. sm_heap sm r = Some s \<Longrightarrow> S_TransactionState s \<noteq> TransactionStateInProgress \<Longrightarrow>
     r' = r \<Longrightarrow> S_TransactionState (f s) \<noteq> TransactionStateInProgress) \<Longrightarrow> idle r (update_session r' f sm)"
  by (auto simp: idle_def update_session_def)

lemma idle_sessions [simp]: "idle r (sm\<lparr>sm_sessions := f\<rparr>) = idle r sm"
  by (simp add: idle_def)

lemma idle_publish [simp]: "idle r (publish k r' sm) = idle r sm"
  by (simp add: publish_def)

lemma idle_new: "SM_inv sm \<Longrightarrow> idle r sm \<Longrightarrow> new_session s sm = (r', sm') \<Longrightarrow> idle r sm'"
  using SM_invD(2) by (fastforce simp: idle_def new_session_def)

lemma idle_session_at: "idle r sm \<Longrightarrow> S_TransactionState (session_at sm r) \<noteq> TransactionStateInProgress"
  by (auto simp: idle_def session_at_def)

lemma idle_step:
  assumes "SM_step api e st st'" and "SM_inv (fst st)" and "idle r (fst st)" and "\<forall>l. e \<noteq> Started r l"
  shows "idle r (fst st') \<and> (\<forall>l. e \<noteq> Finished r l)"
  using assms
proof (induction rule: SM_step.induct)
  case (create st now rand clientID)
  then show ?case
    by (auto simp: CreateSession_def Let_def split: prod.splits sum.splits intro: idle_new)
next
  case (get now lsid st)
  then show ?case
    by (auto simp: get_event_def GetSession_def Let_def split: prod.splits option.splits intro: idle_new intro!: idle_update)
next
  case (adopt sm dc now lsid)
  then show ?case by (auto simp: adoptSession_def Let_def split: prod.splits intro: idle_new)
next
  case (start sm r' now server conn txn dc st')
  then show ?case
    by (auto simp: StartTransaction_def Let_def split: if_splits intro!: idle_update)
next
  case (commit now r' sm sm' dc)
  then show ?case
    by (auto simp: CommitTransaction_def split: if_splits dest: idle_session_at intro!: idle_update)
next
  case (abort now r' sm sm' dc)
  then show ?case
    by (auto simp: sm_AbortTransaction_def split: if_splits dest: idle_session_at intro!: idle_update)
next
  case (end_session sm r' dc now)
  then show ?case
    by (auto simp: EndSession_def Let_def IsTransactionActive_def split: if_splits dest: idle_session_at
        intro!: idle_update)
qed (auto simp: UnpinTransaction_def ResetTransactionState_def CleanupInactiveSessions_def
    CleanupExpiredSessions_def intro!: idle_update)

lemma get_event_not_finished: "get_event api now lsid st \<noteq> Finished r l"
  by (simp add: get_event_def split: prod.split option.split)

lemma Finished_idle:
  assumes "SM_step api (Finished r l) st st'"
  shows "idle r (fst st')"
  using assms
proof (cases rule: SM_step.cases)
  case (end_session sm r' dc now)
  then show ?thesis
    by (auto simp: EndSession_def Let_def idle_def update_session_def session_at_def IsTransactionActive_def
        split: if_splits)
next
  case (get now lsid)
  then show ?thesis using get_event_not_finished by metis
qed (auto simp: CommitTransaction_def sm_AbortTransaction_def idle_def update_session_def split: if_splits)

lemma idle_run:
  assumes "SM_run api st es st'" and "group_laws api" and "st_inv api st" and "idle r (fst st)"
    and "\<And>l. Started r l \<notin> set es"
  shows "Finished r l \<notin> set es"
  using assms
proof (induction rule: SM_run.induct)
  case (step e st st' es st'')
  then have "idle r (fst st') \<and> (\<forall>l. e \<noteq> Finished r l)" by (intro idle_step) (auto simp: st_inv_def)
  moreover have "st_inv api st'" using step.hyps(1) step.prems(1,2) by (rule SM_step_inv)
  ultimately show ?case using step.IH step.prems by auto
qed simp

lemma object_finishes_once:
  assumes "group_laws api" and "dc_sound api dc0"
    and "SM_run api (NewSessionManager, dc0) (es1 @ [Finished r l] @ es2 @ [Finished r l'] @ es3) st"
  shows "\<exists>l. Started r l \<in> set es2"
proof (rule ccontr)
  assume no: "\<nexists>l. Started r l \<in> set es2"
  obtain st1 where st1: "SM_run api (NewSessionManager, dc0) es1 st1"
    "SM_run api st1 ([Finished r l] @ es2 @ [Finished r l'] @ es3) st"
    using SM_run_append [OF assms(3)] by blast
  then obtain st2 where st2: "SM_step api (Finished r l) st1 st2" "SM_run api st2 (es2 @ [Finished r l'] @ es3) st"
    by (auto elim: SM_run_ConsE)
  obtain st3 where st3: "SM_run api st2 (es2 @ [Finished r l']) st3"
    using SM_run_append [of api st2 "es2 @ [Finished r l']" es3 st] st2(2) by auto
  have "st_inv api st2"
    using SM_run_inv [OF st1(1) assms(1) st_inv_New [OF assms(2)]] SM_step_inv [OF st2(1) assms(1)] by simp
  from idle_run [OF st3 assms(1) this Finished_idle [OF st2(1)], of l'] no show False by auto
qed

subsection \<open>Transactions of a logical session\<close>

text \<open>
  A logical session may be held by several objects one after the other (after a cleanup, or
  from the shared cache). These are the objects of a session with a transaction in progress, and by how many
  an event changes their number.
\<close>

definition active_objects :: "bytes \<Rightarrow> SessionManager \<Rightarrow> session_ref set" where
  "active_objects lsid sm =
     {r. \<exists>s. sm_heap sm r = Some s \<and> S_LsID s = lsid \<and> S_TransactionState s = TransactionStateInProgress}"

fun event_balance :: "bytes \<Rightarrow> SM_event \<Rightarrow> int" where
  "event_balance lsid (Started r l) = (if l = lsid then 1 else 0)"
| "event_balance lsid (Adopted r l) = (if l = lsid then 1 else 0)"
| "event_balance lsid (Finished r l) = (if l = lsid then - 1 else 0)"
| "event_balance lsid Silent = 0"

lemma finite_active_objects: "SM_inv sm \<Longrightarrow> finite (active_objects lsid sm)"
  by (rule finite_subset [of _ "{..<sm_next sm}"]) (auto simp: active_objects_def dest: SM_invD(2))

lemma active_sessions [simp]: "active_objects lsid (sm\<lparr>sm_sessions := f\<rparr>) = active_objects lsid sm"
  by (simp add: active_objects_def)

lemma active_publish [simp]: "active_objects lsid (publish k r sm) = active_objects lsid sm"
  by (simp add: publish_def)

lemma active_update:
  assumes "\<And>s. S_LsID (f s) = S_LsID s"
    and "\<And>s. S_TransactionState (f s) = TransactionStateInProgress \<Longrightarrow> S_TransactionState s = TransactionStateInProgress"
  shows "active_objects lsid (update_session r f sm) \<subseteq> active_objects lsid sm"
  using assms by (auto simp: active_objects_def update_session_def split: if_splits)

lemma active_new:
  assumes "new_session s sm = (r, sm')"
  shows "active_objects lsid sm' \<subseteq>
    (if S_LsID s = lsid \<and> S_TransactionState s = TransactionStateInProgress then {r} else {}) \<union> active_objects lsid sm"
  using assms by (auto simp: active_objects_def new_session_def split: if_splits)

lemma active_start:
  assumes "\<And>s. S_LsID (f s) = S_LsID s"
  shows "active_objects lsid (update_session r f sm) \<subseteq>
    (if S_LsID (session_at sm r) = lsid then {r} else {}) \<union> active_objects lsid sm"
  using assms by (auto simp: active_objects_def update_session_def session_at_def split: if_splits)

lemma active_finish:
  assumes "\<And>s. S_LsID (f s) = S_LsID s" and "\<And>s. S_TransactionState (f s) \<noteq> TransactionStateInProgress"
  shows "active_objects lsid (update_session r f sm) \<subseteq> active_objects lsid sm - {r}"
  using assms by (auto simp: active_objects_def update_session_def split: if_splits)

lemma active_member:
  "sm_heap sm r \<noteq> None \<Longrightarrow> S_TransactionState (session_at sm r) = TransactionStateInProgress \<Longrightarrow>
   r \<in> active_objects (S_LsID (session_at sm r)) sm"
  by (auto simp: active_objects_def session_at_def)

text \<open>The three ways the number of active objects changes.\<close>

lemma balance_keep:
  "A \<subseteq> active_objects lsid sm \<Longrightarrow> SM_inv sm \<Longrightarrow> int (card A) \<le> int (card (active_objects lsid sm))"
  by (simp add: card_mono finite_active_objects)

lemma balance_more:
  assumes "A \<subseteq> (if P then {r} else {}) \<union> active_objects lsid sm" and "SM_inv sm"
  shows "int (card A) \<le> int (card (active_objects lsid sm)) + (if P then 1 else 0)"
proof -
  have "card A \<le> card ((if P then {r} else {}) \<union> active_objects lsid sm)"
    using assms by (intro card_mono) (auto simp: finite_active_objects)
  also have "\<dots> \<le> (if P then 1 else 0) + card (active_objects lsid sm)"
    using card_Un_le [of "if P then {r} else {}" "active_objects lsid sm"] by auto
  finally show ?thesis by auto
qed

lemma balance_less:
  assumes "A \<subseteq> active_objects lsid sm - {r}" and "SM_inv sm" and "r \<in> active_objects l sm"
  shows "int (card A) \<le> int (card (active_objects lsid sm)) + (if l = lsid then - 1 else 0)"
proof -
  have fin: "finite (active_objects lsid sm)" using assms(2) by (rule finite_active_objects)
  have "card A \<le> card (active_objects lsid sm - {r})" using assms(1) fin by (intro card_mono) auto
  moreover have "card (active_objects lsid sm - {r}) = card (active_objects lsid sm) - 1 \<and> card (active_objects lsid sm) > 0"
    if "l = lsid" using that assms(3) fin by (auto simp: card_gt_0_iff)
  moreover have "card (active_objects lsid sm - {r}) \<le> card (active_objects lsid sm)" using fin by (intro card_mono) auto
  ultimately show ?thesis by (cases "l = lsid") auto
qed

lemma GetSession_balance:
  assumes "group_laws api" and inv: "st_inv api st"
  shows "int (card (active_objects l (fst (snd (GetSession api now lsid st))))) \<le>
    int (card (active_objects l (fst st))) + event_balance l (get_event api now lsid st)"
proof -
  obtain sm dc where st: "st = (sm, dc)" by fastforce
  have sm: "SM_inv sm" "dc_sound api dc" using inv st by (simp_all add: st_inv_def)
  let ?k = "base64_encode lsid"
  show ?thesis
  proof (cases "sm_sessions sm ?k \<noteq> None \<and> S_State (session_at sm (the (sm_sessions sm ?k))) \<noteq> SessionStateEnded")
    case True
    then obtain r where r: "sm_sessions sm ?k = Some r" by blast
    then have "sm_heap sm r \<noteq> None" using SM_invD(3) [OF sm(1)] by fastforce
    then have "get_event api now lsid st = Silent" using True r st by (auto simp: get_event_def GetSession_def Let_def)
    moreover have "active_objects l (update_session r (\<lambda>s. s\<lparr>LastActivity := now\<rparr>) sm) \<subseteq> active_objects l sm"
      by (rule active_update) simp_all
    ultimately show ?thesis using True r st balance_keep [OF _ sm(1)] by (simp add: GetSession_def Let_def)
  next
    case False
    note miss = False
    show ?thesis
    proof (cases "dc_active dc \<and> fst (dc_GetSession api now ?k (the dc)) \<noteq> None")
      case True
      then obtain d s d' where d: "dc = Some d" and s: "dc_GetSession api now ?k d = (Some s, d')"
        by (cases dc) (auto simp: dc_active_def, metis prod.collapse)
      have id: "S_LsID s = lsid"
        using dc_GetSession_value [of api d now ?k s] sm(2) d s by (auto simp: session_ok_def dest: base64_encode_inj)
      obtain r sm' where new: "new_session s sm = (r, sm')" by fastforce
      then have r: "r = sm_next sm" "sm_heap sm' r = Some s" by (auto simp: new_session_def)
      have get: "GetSession api now lsid st = (Some r, (publish ?k r sm', Some d'))"
        using miss True d s new st by (auto simp: GetSession_def Let_def)
      moreover have "sm_heap sm r = None" using sm(1) r by (simp add: SM_inv_def)
      ultimately have "get_event api now lsid st =
          (if S_TransactionState s = TransactionStateInProgress then Adopted r lsid else Silent)"
        using r st by (simp add: get_event_def publish_def session_at_def)
      then have "event_balance l (get_event api now lsid st) =
          (if S_LsID s = l \<and> S_TransactionState s = TransactionStateInProgress then 1 else 0)"
        using id by simp
      with get balance_more [OF active_new [OF new, of l] sm(1)] st show ?thesis by simp
    next
      case False
      then have "fst (GetSession api now lsid st) = None \<and> fst (snd (GetSession api now lsid st)) = sm"
        using miss st by (auto simp: GetSession_def Let_def split: prod.splits option.splits)
      then show ?thesis using st by (auto simp: get_event_def split: prod.splits)
    qed
  qed
qed

lemma SM_step_balance:
  assumes "SM_step api e st st'" and "group_laws api" and "st_inv api st"
  shows "int (card (active_objects l (fst st'))) \<le> int (card (active_objects l (fst st))) + event_balance l e"
  using assms
proof (induction rule: SM_step.induct)
  case (create st now rand clientID)
  have "active_objects l (fst (snd (CreateSession api now rand clientID st))) \<subseteq> active_objects l (fst st)"
    using active_new [of _ "fst st" _ _ l]
    by (cases st) (fastforce simp: CreateSession_def Let_def split: prod.splits sum.splits)
  then show ?case using create.prems balance_keep by (auto simp: st_inv_def)
next
  case (get now lsid st)
  then show ?case by (intro GetSession_balance)
next
  case (adopt sm dc now lsid)
  have "active_objects l (snd (adoptSession now lsid sm)) \<subseteq> active_objects l sm"
    using active_new [of _ sm _ _ l] by (fastforce simp: adoptSession_def Let_def split: prod.splits)
  then show ?case using adopt.prems balance_keep by (auto simp: st_inv_def)
next
  case (start sm r now server conn txn dc st')
  then have st': "fst st' = update_session r (\<lambda>s. s\<lparr>CurrentTxnNumber := txn, S_TransactionState := TransactionStateInProgress,
      PinnedServer := Some server, PinnedConnection := Some conn, LastActivity := now\<rparr>) sm"
    by (auto simp: StartTransaction_def Let_def split: if_splits)
  show ?case
    using balance_more [OF active_start [of _ l r sm]] start.prems unfolding st' by (simp add: st_inv_def)
next
  case (commit now r sm sm' dc)
  then have sm': "sm' = update_session r (\<lambda>s. s\<lparr>S_TransactionState := TransactionStateCommitted, LastActivity := now\<rparr>) sm"
    and "S_TransactionState (session_at sm r) = TransactionStateInProgress"
    by (auto simp: CommitTransaction_def split: if_splits)
  with commit balance_less [OF active_finish [of _ l r sm] _ active_member] show ?case by (simp add: st_inv_def)
next
  case (abort now r sm sm' dc)
  then have sm': "sm' = update_session r (\<lambda>s. s\<lparr>S_TransactionState := TransactionStateAborted, LastActivity := now\<rparr>) sm"
    and "S_TransactionState (session_at sm r) = TransactionStateInProgress"
    by (auto simp: sm_AbortTransaction_def split: if_splits)
  with abort balance_less [OF active_finish [of _ l r sm] _ active_member] show ?case by (simp add: st_inv_def)
next
  case (end_session sm r dc now)
  let ?ended = "update_session r (\<lambda>s. s\<lparr>S_State := SessionStateEnded, LastActivity := now\<rparr>)"
  let ?abort = "update_session r (\<lambda>s. s\<lparr>S_TransactionState := TransactionStateAborted, PinnedServer := None, PinnedConnection := None\<rparr>)"
  have inv: "SM_inv sm" using end_session.prems(2) by (simp add: st_inv_def)
  have ended: "active_objects l (?ended sm') \<subseteq> active_objects l sm'" for sm' by (rule active_update) simp_all
  have abort: "active_objects l (?abort sm) \<subseteq> active_objects l sm - {r}" by (rule active_finish) simp_all
  show ?case
  proof (cases "S_State (session_at sm r) \<noteq> SessionStateEnded \<and> IsTransactionActive r sm")
    case True
    then have "active_objects l (fst (snd (EndSession api now r (sm, dc)))) = active_objects l (?ended (?abort sm))"
      by (simp add: EndSession_def IsTransactionActive_def Let_def)
    moreover have "r \<in> active_objects (S_LsID (session_at sm r)) sm"
      using True end_session.hyps by (intro active_member) (simp_all add: IsTransactionActive_def)
    ultimately show ?thesis using True balance_less [OF order_trans [OF ended abort] inv] by simp
  next
    case False
    then have "active_objects l (fst (snd (EndSession api now r (sm, dc)))) \<subseteq> active_objects l sm"
      using ended by (auto simp: EndSession_def IsTransactionActive_def Let_def)
    with False show ?thesis using balance_keep [OF _ inv] by auto
  qed
next
  case (unpin sm dc r)
  have "active_objects l (UnpinTransaction r sm) \<subseteq> active_objects l sm"
    unfolding UnpinTransaction_def by (rule active_update) simp_all
  then show ?case using unpin balance_keep by (auto simp: st_inv_def)
next
  case (reset sm dc r)
  have "active_objects l (ResetTransactionState r sm) \<subseteq> active_objects l sm"
    unfolding ResetTransactionState_def by (rule active_update) simp_all
  then show ?case using reset balance_keep by (auto simp: st_inv_def)
qed (simp_all add: CleanupInactiveSessions_def CleanupExpiredSessions_def)

lemma SM_run_balance:
  assumes "SM_run api st es st'" and "group_laws api" and "st_inv api st"
  shows "int (card (active_objects l (fst st'))) \<le> int (card (active_objects l (fst st))) + sum_list (map (event_balance l) es)"
  using assms
proof (induction rule: SM_run.induct)
  case (step e st st' es st'')
  from SM_step_balance [OF step.hyps(1) step.prems, of l] step.IH step.prems SM_step_inv [OF step.hyps(1) step.prems]
  show ?case by simp
qed simp

text \<open>How many of the events are of one kind and concern the logical session.\<close>

definition session_events :: "(session_ref \<Rightarrow> bytes \<Rightarrow> SM_event) \<Rightarrow> bytes \<Rightarrow> SM_event list \<Rightarrow> nat" where
  "session_events kind lsid es = length (filter (\<lambda>e. \<exists>r. e = kind r lsid) es)"

lemma session_events_balance:
  "sum_list (map (event_balance lsid) es) =
     int (session_events Started lsid es) + int (session_events Adopted lsid es) - int (session_events Finished lsid es)"
proof (induction es)
  case (Cons e es)
  then show ?case by (cases e) (auto simp: session_events_def)
qed (simp add: session_events_def)

text \<open>
  C19. No transaction ends without having begun. In every execution of an instance, the transactions of a
  logical session are committed or aborted (also by the end of the session) no more often than
  transactions were started on it or came with a copy of it from the shared cache that had one in
  progress. For one session object, there is a start of a transaction on it between any two of these
  ends. The second kind of entry is not harmless: the shared cache keeps the copy stored at the
  start of a transaction after the transaction has ended, so that the instance may adopt it and end the
  transaction again.
\<close>

theorem transaction_ends_are_started:
  assumes "group_laws api" and "dc_sound api dc0" and "SM_run api (NewSessionManager, dc0) es st"
  shows "session_events Finished lsid es \<le> session_events Started lsid es + session_events Adopted lsid es \<and>
    (es = es1 @ [Finished r l] @ es2 @ [Finished r l'] @ es3 \<longrightarrow> (\<exists>l. Started r l \<in> set es2))"
proof (intro conjI impI)
  have "active_objects lsid NewSessionManager = {}" by (simp add: active_objects_def NewSessionManager_def)
  with SM_run_balance [OF assms(3,1) st_inv_New [OF assms(2)], of lsid]
  have "0 \<le> sum_list (map (event_balance lsid) es)" by simp
  then show "session_events Finished lsid es \<le> session_events Started lsid es + session_events Adopted lsid es"
    by (simp add: session_events_balance)
next
  assume "es = es1 @ [Finished r l] @ es2 @ [Finished r l'] @ es3"
  with assms show "\<exists>l. Started r l \<in> set es2" by (auto intro: object_finishes_once)
qed

theorem transaction_ends_are_started_witness:
  "\<exists>st es. es = [Silent, Started 0 [1]] @ [Finished 0 [1]] @ [Silent, Started 0 [1]] @ [Finished 0 [1]] @ [] \<and>
     SM_run map_group (NewSessionManager, None) es st \<and>
     session_events Finished [1] es \<le> session_events Started [1] es + session_events Adopted [1] es \<and>
     (\<exists>l. Started 0 l \<in> set [Silent, Started 0 [1]])"
proof -
  define sm1 where "sm1 = snd (adoptSession 0 [1] NewSessionManager)"
  define sm2 where "sm2 = fst (snd (StartTransaction map_group 0 0 7 8 1 (sm1, None)))"
  define sm3 where "sm3 = snd (CommitTransaction 0 0 sm2)"
  define sm4 where "sm4 = ResetTransactionState 0 sm3"
  define sm5 where "sm5 = fst (snd (StartTransaction map_group 0 0 7 8 2 (sm4, None)))"
  define sm6 where "sm6 = snd (sm_AbortTransaction 0 0 sm5)"
  note defs = sm1_def sm2_def sm3_def sm4_def sm5_def sm6_def adoptSession_def new_session_def publish_def
    NewSessionManager_def StartTransaction_def CommitTransaction_def ResetTransactionState_def
    sm_AbortTransaction_def session_at_def update_session_def dc_active_def Let_def
  have s1: "SM_step map_group Silent (NewSessionManager, None) (sm1, None)" unfolding sm1_def by (rule SM_step.adopt)
  have s2: "SM_step map_group (Started 0 (S_LsID (session_at sm1 0))) (sm1, None) (sm2, None)"
    by (rule SM_step.start [where now = 0 and server = 7 and conn = 8 and txn = 1]) (simp_all add: defs)
  have s3: "SM_step map_group (Finished 0 (S_LsID (session_at sm2 0))) (sm2, None) (sm3, None)"
    by (rule SM_step.commit [where now = 0]) (simp_all add: defs)
  have s4: "SM_step map_group Silent (sm3, None) (sm4, None)" unfolding sm4_def by (rule SM_step.reset)
  have s5: "SM_step map_group (Started 0 (S_LsID (session_at sm4 0))) (sm4, None) (sm5, None)"
    by (rule SM_step.start [where now = 0 and server = 7 and conn = 8 and txn = 2]) (simp_all add: defs)
  have s6: "SM_step map_group (Finished 0 (S_LsID (session_at sm5 0))) (sm5, None) (sm6, None)"
    by (rule SM_step.abort [where now = 0]) (simp_all add: defs)
  have ids: "S_LsID (session_at sm1 0) = [1]" "S_LsID (session_at sm2 0) = [1]" "S_LsID (session_at sm4 0) = [1]" "S_LsID (session_at sm5 0) = [1]"
    by (simp_all add: defs)
  have run: "SM_run map_group (NewSessionManager, None)
     ([Silent, Started 0 [1]] @ [Finished 0 [1]] @ [Silent, Started 0 [1]] @ [Finished 0 [1]] @ []) (sm6, None)"
    using s1 s2 s3 s4 s5 s6 unfolding ids by (simp add: SM_run.intros)
  have "dc_sound map_group None" by (simp add: dc_sound_def)
  from transaction_ends_are_started [OF map_group_laws this run, of "[1]" "[Silent, Started 0 [1]]" 0 "[1]" "[Silent, Started 0 [1]]" "[1]" "[]"] run
  show ?thesis by blast
qed

theorem SM_reachable_invariant_witness:
  "\<exists>es sm. SM_run map_group (NewSessionManager, None) es (sm, None) \<and>
     sm_sessions sm (base64_encode [1]) = Some 0 \<and>
     (\<exists>s. sm_heap sm 0 = Some s \<and> S_ID s = base64_encode [1])"
proof -
  let ?sm = "snd (adoptSession 0 [1] NewSessionManager)"
  have run: "SM_run map_group (NewSessionManager, None) [Silent] (?sm, None)"
    by (rule SM_run.step [OF SM_step.adopt SM_run.stop])
  have "dc_sound map_group None" by (simp add: dc_sound_def)
  from SM_reachable_invariant [OF map_group_laws this run]
  have "\<forall>k r. sm_sessions ?sm k = Some r \<longrightarrow> (\<exists>s. sm_heap ?sm r = Some s \<and> S_ID s = k \<and> base64_encode (S_LsID s) = k)"
    by blast
  moreover have "sm_sessions ?sm (base64_encode [1]) = Some 0"
    by (simp add: adoptSession_def new_session_def publish_def NewSessionManager_def Let_def)
  ultimately show ?thesis using run by blast
qed

text \<open>
  C26. Sessions are not mixed up: whatever happened before, here and in other instances, the
  session that is found for a logical session id has that logical session id.
\<close>

theorem GetSession_right_session:
  assumes "group_laws api" and "dc_sound api dc0" and "SM_run api (NewSessionManager, dc0) es st"
    and "GetSession api now lsid st = (Some r, (sm', dc'))"
  shows "\<exists>s. sm_heap sm' r = Some s \<and> S_LsID s = lsid \<and> sm_sessions sm' (base64_encode lsid) = Some r"
proof -
  have "st_inv api st" using SM_run_inv [OF assms(3,1) st_inv_New [OF assms(2)]] .
  then have "SM_inv sm'" using GetSession_inv [OF assms(1), of st now lsid] assms(4) by (simp add: st_inv_def)
  moreover have "sm_sessions sm' (base64_encode lsid) = Some r"
    using assms(4) by (auto simp: GetSession_def Let_def publish_def update_session_def split: prod.splits if_splits option.splits)
  ultimately obtain s where "sm_heap sm' r = Some s" "S_ID s = base64_encode lsid" "session_ok s"
    using SM_invD(1,3) by blast
  then have "S_LsID s = lsid" by (auto simp: session_ok_def dest: base64_encode_inj)
  with \<open>sm_heap sm' r = Some s\<close> \<open>sm_sessions sm' (base64_encode lsid) = Some r\<close> show ?thesis by blast
qed

theorem GetSession_right_session_witness:
  "\<exists>sm' s. GetSession map_group 5 [1, 2] (snd (adoptSession 0 [1, 2] NewSessionManager), None) = (Some 0, (sm', None)) \<and>
     sm_heap sm' 0 = Some s \<and> S_LsID s = [1, 2]"
proof -
  let ?st = "(snd (adoptSession 0 [1, 2] NewSessionManager), None)"
  have run: "SM_run map_group (NewSessionManager, None) [Silent] ?st"
    by (rule SM_run.step [OF SM_step.adopt SM_run.stop])
  have snd: "dc_sound map_group None" by (simp add: dc_sound_def)
  obtain sm' where get: "GetSession map_group 5 [1, 2] ?st = (Some 0, (sm', None))"
    by (simp add: GetSession_def adoptSession_def new_session_def publish_def NewSessionManager_def session_at_def Let_def)
  from GetSession_right_session [OF map_group_laws snd run get] get show ?thesis by blast
qed

text \<open>
  The shared cache keeps the copy of a session that was stored when its transaction
  started: after the transaction was committed and reset here, another instance (or this
  one, when it has dropped the session) still gets it with the transaction in progress, and
  cannot start a transaction on it.
\<close>

theorem shared_copy_stays_in_progress:
  assumes laws: "group_laws api" and sets: "\<And>g k v e. fst (g_Set api g k v e) = None"
    and enabled: "dc_enabled d" "sessionGroup d \<noteq> None"
    and s: "sm_heap sm r = Some s" "S_ID s = base64_encode (S_LsID s)"
    and start: "StartTransaction api t0 r server conn txn (sm, Some d) = (None, (sm1, dc1))"
    and now: "now \<le> t0 + SessionExpiry (dc_config d)"
  shows "fst (CommitTransaction t1 r sm1) = None \<and>
    S_TransactionState (session_at (ResetTransactionState r (snd (CommitTransaction t1 r sm1))) r) = TransactionStateNone \<and>
    (\<exists>r' sm' dc'. GetSession api now (S_LsID s) (NewSessionManager, dc1) = (Some r', (sm', dc')) \<and>
       fst (StartTransaction api t2 r' server' conn' txn' (sm', dc')) = Some ''transaction already in progress'')"
proof -
  have at: "session_at sm r = s" using s(1) by (simp add: session_at_def)
  have active: "S_State s = SessionStateActive" "S_TransactionState s = TransactionStateNone"
    using start at by (auto simp: StartTransaction_def Let_def split: if_splits)
  define s1 where "s1 = s\<lparr>CurrentTxnNumber := txn, S_TransactionState := TransactionStateInProgress,
    PinnedServer := Some server, PinnedConnection := Some conn, LastActivity := t0\<rparr>"
  define d1 where "d1 = snd (StoreTransaction api t0 (S_LsID s) (Some server) txn d)"
  have d1: "dc_enabled d1" "sessionGroup d1 = sessionGroup d" "dc_config d1 = dc_config d"
    using enabled by (simp_all add: d1_def StoreTransaction_def Let_def split: prod.split)
  have sm1: "sm1 = update_session r (\<lambda>s. s\<lparr>CurrentTxnNumber := txn, S_TransactionState := TransactionStateInProgress,
      PinnedServer := Some server, PinnedConnection := Some conn, LastActivity := t0\<rparr>) sm"
    and dc1: "dc1 = Some (snd (StoreSession api t0 s1 d1))"
    using start at active enabled s(1)
    by (auto simp: StartTransaction_def Let_def dc_active_def IsEnabled_def d1_def s1_def)
  have at1: "session_at sm1 r = s1" using sm1 s(1) at by (simp add: s1_def)
  then have commit: "fst (CommitTransaction t1 r sm1) = None" by (simp add: CommitTransaction_def s1_def)
  moreover have "S_TransactionState (session_at (ResetTransactionState r (snd (CommitTransaction t1 r sm1))) r) = TransactionStateNone"
    using s(1) sm1 by (simp add: ResetTransactionState_def CommitTransaction_def)
  moreover obtain g where g: "sessionGroup d = Some g" using enabled by blast
  define g1 where "g1 = snd (g_Set api g (S_ID s) (JSession (session_data s1)) (t0 + SessionExpiry (dc_config d)))"
  have d2: "snd (StoreSession api t0 s1 d1) = d1\<lparr>sessionGroup := Some g1\<rparr>"
    using d1 g by (simp add: StoreSession_def g1_def s1_def Let_def split: prod.split)
  have "fst (g_Get api now g1 (S_ID s)) = Inr (JSession (session_data s1))"
    using laws sets now unfolding g1_def group_laws_def set_get_law_def by blast
  then obtain g2 where g2: "g_Get api now g1 (S_ID s) = (Inr (JSession (session_data s1)), g2)" by (metis prod.collapse)
  then have "dc_GetSession api now (S_ID s) (d1\<lparr>sessionGroup := Some g1\<rparr>) =
      (Some (data_session (session_data s1)), d1\<lparr>sessionGroup := Some g2\<rparr>)"
    using d1 by (simp add: dc_GetSession_def)
  then have "GetSession api now (S_LsID s) (NewSessionManager, dc1) =
      (Some 0, (publish (S_ID s) 0 (snd (new_session (data_session (session_data s1)) NewSessionManager)),
        Some (d1\<lparr>sessionGroup := Some g2\<rparr>)))"
    using d1(1) s(2) by (simp add: GetSession_def dc1 d2 dc_active_def IsEnabled_def NewSessionManager_def
        new_session_def Let_def)
  moreover have "fst (StartTransaction api t2 0 server' conn' txn'
      (publish (S_ID s) 0 (snd (new_session (data_session (session_data s1)) NewSessionManager)), dc')) =
      Some ''transaction already in progress''" for dc'
    using active by (simp add: StartTransaction_def new_session_def NewSessionManager_def publish_def session_at_def
        data_session_def session_data_def s1_def Let_def)
  ultimately show ?thesis by blast
qed

definition example_dc :: "(string \<rightharpoonup> json \<times> time) DistributedCache" where
  "example_dc =
     \<lparr>dc_config = \<lparr>DC_Enabled = True, ListenAddr = ''10.0.0.1'', ListenPort = 8080, CacheSizeBytes = 3000,
        SessionExpiry = 30 * Minute, TransactionExpiry = 2 * Minute, CursorExpiry = 24 * Hour, DC_Debug = False,
        LabelSelector = '''', PeerURLs = [], RequestForwarding = \<lparr>RF_MaxConnections = 10, RF_ConnectionTimeout = Second,
          RF_KeepAlive = True, RF_KeepAliveInterval = Second\<rparr>\<rparr>,
      dc_enabled = True, myAddress = ''10.0.0.1:8080'', sessionGroup = Some Map.empty,
      transactionGroup = Some Map.empty, cursorGroup = Some Map.empty, sessionLocationGroup = Some Map.empty,
      dc_requestForwarder = True\<rparr>"

theorem shared_copy_stays_in_progress_witness:
  "\<exists>sm1 dc1 r' sm' dc'. StartTransaction map_group 0 0 7 8 1
       (snd (adoptSession 0 [1] NewSessionManager), Some example_dc) = (None, (sm1, dc1)) \<and>
     GetSession map_group 5 [1] (NewSessionManager, dc1) = (Some r', (sm', dc')) \<and>
     fst (StartTransaction map_group 6 r' 1 2 3 (sm', dc')) = Some ''transaction already in progress''"
proof -
  let ?sm = "snd (adoptSession 0 [1] NewSessionManager)"
  let ?s = "\<lparr>S_ID = base64_encode [1], S_LsID = [1], ClientID = ''unknown'', S_State = SessionStateActive,
      CreatedAt = 0, LastActivity = 0, S_TransactionState = TransactionStateNone, CurrentTxnNumber = 0,
      PinnedServer = None, PinnedConnection = None\<rparr>"
  have s: "sm_heap ?sm 0 = Some ?s"
    by (simp add: adoptSession_def new_session_def publish_def NewSessionManager_def Let_def)
  obtain sm1 dc1 where start: "StartTransaction map_group 0 0 7 8 1 (?sm, Some example_dc) = (None, (sm1, dc1))"
    using s by (simp add: StartTransaction_def session_at_def Let_def)
  have "fst (g_Set map_group g k v e) = None" for g k v e by (simp add: map_group_def)
  from shared_copy_stays_in_progress [OF map_group_laws this _ _ s _ start, of 5 0 6 1 2 3] start
  show ?thesis by (simp add: example_dc_def)
qed

end
