(* ===== verification/Caches.thy ===== *)
theory Caches
  imports Lruttl Sessions
begin

text \<open>
  The caches that pin cursors and transactions to servers, \<^verbatim>\<open>src/mongo/cursor_cache.go\<close> and
  \<^verbatim>\<open>src/mongo/transaction_cache.go\<close>: an LRU cache of this instance in front of the shared
  cache. A server is an address, \<open>None\<close> for a nil interface; a lookup that succeeds in the
  shared cache only returns a nil server.

  The locale \<open>pin_cache\<close> is the contract of the two local caches; both are instances, by the
  contract of the LRU cache and the injectivity of their keys. What is shown in it once: a
  server that is found for a key is the one the key was last pinned to, and the key was
  not unpinned since.
\<close>

section \<open>Pin caches\<close>

datatype ('k, 'v) pin_event = Pin time 'k 'v | Unpin 'k | Expire time

definition last_pin :: "('k, 'v) pin_event list \<Rightarrow> 'k \<rightharpoonup> 'v" where
  "last_pin es =
     fold (\<lambda>e m. case e of Pin _ k v \<Rightarrow> m(k \<mapsto> v) | Unpin k \<Rightarrow> m(k := None) | Expire _ \<Rightarrow> m) es Map.empty"

locale pin_cache =
  fixes lookup :: "'c \<Rightarrow> 'k \<Rightarrow> 'v option"
    and pin :: "time \<Rightarrow> 'c \<Rightarrow> 'k \<Rightarrow> 'v \<Rightarrow> 'c"
    and unpin :: "'c \<Rightarrow> 'k \<Rightarrow> 'c"
    and expire :: "time \<Rightarrow> 'c \<Rightarrow> 'c"
    and empty :: 'c
    and wf :: "'c \<Rightarrow> bool"
  assumes lookup_pin: "wf c \<Longrightarrow> lookup (pin now c k v) \<subseteq>\<^sub>m (lookup c)(k \<mapsto> v)"
    and lookup_pin_same: "wf c \<Longrightarrow> lookup (pin now c k v) k = Some v"
    and lookup_unpin: "wf c \<Longrightarrow> lookup (unpin c k) = (lookup c)(k := None)"
    and lookup_expire: "wf c \<Longrightarrow> lookup (expire now c) \<subseteq>\<^sub>m lookup c"
    and lookup_empty: "lookup empty = Map.empty"
    and wf_pin: "wf c \<Longrightarrow> wf (pin now c k v)"
    and wf_unpin: "wf c \<Longrightarrow> wf (unpin c k)"
    and wf_expire: "wf c \<Longrightarrow> wf (expire now c)"
    and wf_empty: "wf empty"
begin

definition apply_event :: "('k, 'v) pin_event \<Rightarrow> 'c \<Rightarrow> 'c" where
  "apply_event e c =
     (case e of Pin now k v \<Rightarrow> pin now c k v | Unpin k \<Rightarrow> unpin c k | Expire now \<Rightarrow> expire now c)"

lemma wf_apply: "wf c \<Longrightarrow> wf (apply_event e c)"
  by (simp add: apply_event_def wf_pin wf_unpin wf_expire split: pin_event.split)

lemma lookup_apply:
  assumes "wf c" and "lookup c \<subseteq>\<^sub>m m"
  shows "lookup (apply_event e c) \<subseteq>\<^sub>m
    (case e of Pin _ k v \<Rightarrow> m(k \<mapsto> v) | Unpin k \<Rightarrow> m(k := None) | Expire _ \<Rightarrow> m)"
proof (cases e)
  case (Pin now k v)
  then show ?thesis
    using lookup_pin [OF assms(1), of now k v] assms(2) map_le_trans map_le_upd by (fastforce simp: apply_event_def)
next
  case (Unpin k)
  then show ?thesis
    using assms by (auto simp: apply_event_def lookup_unpin map_le_def)
next
  case (Expire now)
  then show ?thesis
    using lookup_expire [OF assms(1), of now] assms(2) map_le_trans by (auto simp: apply_event_def)
qed

lemma run_wf: "wf c \<Longrightarrow> wf (fold apply_event es c)"
  by (induction es arbitrary: c) (simp_all add: wf_apply)

lemma run_lookup:
  "wf c \<Longrightarrow> lookup c \<subseteq>\<^sub>m m \<Longrightarrow>
   lookup (fold apply_event es c) \<subseteq>\<^sub>m
     fold (\<lambda>e m. case e of Pin _ k v \<Rightarrow> m(k \<mapsto> v) | Unpin k \<Rightarrow> m(k := None) | Expire _ \<Rightarrow> m) es m"
  by (induction es arbitrary: c m) (simp_all add: wf_apply lookup_apply)

lemma found_was_last_pinned:
  "lookup (fold apply_event es empty) k = Some v \<Longrightarrow> last_pin es k = Some v"
  using map_le_SomeD [OF run_lookup [OF wf_empty, of Map.empty es]] by (simp add: lookup_empty last_pin_def)

lemma pinned_is_found:
  "lookup (pin now (fold apply_event es empty) k v) k = Some v"
  by (rule lookup_pin_same) (rule run_wf, rule wf_empty)

end

section \<open>Cursors\<close>

definition maxCursors :: int where "maxCursors = 1024 * 1024"

definition cursorExpiry :: duration where "cursorExpiry = 24 * Hour"

record cursorInfo =
  ci_server :: "server_ref option"
  ci_databaseName :: string

record cursorCache =
  cc_c :: "(string, cursorInfo) Cache"
  cc_metrics :: bool \<comment> \<open>whether the pointer is set\<close>

text \<open>A metric that is sent: its name and tags.\<close>

type_synonym metric = "string \<times> string list"

definition newCursorCache :: cursorCache where
  "newCursorCache = \<lparr>cc_c = New maxCursors cursorExpiry, cc_metrics = False\<rparr>"

definition setMetrics :: "bool \<Rightarrow> cursorCache \<Rightarrow> cursorCache" where
  "setMetrics metrics c = c\<lparr>cc_metrics := metrics\<rparr>"

definition cursorCache_count :: "cursorCache \<Rightarrow> nat" where
  "cursorCache_count c = Cache_len (cc_c c)"

definition buildKey :: "int \<Rightarrow> string \<Rightarrow> string" where
  "buildKey cursorID collection = show_int cursorID @ ''-'' @ collection"

text \<open>The outer option is \<^verbatim>\<open>ok\<close>, the inner one the server.\<close>

definition cursorCache_peek ::
    "'g group_api \<Rightarrow> time \<Rightarrow> int \<Rightarrow> string \<Rightarrow> cursorCache \<Rightarrow> 'g DistributedCache option \<Rightarrow>
     server_ref option option \<times> 'g DistributedCache option" where
  "cursorCache_peek api now cursorID collection c dc =
     (case Cache_peek (cc_c c) (buildKey cursorID collection) of
        Some info \<Rightarrow> (Some (ci_server info), dc)
      | None \<Rightarrow>
          if dc_active dc then
            (case GetCursor api now cursorID collection (the dc) of
               (Some databaseName, d) \<Rightarrow> (Some None, Some d)
             | (None, d) \<Rightarrow> (None, Some d))
          else (None, dc))"

definition cursorCache_add ::
    "'g group_api \<Rightarrow> time \<Rightarrow> int \<Rightarrow> string \<Rightarrow> server_ref option \<Rightarrow> string \<Rightarrow> cursorCache \<Rightarrow> 'g DistributedCache option \<Rightarrow>
     cursorCache \<times> 'g DistributedCache option" where
  "cursorCache_add api now cursorID collection server databaseName c dc =
     (let info = \<lparr>ci_server = server, ci_databaseName = databaseName\<rparr>;
          c = c\<lparr>cc_c := Cache_add now (cc_c c) (buildKey cursorID collection) info\<rparr>
      in (c, if dc_active dc
             then map_option (\<lambda>d. snd (StoreCursor api now cursorID collection server databaseName d)) dc
             else dc))"

definition cursorCache_remove ::
    "'g group_api \<Rightarrow> int \<Rightarrow> string \<Rightarrow> cursorCache \<Rightarrow> 'g DistributedCache option \<Rightarrow>
     metric list \<times> cursorCache \<times> 'g DistributedCache option" where
  "cursorCache_remove api cursorID collection c dc =
     (let key = buildKey cursorID collection;
          v = Cache_peek (cc_c c) key;
          c = c\<lparr>cc_c := Cache_remove (cc_c c) key\<rparr>;
          sent = (case v of
                    Some info \<Rightarrow>
                      if cc_metrics c then
                        let databaseName = (if ci_databaseName info = '''' then ''default'' else ci_databaseName info)
                        in [(''cursor_closed'', [''database:'' @ databaseName])]
                      else []
                  | None \<Rightarrow> [])
      in (sent, c, if dc_active dc then map_option (\<lambda>d. snd (RemoveCursor api cursorID collection d)) dc else dc))"

section \<open>Transactions\<close>

definition maxTransactions :: int where "maxTransactions = 1024 * 1024"

definition transactionExpiry :: duration where "transactionExpiry = 120 * Second"

record transactionCache =
  tc_c :: "(string, server_ref option) Cache"

definition newTransactionCache :: transactionCache where
  "newTransactionCache = \<lparr>tc_c = New maxTransactions transactionExpiry\<rparr>"

definition transactionCache_count :: "transactionCache \<Rightarrow> nat" where
  "transactionCache_count t = Cache_len (tc_c t)"

definition transactionCache_peek ::
    "'g group_api \<Rightarrow> time \<Rightarrow> bytes \<Rightarrow> transactionCache \<Rightarrow> 'g DistributedCache option \<Rightarrow>
     server_ref option option \<times> 'g DistributedCache option" where
  "transactionCache_peek api now lsID t dc =
     (case Cache_peek (tc_c t) (base64_encode lsID) of
        Some (Some server) \<Rightarrow> (Some (Some server), dc)
      | _ \<Rightarrow>
          if dc_active dc then
            (case GetTransaction api now lsID (the dc) of
               (True, d) \<Rightarrow> (Some None, Some d)
             | (False, d) \<Rightarrow> (None, Some d))
          else (None, dc))"

definition transactionCache_add ::
    "'g group_api \<Rightarrow> time \<Rightarrow> bytes \<Rightarrow> server_ref option \<Rightarrow> transactionCache \<Rightarrow> 'g DistributedCache option \<Rightarrow>
     transactionCache \<times> 'g DistributedCache option" where
  "transactionCache_add api now lsID server t dc =
     (t\<lparr>tc_c := Cache_add now (tc_c t) (base64_encode lsID) server\<rparr>,
      if dc_active dc then map_option (\<lambda>d. snd (StoreTransaction api now lsID server 0 d)) dc else dc)"

definition transactionCache_remove ::
    "'g group_api \<Rightarrow> bytes \<Rightarrow> transactionCache \<Rightarrow> 'g DistributedCache option \<Rightarrow>
     transactionCache \<times> 'g DistributedCache option" where
  "transactionCache_remove api lsID t dc =
     (t\<lparr>tc_c := Cache_remove (tc_c t) (base64_encode lsID)\<rparr>,
      if dc_active dc then map_option (\<lambda>d. snd (RemoveTransaction api lsID d)) dc else dc)"

section \<open>Both are pin caches\<close>

lemma buildKey_inj: "buildKey i c = buildKey j d \<longleftrightarrow> i = j \<and> c = d"
  unfolding buildKey_def using show_int_dash_inj [of i c j d] by auto

definition cursor_lookup :: "cursorCache \<Rightarrow> int \<times> string \<Rightarrow> cursorInfo option" where
  "cursor_lookup c k = Cache_peek (cc_c c) (buildKey (fst k) (snd k))"

definition transaction_lookup :: "transactionCache \<Rightarrow> bytes \<Rightarrow> server_ref option option" where
  "transaction_lookup t lsID = Cache_peek (tc_c t) (base64_encode lsID)"

definition lru_wf :: "('k, 'v) Cache \<Rightarrow> bool" where
  "lru_wf c \<longleftrightarrow> Cache_wf c \<and> 0 \<le> maxEntries c"

text \<open>A map whose keys are coded by an injective function, seen through the coding.\<close>

lemma coded_add:
  assumes "lru_wf c" and "\<And>k k'. f k = f k' \<longleftrightarrow> k = k'"
  shows "(\<lambda>k'. Cache_peek (Cache_add now c (f k) v) (f k')) \<subseteq>\<^sub>m (\<lambda>k'. Cache_peek c (f k'))(k \<mapsto> v)"
    and "Cache_peek (Cache_add now c (f k) v) (f k) = Some v"
    and "lru_wf (Cache_add now c (f k) v)"
proof -
  show "(\<lambda>k'. Cache_peek (Cache_add now c (f k) v) (f k')) \<subseteq>\<^sub>m (\<lambda>k'. Cache_peek c (f k'))(k \<mapsto> v)"
  proof (rule map_leI_Some)
    fix k' v' assume "Cache_peek (Cache_add now c (f k) v) (f k') = Some v'"
    moreover have "Cache_peek (Cache_add now c (f k) v) \<subseteq>\<^sub>m (Cache_peek c)(f k \<mapsto> v)"
      using assms(1) by (intro Cache_peek_add_le) (simp add: lru_wf_def)
    ultimately have "((Cache_peek c)(f k \<mapsto> v)) (f k') = Some v'" by (rule map_le_SomeD [rotated])
    then show "((\<lambda>k'. Cache_peek c (f k'))(k \<mapsto> v)) k' = Some v'" using assms(2) by (auto split: if_splits)
  qed
  show "Cache_peek (Cache_add now c (f k) v) (f k) = Some v" "lru_wf (Cache_add now c (f k) v)"
    using assms(1) by (simp_all add: lru_wf_def Cache_peek_add_same Cache_wf_add)
qed

lemma coded_remove:
  assumes "lru_wf c" and "\<And>k k'. f k = f k' \<longleftrightarrow> k = k'"
  shows "(\<lambda>k'. Cache_peek (Cache_remove c (f k)) (f k')) = (\<lambda>k'. Cache_peek c (f k'))(k := None)"
    and "lru_wf (Cache_remove c (f k))"
  using assms by (auto simp: lru_wf_def Cache_peek_remove Cache_wf_remove)

lemma coded_expire:
  assumes "lru_wf c"
  shows "(\<lambda>k'. Cache_peek (snd (Cache_removeOldestExpired now c)) (f k')) \<subseteq>\<^sub>m (\<lambda>k'. Cache_peek c (f k'))"
    and "lru_wf (snd (Cache_removeOldestExpired now c))"
  using assms
  by (auto simp: lru_wf_def Cache_wf_removeOldestExpired intro!: map_leI_Some dest!: map_le_SomeD [OF Cache_peek_expire])

lemma coded_New:
  "lru_wf (New n d) \<longleftrightarrow> 0 \<le> n" "(\<lambda>k. Cache_peek (New n d) (f k)) = Map.empty"
  by (simp_all add: lru_wf_def Cache_wf_New) (simp_all add: New_def Cache_peek_def)

lemma cursorCache_add_cc [simp]:
  "cc_c (fst (cursorCache_add api now i coll server db c dc)) =
     Cache_add now (cc_c c) (buildKey i coll) \<lparr>ci_server = server, ci_databaseName = db\<rparr>"
  by (simp add: cursorCache_add_def Let_def)

lemma cursorCache_remove_cc [simp]:
  "cc_c (fst (snd (cursorCache_remove api i coll c dc))) = Cache_remove (cc_c c) (buildKey i coll)"
  by (simp add: cursorCache_remove_def Let_def)

lemma transactionCache_add_tc [simp]:
  "tc_c (fst (transactionCache_add api now lsID server t dc)) = Cache_add now (tc_c t) (base64_encode lsID) server"
  by (simp add: transactionCache_add_def)

lemma transactionCache_remove_tc [simp]:
  "tc_c (fst (transactionCache_remove api lsID t dc)) = Cache_remove (tc_c t) (base64_encode lsID)"
  by (simp add: transactionCache_remove_def)

lemma base64_encode_eq_iff: "base64_encode x = base64_encode y \<longleftrightarrow> x = y"
  using base64_encode_inj by auto

lemma buildKey_pair_inj: "buildKey (fst p) (snd p) = buildKey (fst q) (snd q) \<longleftrightarrow> p = q"
  by (simp add: buildKey_inj prod_eq_iff)

interpretation cursors: pin_cache cursor_lookup
  "\<lambda>now c k info. fst (cursorCache_add api now (fst k) (snd k) (ci_server info) (ci_databaseName info) c dc)"
  "\<lambda>c k. fst (snd (cursorCache_remove api (fst k) (snd k) c dc))"
  "\<lambda>now c. c\<lparr>cc_c := snd (Cache_removeOldestExpired now (cc_c c))\<rparr>"
  newCursorCache "\<lambda>c. lru_wf (cc_c c)"
  for api dc
proof unfold_locales
  note coded = coded_add [where f = "\<lambda>p. buildKey (fst p) (snd p)", OF _ buildKey_pair_inj]
    coded_remove [where f = "\<lambda>p. buildKey (fst p) (snd p)", OF _ buildKey_pair_inj]
    coded_expire(1) [where f = "\<lambda>p. buildKey (fst p) (snd p)"] coded_expire(2)
  fix c :: cursorCache and k :: "int \<times> string" and info now
  assume wf: "lru_wf (cc_c c)"
  show "cursor_lookup (fst (cursorCache_add api now (fst k) (snd k) (ci_server info) (ci_databaseName info) c dc))
      \<subseteq>\<^sub>m (cursor_lookup c)(k \<mapsto> info)"
    using coded(1) [OF wf, of now k info] by (cases info) (simp add: cursor_lookup_def [abs_def])
  show "cursor_lookup (fst (cursorCache_add api now (fst k) (snd k) (ci_server info) (ci_databaseName info) c dc)) k = Some info"
    using coded(2) [OF wf, of now k info] by (cases info) (simp add: cursor_lookup_def)
  show "cursor_lookup (fst (snd (cursorCache_remove api (fst k) (snd k) c dc))) = (cursor_lookup c)(k := None)"
    using coded(4) [OF wf] by (simp add: cursor_lookup_def [abs_def])
  show "cursor_lookup (c\<lparr>cc_c := snd (Cache_removeOldestExpired now (cc_c c))\<rparr>) \<subseteq>\<^sub>m cursor_lookup c"
    using coded(6) [OF wf] by (simp add: cursor_lookup_def [abs_def])
  show "lru_wf (cc_c (fst (cursorCache_add api now (fst k) (snd k) (ci_server info) (ci_databaseName info) c dc)))"
    "lru_wf (cc_c (fst (snd (cursorCache_remove api (fst k) (snd k) c dc))))"
    "lru_wf (cc_c (c\<lparr>cc_c := snd (Cache_removeOldestExpired now (cc_c c))\<rparr>))"
    using coded(3,5,7) [OF wf] by simp_all
qed (simp_all add: cursor_lookup_def [abs_def] newCursorCache_def coded_New maxCursors_def)

interpretation txns: pin_cache transaction_lookup
  "\<lambda>now t lsID server. fst (transactionCache_add api now lsID server t dc)"
  "\<lambda>t lsID. fst (transactionCache_remove api lsID t dc)"
  "\<lambda>now t. t\<lparr>tc_c := snd (Cache_removeOldestExpired now (tc_c t))\<rparr>"
  newTransactionCache "\<lambda>t. lru_wf (tc_c t)"
  for api dc
proof unfold_locales
  note coded = coded_add [where f = base64_encode, OF _ base64_encode_eq_iff]
    coded_remove [where f = base64_encode, OF _ base64_encode_eq_iff] coded_expire(1) [where f = base64_encode] coded_expire(2)
  fix t :: transactionCache and k :: bytes and v now
  assume wf: "lru_wf (tc_c t)"
  show "transaction_lookup (fst (transactionCache_add api now k v t dc)) \<subseteq>\<^sub>m (transaction_lookup t)(k \<mapsto> v)"
    using coded(1) [OF wf] by (simp add: transaction_lookup_def [abs_def])
  show "transaction_lookup (fst (transactionCache_add api now k v t dc)) k = Some v"
    using coded(2) [OF wf] by (simp add: transaction_lookup_def)
  show "transaction_lookup (fst (transactionCache_remove api k t dc)) = (transaction_lookup t)(k := None)"
    using coded(4) [OF wf] by (simp add: transaction_lookup_def [abs_def])
  show "transaction_lookup (t\<lparr>tc_c := snd (Cache_removeOldestExpired now (tc_c t))\<rparr>) \<subseteq>\<^sub>m transaction_lookup t"
    using coded(6) [OF wf] by (simp add: transaction_lookup_def [abs_def])
  show "lru_wf (tc_c (fst (transactionCache_add api now k v t dc)))"
    "lru_wf (tc_c (fst (transactionCache_remove api k t dc)))"
    "lru_wf (tc_c (t\<lparr>tc_c := snd (Cache_removeOldestExpired now (tc_c t))\<rparr>))"
    using coded(3,5,7) [OF wf] by simp_all
qed (simp_all add: transaction_lookup_def [abs_def] newTransactionCache_def coded_New maxTransactions_def)

section \<open>Properties\<close>

text \<open>
  What happens to the cursor cache of an instance, with the shared cache it writes through to:
  cursors are added and removed, and old ones expire.
\<close>

definition cursor_event ::
    "'g group_api \<Rightarrow> (int \<times> string, cursorInfo) pin_event \<Rightarrow> cursorCache \<times> 'g DistributedCache option \<Rightarrow>
     cursorCache \<times> 'g DistributedCache option" where
  "cursor_event api e s =
     (case e of
        Pin now k info \<Rightarrow> cursorCache_add api now (fst k) (snd k) (ci_server info) (ci_databaseName info) (fst s) (snd s)
      | Unpin k \<Rightarrow> snd (cursorCache_remove api (fst k) (snd k) (fst s) (snd s))
      | Expire now \<Rightarrow> ((fst s)\<lparr>cc_c := snd (Cache_removeOldestExpired now (cc_c (fst s)))\<rparr>, snd s))"

lemma cursorCache_local:
  "fst (cursorCache_add api now i coll server db c dc) = fst (cursorCache_add api now i coll server db c None)"
  "fst (snd (cursorCache_remove api i coll c dc)) = fst (snd (cursorCache_remove api i coll c None))"
  by (simp_all add: cursorCache_add_def cursorCache_remove_def Let_def)

lemma cursor_run_apply:
  "fst (fold (cursor_event (api :: 'g group_api)) es s) = fold (cursors.apply_event TYPE('g) api None) es (fst s)"
proof (induction es arbitrary: s)
  case (Cons e es)
  have "fst (cursor_event api e s) = cursors.apply_event TYPE('g) api None e (fst s)"
    using cursorCache_local(1) [of api _ _ _ _ _ "fst s" "snd s"] cursorCache_local(2) [of api _ _ "fst s" "snd s"]
    by (simp add: cursor_event_def cursors.apply_event_def split: pin_event.split)
  with Cons show ?case by simp
qed simp

lemma cursor_found:
  "cursor_lookup (fst (fold (cursor_event api) es (newCursorCache, dc))) k = Some v \<Longrightarrow> last_pin es k = Some v"
  unfolding cursor_run_apply fst_conv by (rule cursors.found_was_last_pinned)

lemma cursor_pinned:
  "cursor_lookup (fst (cursorCache_add api t (fst k) (snd k) (ci_server v) (ci_databaseName v)
     (fst (fold (cursor_event api) es (newCursorCache, dc))) dc')) k = Some v"
  unfolding cursorCache_local(1) [of _ _ _ _ _ _ _ dc'] cursor_run_apply fst_conv by (rule cursors.pinned_is_found)

text \<open>
  C22. A request for more results of a cursor goes to the right server, with or without a shared
  cache and whatever it holds by then: a server that the cursor cache of an instance finds for a
  cursor id and collection is the one this very cursor was last added with at this instance, and
  it was not removed there since; right after a cursor is added it is found with its server.
  Two cursors are never confused, although their keys are formatted strings. The shared cache never
  gives a server: a cursor is reported as found without one (a nil server) exactly when it was added so or
  the instance does not know it and the shared cache does.
\<close>

theorem cursor_found_on_its_server:
  "(fst (cursorCache_peek api now i coll (fst (fold (cursor_event api) es (newCursorCache, dc))) dc') = Some (Some server) \<longrightarrow>
      (\<exists>db. last_pin es (i, coll) = Some \<lparr>ci_server = Some server, ci_databaseName = db\<rparr>)) \<and>
   (fst (cursorCache_peek api now i coll (fst (fold (cursor_event api) es (newCursorCache, dc))) dc') = Some None \<longleftrightarrow>
      (case cursor_lookup (fst (fold (cursor_event api) es (newCursorCache, dc))) (i, coll) of
         Some info \<Rightarrow> ci_server info = None
       | None \<Rightarrow> dc_active dc' \<and> fst (GetCursor api now i coll (the dc')) \<noteq> None)) \<and>
   fst (cursorCache_peek api now i coll
      (fst (cursorCache_add api t i coll sv db (fst (fold (cursor_event api) es (newCursorCache, dc))) dc'')) dc') = Some sv"
proof (intro conjI impI)
  let ?c = "fst (fold (cursor_event api) es (newCursorCache, dc))"
  assume "fst (cursorCache_peek api now i coll ?c dc') = Some (Some server)"
  then obtain info where "cursor_lookup ?c (i, coll) = Some info" and "ci_server info = Some server"
    by (auto simp: cursorCache_peek_def cursor_lookup_def split: option.splits if_splits prod.splits)
  then have "last_pin es (i, coll) = Some info" "ci_server info = Some server"
    using cursor_found by simp_all
  then show "\<exists>db. last_pin es (i, coll) = Some \<lparr>ci_server = Some server, ci_databaseName = db\<rparr>"
    by (cases info) auto
next
  let ?c = "fst (fold (cursor_event api) es (newCursorCache, dc))"
  show "fst (cursorCache_peek api now i coll ?c dc') = Some None \<longleftrightarrow>
      (case cursor_lookup ?c (i, coll) of
         Some info \<Rightarrow> ci_server info = None
       | None \<Rightarrow> dc_active dc' \<and> fst (GetCursor api now i coll (the dc')) \<noteq> None)"
    by (auto simp: cursorCache_peek_def cursor_lookup_def split: option.splits prod.splits)
next
  show "fst (cursorCache_peek api now i coll
      (fst (cursorCache_add api t i coll sv db (fst (fold (cursor_event api) es (newCursorCache, dc))) dc'')) dc') = Some sv"
    using cursor_pinned [of api t "(i, coll)" "\<lparr>ci_server = sv, ci_databaseName = db\<rparr>" es dc dc'']
    by (simp add: cursorCache_peek_def cursor_lookup_def)
qed

theorem cursor_found_on_its_server_witness:
  "last_pin [Pin 0 (7, ''shop.items'') \<lparr>ci_server = Some 3, ci_databaseName = ''shop''\<rparr>] (7, ''shop.items'')
     = Some \<lparr>ci_server = Some 3, ci_databaseName = ''shop''\<rparr> \<and>
   fst (cursorCache_peek map_group 1 7 ''shop.items''
     (fst (fold (cursor_event map_group) [Pin 0 (7, ''shop.items'') \<lparr>ci_server = Some 3, ci_databaseName = ''shop''\<rparr>] (newCursorCache, None))) None)
     = Some (Some 3)"
proof -
  let ?es = "[Pin 0 (7, ''shop.items'') \<lparr>ci_server = Some 3, ci_databaseName = ''shop''\<rparr>]"
  let ?c = "fst (fold (cursor_event map_group) ?es (newCursorCache, None))"
  have found: "fst (cursorCache_peek map_group 1 7 ''shop.items'' ?c None) = Some (Some 3)"
    using cursor_found_on_its_server [THEN conjunct2, THEN conjunct2, of map_group 1 7 "''shop.items''" 0 "Some 3" "''shop''" "[]" None None None]
    by (simp add: cursor_event_def)
  from cursor_found_on_its_server [THEN conjunct1, THEN mp, OF this] found show ?thesis by (auto simp: last_pin_def)
qed

text \<open>What happens to the transaction cache of an instance, with the shared cache.\<close>

definition transaction_event ::
    "'g group_api \<Rightarrow> (bytes, server_ref option) pin_event \<Rightarrow> transactionCache \<times> 'g DistributedCache option \<Rightarrow>
     transactionCache \<times> 'g DistributedCache option" where
  "transaction_event api e s =
     (case e of
        Pin now lsID server \<Rightarrow> transactionCache_add api now lsID server (fst s) (snd s)
      | Unpin lsID \<Rightarrow> transactionCache_remove api lsID (fst s) (snd s)
      | Expire now \<Rightarrow> ((fst s)\<lparr>tc_c := snd (Cache_removeOldestExpired now (tc_c (fst s)))\<rparr>, snd s))"

lemma transactionCache_local:
  "fst (transactionCache_add api now lsID server t dc) = fst (transactionCache_add api now lsID server t None)"
  "fst (transactionCache_remove api lsID t dc) = fst (transactionCache_remove api lsID t None)"
  by (simp_all add: transactionCache_add_def transactionCache_remove_def)

lemma transaction_run_apply:
  "fst (fold (transaction_event (api :: 'g group_api)) es s) = fold (txns.apply_event TYPE('g) api None) es (fst s)"
proof (induction es arbitrary: s)
  case (Cons e es)
  have "fst (transaction_event api e s) = txns.apply_event TYPE('g) api None e (fst s)"
    using transactionCache_local(1) [of api _ _ _ "fst s" "snd s"] transactionCache_local(2) [of api _ "fst s" "snd s"]
    by (simp add: transaction_event_def txns.apply_event_def split: pin_event.split)
  with Cons show ?case by simp
qed simp

lemma transaction_found:
  "transaction_lookup (fst (fold (transaction_event api) es (newTransactionCache, dc))) k = Some v \<Longrightarrow> last_pin es k = Some v"
  unfolding transaction_run_apply fst_conv by (rule txns.found_was_last_pinned)

lemma transaction_pinned:
  "transaction_lookup (fst (transactionCache_add api t k v (fst (fold (transaction_event api) es (newTransactionCache, dc))) dc')) k = Some v"
  unfolding transactionCache_local(1) [of _ _ _ _ _ dc'] transaction_run_apply fst_conv by (rule txns.pinned_is_found)

text \<open>
  C23. The same for transactions, with or without a shared cache and whatever it holds by then: a
  server that the transaction cache of an instance finds for a logical session id is the one that
  session's transaction was last pinned to at this instance and not removed from since, and a transaction that
  was just added is found with its server. The shared cache never gives a server: a
  transaction is reported as found without one (a nil server) exactly when the instance has no server for
  it and the shared cache knows it.
\<close>

theorem transaction_found_on_its_server:
  "(fst (transactionCache_peek api now lsID (fst (fold (transaction_event api) es (newTransactionCache, dc))) dc') = Some (Some server) \<longrightarrow>
      last_pin es lsID = Some (Some server)) \<and>
   (fst (transactionCache_peek api now lsID (fst (fold (transaction_event api) es (newTransactionCache, dc))) dc') = Some None \<longleftrightarrow>
      (case transaction_lookup (fst (fold (transaction_event api) es (newTransactionCache, dc))) lsID of
         Some (Some _) \<Rightarrow> False
       | _ \<Rightarrow> dc_active dc' \<and> fst (GetTransaction api now lsID (the dc')))) \<and>
   fst (transactionCache_peek api now lsID
      (fst (transactionCache_add api t lsID (Some s) (fst (fold (transaction_event api) es (newTransactionCache, dc))) dc'')) dc') = Some (Some s)"
proof (intro conjI impI)
  let ?t = "fst (fold (transaction_event api) es (newTransactionCache, dc))"
  assume "fst (transactionCache_peek api now lsID ?t dc') = Some (Some server)"
  then have "transaction_lookup ?t lsID = Some (Some server)"
    by (auto simp: transactionCache_peek_def transaction_lookup_def split: option.splits if_splits prod.splits bool.splits)
  then show "last_pin es lsID = Some (Some server)" by (rule transaction_found)
next
  let ?t = "fst (fold (transaction_event api) es (newTransactionCache, dc))"
  show "fst (transactionCache_peek api now lsID ?t dc') = Some None \<longleftrightarrow>
      (case transaction_lookup ?t lsID of
         Some (Some _) \<Rightarrow> False
       | _ \<Rightarrow> dc_active dc' \<and> fst (GetTransaction api now lsID (the dc')))"
    by (auto simp: transactionCache_peek_def transaction_lookup_def split: option.splits prod.splits bool.splits)
next
  show "fst (transactionCache_peek api now lsID
      (fst (transactionCache_add api t lsID (Some s) (fst (fold (transaction_event api) es (newTransactionCache, dc))) dc'')) dc') = Some (Some s)"
    using transaction_pinned [of api t lsID "Some s" es dc dc'']
    by (simp add: transactionCache_peek_def transaction_lookup_def)
qed

theorem transaction_found_on_its_server_witness:
  "last_pin [Pin 0 ([1, 2] :: bytes) (Some 9 :: server_ref option)] [1, 2] = Some (Some 9) \<and>
   fst (transactionCache_peek map_group 1 [1, 2]
     (fst (fold (transaction_event map_group) [Pin 0 [1, 2] (Some 9)] (newTransactionCache, None))) None) = Some (Some 9)"
proof -
  let ?t = "fst (fold (transaction_event map_group) [Pin 0 [1, 2] (Some 9)] (newTransactionCache, None))"
  have found: "fst (transactionCache_peek map_group 1 [1, 2] ?t None) = Some (Some 9)"
    using transaction_found_on_its_server [THEN conjunct2, THEN conjunct2, of map_group 1 "[1, 2]" 0 9 "[]" None None None]
    by (simp add: transaction_event_def)
  from transaction_found_on_its_server [THEN conjunct1, THEN mp, OF this] found show ?thesis by blast
qed

end
