(* ===== verification/Mongo.thy ===== *)
theory Mongo
  imports Caches Operations
begin

text \<open>
  A client of a MongoDB deployment, \<^verbatim>\<open>src/mongo/mongo.go\<close>: health checks, the statistics of the
  driver's connection pool, and \<^verbatim>\<open>RoundTrip\<close>, which sends a message to the right server on the
  right connection, with retries, and keeps the sessions and the cursor and transaction
  caches up to date.

  The driver is a parameter, a record of its operations over a state of its own that also
  carries the clock. The session manager and the shared cache belong to the process, the
  rest to the client. Deferred calls are values of a list that is run at the
  return, last one first. The model records the connections that are opened, written to
  and closed and the waits in a trace; nothing in the model reads it. Log messages and the
  metrics are left out.
\<close>

section \<open>The driver\<close>

record 'd driver_api =
  drv_Error :: "go_error \<Rightarrow> string"
  drv_NodeIsRecovering :: "go_error \<Rightarrow> bool"
  drv_NotPrimary :: "go_error \<Rightarrow> bool"
  drv_NetworkError :: "go_error \<Rightarrow> bool"
  drv_NetworkErrorLabel :: string
  drv_now :: "'d \<Rightarrow> time"
  drv_Sleep :: "duration \<Rightarrow> 'd \<Rightarrow> 'd"
  drv_Connect :: "string \<Rightarrow> 'd \<Rightarrow> go_error option \<times> 'd"
  drv_Ping :: "'d \<Rightarrow> go_error option \<times> 'd"
  drv_Disconnect :: "'d \<Rightarrow> go_error option \<times> 'd"
  drv_Cancel :: "'d \<Rightarrow> 'd"
  drv_SelectServer :: "'d \<Rightarrow> (go_error + server_ref) \<times> 'd"
  drv_Connection :: "server_ref \<Rightarrow> 'd \<Rightarrow> (go_error + conn_ref) \<times> 'd"
  drv_ErrorProcessor :: "server_ref \<Rightarrow> bool"
  drv_Write :: "conn_ref \<Rightarrow> bytes \<Rightarrow> 'd \<Rightarrow> go_error option \<times> 'd"
  drv_Read :: "conn_ref \<Rightarrow> 'd \<Rightarrow> (go_error + bytes) \<times> 'd"
  drv_ProcessError :: "go_error \<Rightarrow> server_ref \<Rightarrow> conn_ref \<Rightarrow> 'd \<Rightarrow> 'd"
  drv_Close :: "conn_ref \<Rightarrow> 'd \<Rightarrow> go_error option \<times> 'd"

fun error_text :: "'d driver_api \<Rightarrow> go_error \<Rightarrow> string" where
  "error_text da (ErrorString s) = s"
| "error_text da err = drv_Error da err"

section \<open>State\<close>

record mongo_PoolStats =
  activeConnections :: int
  totalConnections :: int
  ps_maxPoolSize :: int
  checkoutCount :: int
  checkinCount :: int
  checkoutFailures :: int
  lastUpdated :: time

record HealthStats =
  h_isHealthy :: bool
  h_lastHealthCheck :: time
  healthCheckCount :: int
  healthFailures :: int
  lastError :: "go_error option"
  avgResponseTime :: duration

record Mongo =
  mg_client :: bool \<comment> \<open>whether the pointer is set\<close>
  mg_uri :: string
  mg_cursors :: cursorCache
  mg_transactions :: transactionCache
  mg_shared :: bool \<comment> \<open>whether the two caches have the shared cache\<close>
  mg_databaseName :: string
  mg_poolStats :: mongo_PoolStats
  mg_healthStats :: "HealthStats option"

datatype rt_event = Opened conn_ref | Sent conn_ref bytes | Closed conn_ref | Slept duration

record ('g, 'd) rt_state =
  rt_mongo :: Mongo
  rt_sm :: "'g sm_state"
  rt_drv :: 'd
  rt_trace :: "rt_event list"

definition rt_now :: "'d driver_api \<Rightarrow> ('g, 'd) rt_state \<Rightarrow> time" where
  "rt_now da st = drv_now da (rt_drv st)"

definition trace :: "rt_event \<Rightarrow> ('g, 'd) rt_state \<Rightarrow> ('g, 'd) rt_state" where
  "trace e st = st\<lparr>rt_trace := rt_trace st @ [e]\<rparr>"

text \<open>The shared cache as the cursor and transaction caches have it.\<close>

definition cache_dc :: "('g, 'd) rt_state \<Rightarrow> 'g DistributedCache option" where
  "cache_dc st = (if mg_shared (rt_mongo st) then snd (rt_sm st) else None)"

definition put_cache_dc :: "'g DistributedCache option \<Rightarrow> ('g, 'd) rt_state \<Rightarrow> ('g, 'd) rt_state" where
  "put_cache_dc dc st = (if mg_shared (rt_mongo st) then st\<lparr>rt_sm := (fst (rt_sm st), dc)\<rparr> else st)"

section \<open>Statistics of the driver's pool\<close>

datatype PoolEvent = ConnectionPoolCreated "int option" | ConnectionCreated | ConnectionClosed
  | ConnectionCheckedOut | ConnectionCheckedIn | ConnectionCheckOutFailed | OtherPoolEvent

definition zero_pool_stats :: mongo_PoolStats where
  "zero_pool_stats = \<lparr>activeConnections = 0, totalConnections = 0, ps_maxPoolSize = 0, checkoutCount = 0,
     checkinCount = 0, checkoutFailures = 0, lastUpdated = 0\<rparr>"

definition poolMonitor_Event :: "time \<Rightarrow> PoolEvent \<Rightarrow> mongo_PoolStats \<Rightarrow> mongo_PoolStats" where
  "poolMonitor_Event now evt s =
     (let s = s\<lparr>lastUpdated := now\<rparr>
      in case evt of
           ConnectionPoolCreated maxSize \<Rightarrow> (case maxSize of Some n \<Rightarrow> s\<lparr>ps_maxPoolSize := n\<rparr> | None \<Rightarrow> s)
         | ConnectionCreated \<Rightarrow> s\<lparr>totalConnections := totalConnections s + 1\<rparr>
         | ConnectionClosed \<Rightarrow>
             let s = s\<lparr>totalConnections := totalConnections s - 1\<rparr>
             in if totalConnections s < 0 then s\<lparr>totalConnections := 0\<rparr> else s
         | ConnectionCheckedOut \<Rightarrow> s\<lparr>activeConnections := activeConnections s + 1, checkoutCount := checkoutCount s + 1\<rparr>
         | ConnectionCheckedIn \<Rightarrow>
             let s = s\<lparr>activeConnections := activeConnections s - 1, checkinCount := checkinCount s + 1\<rparr>
             in if activeConnections s < 0 then s\<lparr>activeConnections := 0\<rparr> else s
         | ConnectionCheckOutFailed \<Rightarrow> s\<lparr>checkoutFailures := checkoutFailures s + 1\<rparr>
         | OtherPoolEvent \<Rightarrow> s)"

section \<open>Connecting and health\<close>

definition zero_health :: HealthStats where
  "zero_health = \<lparr>h_isHealthy = False, h_lastHealthCheck = 0, healthCheckCount = 0, healthFailures = 0,
     lastError = None, avgResponseTime = 0\<rparr>"

text \<open>
  The result is the client and the session manager it uses, which is a new one when none
  is given.
\<close>

definition ConnectWithDistributedCache ::
    "'d driver_api \<Rightarrow> string \<Rightarrow> bool \<Rightarrow> bool \<Rightarrow> SessionManager option \<Rightarrow> 'g DistributedCache option \<Rightarrow> 'd \<Rightarrow>
     (go_error + Mongo \<times> SessionManager) \<times> 'd" where
  "ConnectWithDistributedCache da uri metrics ping sessionManager distributedCache d =
     (let databaseName = extractDatabaseName uri;
          databaseName = (if databaseName = ''default'' \<or> databaseName = '''' then ''dynamic'' else databaseName)
      in case drv_Connect da uri d of
           (Some err, d) \<Rightarrow> (Inl err, d)
         | (None, d) \<Rightarrow>
             (case (if ping then drv_Ping da d else (None, d)) of
                (Some err, d) \<Rightarrow> (Inl err, d)
              | (None, d) \<Rightarrow>
                  (Inr (\<lparr>mg_client = True, mg_uri = uri, mg_cursors = setMetrics metrics newCursorCache,
                         mg_transactions = newTransactionCache, mg_shared = dc_active distributedCache,
                         mg_databaseName = databaseName, mg_poolStats = zero_pool_stats,
                         mg_healthStats = Some zero_health\<rparr>,
                        (case sessionManager of Some sm \<Rightarrow> sm | None \<Rightarrow> NewSessionManager)), d)))"

definition ConnectWithSessionManager ::
    "'d driver_api \<Rightarrow> string \<Rightarrow> bool \<Rightarrow> bool \<Rightarrow> SessionManager option \<Rightarrow> 'd \<Rightarrow> (go_error + Mongo \<times> SessionManager) \<times> 'd" where
  "ConnectWithSessionManager da uri metrics ping sessionManager d =
     ConnectWithDistributedCache da uri metrics ping sessionManager (None :: unit DistributedCache option) d"

definition Mongo_Connect :: "'d driver_api \<Rightarrow> string \<Rightarrow> bool \<Rightarrow> bool \<Rightarrow> 'd \<Rightarrow> (go_error + Mongo \<times> SessionManager) \<times> 'd" where
  "Mongo_Connect da uri metrics ping d = ConnectWithSessionManager da uri metrics ping None d"

definition CheckHealth :: "'d driver_api \<Rightarrow> ('g, 'd) rt_state \<Rightarrow> go_error option \<times> ('g, 'd) rt_state" where
  "CheckHealth da st =
     (case mg_healthStats (rt_mongo st) of
        None \<Rightarrow> (Some (ErrorString ''health stats not initialized''), st)
      | Some h \<Rightarrow>
          let start = rt_now da st;
              h = h\<lparr>healthCheckCount := healthCheckCount h + 1\<rparr>;
              (err, d) = drv_Ping da (rt_drv st);
              responseTime = drv_now da d - start;
              h = (case err of
                     Some e \<Rightarrow> h\<lparr>h_isHealthy := False, healthFailures := healthFailures h + 1, lastError := Some e,
                                h_lastHealthCheck := drv_now da d\<rparr>
                   | None \<Rightarrow> h\<lparr>h_isHealthy := True, lastError := None, h_lastHealthCheck := drv_now da d,
                              avgResponseTime := (if avgResponseTime h = 0 then responseTime
                                                  else go_div (avgResponseTime h + responseTime) 2)\<rparr>)
          in (err, st\<lparr>rt_drv := d, rt_mongo := (rt_mongo st)\<lparr>mg_healthStats := Some h\<rparr>\<rparr>))"

definition IsHealthy :: "time \<Rightarrow> Mongo \<Rightarrow> bool" where
  "IsHealthy now m =
     (case mg_healthStats m of
        None \<Rightarrow> False
      | Some h \<Rightarrow> if now - h_lastHealthCheck h > 30 * Second then False else h_isHealthy h)"

definition Mongo_Close :: "'d driver_api \<Rightarrow> ('g, 'd) rt_state \<Rightarrow> ('g, 'd) rt_state" where
  "Mongo_Close da st =
     (if \<not> mg_client (rt_mongo st) then st
      else
        let d = drv_Cancel da (rt_drv st);
            (err, d) = drv_Disconnect da d
        in st\<lparr>rt_drv := d, rt_mongo := (rt_mongo st)\<lparr>mg_client := False\<rparr>\<rparr>)"

text \<open>One tick of the session cleanup of \<^verbatim>\<open>cacheMonitor\<close>.\<close>

definition cacheMonitor_cleanup :: "'d driver_api \<Rightarrow> ('g, 'd) rt_state \<Rightarrow> ('g, 'd) rt_state" where
  "cacheMonitor_cleanup da st =
     st\<lparr>rt_sm := (CleanupInactiveSessions (rt_now da st) (5 * Minute) (fst (rt_sm st)), snd (rt_sm st))\<rparr>"

section \<open>Errors\<close>

definition wrapNetworkError :: "'d driver_api \<Rightarrow> go_error \<Rightarrow> go_error" where
  "wrapNetworkError da err = DriverError (error_text da err) [drv_NetworkErrorLabel da] (Some err)"

fun unwrapConnectionError :: "'d driver_api \<Rightarrow> go_error \<Rightarrow> go_error option" where
  "unwrapConnectionError da (ConnectionError wrapped) = wrapped"
| "unwrapConnectionError da (DriverError message labels wrapped) =
     (if \<not> drv_NetworkError da (DriverError message labels wrapped) then None
      else case wrapped of Some (ConnectionError wrapped) \<Rightarrow> wrapped | _ \<Rightarrow> None)"
| "unwrapConnectionError da err = None"

fun is_timeout :: "go_error \<Rightarrow> bool" where
  "is_timeout (NetError message timeout) = timeout"
| "is_timeout err = (err = ContextCanceled \<or> err = ContextDeadlineExceeded)"

fun driver_typed :: "go_error \<Rightarrow> bool" where
  "driver_typed (DriverError message labels wrapped) = True"
| "driver_typed (WriteConcernError message) = True"
| "driver_typed err = False"

definition errorChangesTopology :: "'d driver_api \<Rightarrow> go_error \<Rightarrow> bool" where
  "errorChangesTopology da err =
     (if driver_typed err \<and> (drv_NodeIsRecovering da err \<or> drv_NotPrimary da err) then True
      else case unwrapConnectionError da err of
             None \<Rightarrow> False
           | Some wrapped \<Rightarrow> \<not> is_timeout wrapped)"

definition processError ::
    "'d driver_api \<Rightarrow> go_error \<Rightarrow> server_ref \<Rightarrow> conn_ref \<Rightarrow> ('g, 'd) rt_state \<Rightarrow> ('g, 'd) rt_state" where
  "processError da err ep conn st = st\<lparr>rt_drv := drv_ProcessError da err ep conn (rt_drv st)\<rparr>"

section \<open>Choosing a server and a connection\<close>

definition selectServer ::
    "'g group_api \<Rightarrow> 'd driver_api \<Rightarrow> int \<Rightarrow> string \<Rightarrow> TransactionDetails option \<Rightarrow> ('g, 'd) rt_state \<Rightarrow>
     (go_error + server_ref option) \<times> ('g, 'd) rt_state" where
  "selectServer api da requestCursorID collection transDetails st =
     (let (pinned, st) =
            (case transDetails of
               None \<Rightarrow> (None, st)
             | Some td \<Rightarrow>
                 let (r, dc) = transactionCache_peek api (rt_now da st) (LsID td) (mg_transactions (rt_mongo st)) (cache_dc st)
                 in (r, put_cache_dc dc st))
      in case pinned of
           Some server \<Rightarrow> (Inr server, st)
         | None \<Rightarrow>
             let (cursor, st) =
                   (if requestCursorID \<noteq> 0 then
                      let (r, dc) = cursorCache_peek api (rt_now da st) requestCursorID collection (mg_cursors (rt_mongo st)) (cache_dc st)
                      in (r, put_cache_dc dc st)
                    else (None, st))
             in case cursor of
                  Some server \<Rightarrow> (Inr server, st)
                | None \<Rightarrow>
                    let (r, d) = drv_SelectServer da (rt_drv st)
                    in (map_sum id Some r, st\<lparr>rt_drv := d\<rparr>))"

definition checkoutConnection ::
    "'d driver_api \<Rightarrow> server_ref option \<Rightarrow> string \<Rightarrow> session_ref option \<Rightarrow> ('g, 'd) rt_state \<Rightarrow>
     (go_error + conn_ref) \<times> ('g, 'd) rt_state" where
  "checkoutConnection da server databaseName session st =
     (case server of
        None \<Rightarrow> (Inl (ErrorString (''server is nil for database '' @ databaseName)), st)
      | Some s \<Rightarrow>
          (case (case session of None \<Rightarrow> None | Some r \<Rightarrow> GetPinnedConnection r (fst (rt_sm st))) of
             Some pinnedConn \<Rightarrow> (Inr pinnedConn, st)
           | None \<Rightarrow>
               (case drv_Connection da s (rt_drv st) of
                  (Inl err, d) \<Rightarrow> (Inl err, st\<lparr>rt_drv := d\<rparr>)
                | (Inr conn, d) \<Rightarrow> (Inr conn, trace (Opened conn) (st\<lparr>rt_drv := d\<rparr>)))))"

definition roundTrip ::
    "'d driver_api \<Rightarrow> conn_ref \<Rightarrow> bytes \<Rightarrow> bool \<Rightarrow> ('g, 'd) rt_state \<Rightarrow> (go_error + bytes) \<times> ('g, 'd) rt_state" where
  "roundTrip da conn req unacknowledged st =
     (case drv_Write da conn req (rt_drv st) of
        (Some err, d) \<Rightarrow> (Inl (wrapNetworkError da err), trace (Sent conn req) (st\<lparr>rt_drv := d\<rparr>))
      | (None, d) \<Rightarrow>
          let st = trace (Sent conn req) (st\<lparr>rt_drv := d\<rparr>)
          in if unacknowledged then (Inr [], st)
             else case drv_Read da conn (rt_drv st) of
                    (Inl err, d) \<Rightarrow> (Inl (wrapNetworkError da err), st\<lparr>rt_drv := d\<rparr>)
                  | (Inr res, d) \<Rightarrow> (Inr res, st\<lparr>rt_drv := d\<rparr>))"

section \<open>The round trip\<close>

text \<open>The variables \<^verbatim>\<open>RoundTrip\<close> takes from the message before its loop.\<close>

record rt_request =
  rq_wm :: bytes
  rq_cursorID :: int
  rq_command :: Command
  rq_collection :: string
  rq_details :: "TransactionDetails option"
  rq_database :: string
  rq_unacknowledged :: bool

definition request_of :: "wire \<Rightarrow> bytes \<Rightarrow> Operation \<Rightarrow> rt_request" where
  "request_of w wm op =
     (let om = methods w op
      in \<lparr>rq_wm = wm, rq_cursorID = (case om_CursorID om of Some i \<Rightarrow> sint i | None \<Rightarrow> 0),
          rq_command = fst (om_CommandAndCollection om), rq_collection = snd (om_CommandAndCollection om),
          rq_details = om_TransactionDetails om, rq_database = om_DatabaseName om,
          rq_unacknowledged = om_Unacknowledged om\<rparr>)"

definition collection_database :: "string \<Rightarrow> string" where
  "collection_database collection =
     (if collection \<noteq> '''' then
        let d = CI_Database (ParseCollectionName collection) in if d \<noteq> '''' then d else ''default''
      else ''default'')"

definition request_database :: "rt_request \<Rightarrow> string" where
  "request_database rq = (if rq_database rq \<noteq> '''' then rq_database rq else collection_database (rq_collection rq))"

datatype deferred = DeferUnpin session_ref | DeferClose conn_ref bool "session_ref option"

definition close_conn :: "'d driver_api \<Rightarrow> conn_ref \<Rightarrow> ('g, 'd) rt_state \<Rightarrow> ('g, 'd) rt_state" where
  "close_conn da conn st = trace (Closed conn) (st\<lparr>rt_drv := snd (drv_Close da conn (rt_drv st))\<rparr>)"

definition with_sm :: "(SessionManager \<Rightarrow> SessionManager) \<Rightarrow> ('g, 'd) rt_state \<Rightarrow> ('g, 'd) rt_state" where
  "with_sm f st = st\<lparr>rt_sm := (f (fst (rt_sm st)), snd (rt_sm st))\<rparr>"

fun run_deferred :: "'d driver_api \<Rightarrow> deferred \<Rightarrow> ('g, 'd) rt_state \<Rightarrow> ('g, 'd) rt_state" where
  "run_deferred da (DeferUnpin r) st = with_sm (UnpinTransaction r) st"
| "run_deferred da (DeferClose conn isCommitOrAbortCommand session) st =
     (if isCommitOrAbortCommand then
        (case session of
           Some r \<Rightarrow> with_sm (ResetTransactionState r) (close_conn da conn st)
         | None \<Rightarrow> close_conn da conn st)
      else if (case session of None \<Rightarrow> True | Some r \<Rightarrow> \<not> IsTransactionActive r (fst (rt_sm st))) then close_conn da conn st
      else st)"

datatype attempt_result = Done "go_error + Message" | Again | Diverges

definition maxRetries :: nat where "maxRetries = 3"

definition baseDelay :: duration where "baseDelay = 100 * 1000000"

definition wait :: "'d driver_api \<Rightarrow> nat \<Rightarrow> ('g, 'd) rt_state \<Rightarrow> ('g, 'd) rt_state" where
  "wait da attempt st =
     (let delay = baseDelay * 2 ^ attempt in trace (Slept delay) (st\<lparr>rt_drv := drv_Sleep da delay (rt_drv st)\<rparr>))"

definition retry :: "'d driver_api \<Rightarrow> nat \<Rightarrow> go_error \<Rightarrow> ('g, 'd) rt_state \<Rightarrow> attempt_result \<times> ('g, 'd) rt_state" where
  "retry da attempt err st = (if attempt < maxRetries then (Again, wait da attempt st) else (Done (Inl err), st))"

text \<open>The server of the attempt: \<open>Inl\<close> ends the attempt.\<close>

definition attempt_server ::
    "'g group_api \<Rightarrow> 'd driver_api \<Rightarrow> nat \<Rightarrow> rt_request \<Rightarrow> session_ref option \<Rightarrow> ('g, 'd) rt_state \<Rightarrow>
     (attempt_result + server_ref option) \<times> ('g, 'd) rt_state" where
  "attempt_server api da attempt rq session st =
     (case session of
        Some r \<Rightarrow>
          (case GetPinnedServer r (fst (rt_sm st)) of
             Some pinnedServer \<Rightarrow> (Inr (Some pinnedServer), st)
           | None \<Rightarrow>
               (case selectServer api da (rq_cursorID rq) (rq_collection rq) (rq_details rq) st of
                  (Inl err, st) \<Rightarrow> (Inl (Done (Inl err)), st)
                | (Inr server, st) \<Rightarrow> (Inr server, st)))
      | None \<Rightarrow>
          (case selectServer api da (rq_cursorID rq) (rq_collection rq) (rq_details rq) st of
             (Inl err, st) \<Rightarrow> (let (r, st) = retry da attempt err st in (Inl r, st))
           | (Inr server, st) \<Rightarrow> (Inr server, st)))"

text \<open>The transaction commands. The flag tells whether the command commits or aborts.\<close>

definition transaction_control ::
    "'g group_api \<Rightarrow> 'd driver_api \<Rightarrow> rt_request \<Rightarrow> session_ref option \<Rightarrow> server_ref \<Rightarrow> conn_ref \<Rightarrow> ('g, 'd) rt_state \<Rightarrow>
     (go_error + bool) \<times> ('g, 'd) rt_state" where
  "transaction_control api da rq session server conn st =
     (case (session, rq_details rq) of
        (Some r, Some td) \<Rightarrow>
          (case (if IsStartTransaction td then
                   let (err, sm) = StartTransaction api (rt_now da st) r server conn (TxnNumber td) (rt_sm st)
                   in (err, st\<lparr>rt_sm := sm\<rparr>)
                 else (None, st)) of
             (Some err, st) \<Rightarrow> (Inl (ErrorString err), st)
           | (None, st) \<Rightarrow>
               if rq_command rq = Command.CommitTransaction then
                 (case Sessions.CommitTransaction (rt_now da st) r (fst (rt_sm st)) of
                    (Some err, sm) \<Rightarrow> (Inl (ErrorString err), st)
                  | (None, sm) \<Rightarrow> (Inr True, st\<lparr>rt_sm := (sm, snd (rt_sm st))\<rparr>))
               else if rq_command rq = Command.AbortTransaction then
                 (case sm_AbortTransaction (rt_now da st) r (fst (rt_sm st)) of
                    (Some err, sm) \<Rightarrow> (Inl (ErrorString err), st)
                  | (None, sm) \<Rightarrow> (Inr True, st\<lparr>rt_sm := (sm, snd (rt_sm st))\<rparr>))
               else if rq_command rq = EndSessions then
                 (case EndSession api (rt_now da st) r (rt_sm st) of
                    (Some err, sm) \<Rightarrow> (Inl (ErrorString err), st\<lparr>rt_sm := sm\<rparr>)
                  | (None, sm) \<Rightarrow> (Inr False, st\<lparr>rt_sm := sm\<rparr>))
               else (Inr False, st))
      | _ \<Rightarrow> (Inr False, st))"

definition record_cursor ::
    "'g group_api \<Rightarrow> 'd driver_api \<Rightarrow> rt_request \<Rightarrow> i64 option \<Rightarrow> server_ref \<Rightarrow> ('g, 'd) rt_state \<Rightarrow> ('g, 'd) rt_state" where
  "record_cursor api da rq response server st =
     (case response of
        None \<Rightarrow> st
      | Some responseCursorID \<Rightarrow>
          let m = rt_mongo st
          in if responseCursorID \<noteq> 0 then
               let databaseName = collection_database (rq_collection rq);
                   databaseName = (if databaseName = ''default'' \<and> mg_databaseName m \<noteq> ''dynamic'' \<and> mg_databaseName m \<noteq> ''default''
                                   then mg_databaseName m else databaseName);
                   (c, dc) = cursorCache_add api (rt_now da st) (sint responseCursorID) (rq_collection rq) (Some server) databaseName
                               (mg_cursors m) (cache_dc st)
               in put_cache_dc dc (st\<lparr>rt_mongo := m\<lparr>mg_cursors := c\<rparr>\<rparr>)
             else if rq_cursorID rq \<noteq> 0 then
               let (sent, c, dc) = cursorCache_remove api (rq_cursorID rq) (rq_collection rq) (mg_cursors m) (cache_dc st)
               in put_cache_dc dc (st\<lparr>rt_mongo := m\<lparr>mg_cursors := c\<rparr>\<rparr>)
             else st)"

definition record_transaction ::
    "'g group_api \<Rightarrow> 'd driver_api \<Rightarrow> rt_request \<Rightarrow> server_ref \<Rightarrow> ('g, 'd) rt_state \<Rightarrow> ('g, 'd) rt_state" where
  "record_transaction api da rq server st =
     (case rq_details rq of
        None \<Rightarrow> st
      | Some td \<Rightarrow>
          let m = rt_mongo st
          in if IsStartTransaction td then
               let (t, dc) = transactionCache_add api (rt_now da st) (LsID td) (Some server) (mg_transactions m) (cache_dc st)
               in put_cache_dc dc (st\<lparr>rt_mongo := m\<lparr>mg_transactions := t\<rparr>\<rparr>)
             else if rq_command rq = Command.AbortTransaction \<or> rq_command rq = Command.CommitTransaction then
               let (t, dc) = transactionCache_remove api (LsID td) (mg_transactions m) (cache_dc st)
               in put_cache_dc dc (st\<lparr>rt_mongo := m\<lparr>mg_transactions := t\<rparr>\<rparr>)
             else st)"

text \<open>The exchange on the connection and what follows it.\<close>

definition attempt_exchange ::
    "wire \<Rightarrow> 'g group_api \<Rightarrow> 'd driver_api \<Rightarrow> nat \<Rightarrow> rt_request \<Rightarrow> server_ref \<Rightarrow> conn_ref \<Rightarrow> ('g, 'd) rt_state \<Rightarrow>
     attempt_result \<times> ('g, 'd) rt_state" where
  "attempt_exchange w api da attempt rq server conn st =
     (if \<not> drv_ErrorProcessor da server then
        retry da attempt (ErrorString ''server ErrorProcessor type assertion failed'') st
      else
        case roundTrip da conn (rq_wm rq) (rq_unacknowledged rq) st of
          (Inl err, st) \<Rightarrow>
            let st = processError da err server conn st
            in if attempt < maxRetries \<and> isRetryableError (Some (error_text da err)) then (Again, wait da attempt st)
               else (Done (Inl err), st)
        | (Inr wm, st) \<Rightarrow>
            if rq_unacknowledged rq then (Done (Inr \<lparr>Wm = [], Op = None\<rparr>), st)
            else
              (case Decode w wm of
                 None \<Rightarrow> (Diverges, st)
               | Some (Inl err) \<Rightarrow> retry da attempt (ErrorString err) st
               | Some (Inr op) \<Rightarrow>
                   let st = (case om_Error (methods w op) of Some opErr \<Rightarrow> processError da opErr server conn st | None \<Rightarrow> st);
                       st = record_cursor api da rq (om_CursorID (methods w op)) server st;
                       st = record_transaction api da rq server st
                   in (Done (Inr \<lparr>Wm = wm, Op = Some op\<rparr>), st)))"

definition RoundTrip_attempt ::
    "wire \<Rightarrow> 'g group_api \<Rightarrow> 'd driver_api \<Rightarrow> nat \<Rightarrow> rt_request \<Rightarrow> session_ref option \<Rightarrow> deferred list \<Rightarrow> ('g, 'd) rt_state \<Rightarrow>
     attempt_result \<times> deferred list \<times> ('g, 'd) rt_state" where
  "RoundTrip_attempt w api da attempt rq session ds st =
     (case attempt_server api da attempt rq session st of
        (Inl r, st) \<Rightarrow> (r, ds, st)
      | (Inr None, st) \<Rightarrow>
          (Done (Inl (ErrorString (''no server available for database '' @ request_database rq))), ds, st)
      | (Inr (Some server), st) \<Rightarrow>
          (case checkoutConnection da (Some server) (request_database rq) session st of
             (Inl err, st) \<Rightarrow> (let (r, st) = retry da attempt err st in (r, ds, st))
           | (Inr conn, st) \<Rightarrow>
               (case transaction_control api da rq session server conn st of
                  (Inl err, st) \<Rightarrow> (Done (Inl err), ds, st)
                | (Inr isCommitOrAbortCommand, st) \<Rightarrow>
                    let ds = (if isCommitOrAbortCommand then DeferUnpin (the session) # ds else ds);
                        ds = DeferClose conn isCommitOrAbortCommand session # ds;
                        (r, st) = attempt_exchange w api da attempt rq server conn st
                    in (r, ds, st))))"

function RoundTrip_loop ::
    "wire \<Rightarrow> 'g group_api \<Rightarrow> 'd driver_api \<Rightarrow> nat \<Rightarrow> rt_request \<Rightarrow> session_ref option \<Rightarrow> deferred list \<Rightarrow> ('g, 'd) rt_state \<Rightarrow>
     ((go_error + Message) \<times> deferred list \<times> ('g, 'd) rt_state) option" where
  "RoundTrip_loop w api da attempt rq session ds st =
     (if attempt \<le> maxRetries then
        (case RoundTrip_attempt w api da attempt rq session ds st of
           (Done r, ds, st) \<Rightarrow> Some (r, ds, st)
         | (Again, ds, st) \<Rightarrow> RoundTrip_loop w api da (attempt + 1) rq session ds st
         | (Diverges, ds, st) \<Rightarrow> None)
      else Some (Inl (ErrorString ''max retries exceeded''), ds, st))"
  by pat_completeness auto
termination
  by (relation "measure (\<lambda>(w, api, da, attempt, rq, session, ds, st). Suc maxRetries - attempt)") auto

declare RoundTrip_loop.simps [simp del]

definition find_session ::
    "'g group_api \<Rightarrow> 'd driver_api \<Rightarrow> rt_request \<Rightarrow> ('g, 'd) rt_state \<Rightarrow> session_ref option \<times> ('g, 'd) rt_state" where
  "find_session api da rq st =
     (case rq_details rq of
        None \<Rightarrow> (None, st)
      | Some td \<Rightarrow>
          (case GetSession api (rt_now da st) (LsID td) (rt_sm st) of
             (Some r, sm) \<Rightarrow> (Some r, st\<lparr>rt_sm := sm\<rparr>)
           | (None, (sm, dc)) \<Rightarrow>
               let (r, sm) = adoptSession (rt_now da st) (LsID td) sm
               in (Some r, st\<lparr>rt_sm := (sm, dc)\<rparr>)))"

text \<open>\<open>None\<close> is a round trip that does not return.\<close>

definition RoundTrip ::
    "wire \<Rightarrow> 'g group_api \<Rightarrow> 'd driver_api \<Rightarrow> bytes \<Rightarrow> Operation \<Rightarrow> ('g, 'd) rt_state \<Rightarrow>
     ((go_error + Message) \<times> ('g, 'd) rt_state) option" where
  "RoundTrip w api da wm op st =
     (if \<not> mg_client (rt_mongo st) then Some (Inl (ErrorString ''connection closed''), st)
      else
        let st = (if IsHealthy (rt_now da st) (rt_mongo st) then st else snd (CheckHealth da st));
            rq = request_of w wm op;
            (session, st) = find_session api da rq st
        in case RoundTrip_loop w api da 0 rq session [] st of
             None \<Rightarrow> None
           | Some (r, ds, st) \<Rightarrow> Some (r, fold (run_deferred da) ds st))"

section \<open>What an attempt does\<close>

definition opened :: "rt_event list \<Rightarrow> conn_ref list" where
  "opened tr = List.map_filter (\<lambda>e. case e of Opened c \<Rightarrow> Some c | _ \<Rightarrow> None) tr"

definition closed_conns :: "rt_event list \<Rightarrow> conn_ref list" where
  "closed_conns tr = List.map_filter (\<lambda>e. case e of Closed c \<Rightarrow> Some c | _ \<Rightarrow> None) tr"

definition sent :: "rt_event list \<Rightarrow> (conn_ref \<times> bytes) list" where
  "sent tr = List.map_filter (\<lambda>e. case e of Sent c wm \<Rightarrow> Some (c, wm) | _ \<Rightarrow> None) tr"

definition slept :: "rt_event list \<Rightarrow> duration list" where
  "slept tr = List.map_filter (\<lambda>e. case e of Slept t \<Rightarrow> Some t | _ \<Rightarrow> None) tr"

lemma trace_views [simp]:
  "opened [] = []" "closed_conns [] = []" "sent [] = []" "slept [] = []"
  "opened (e # tr) = (case e of Opened c \<Rightarrow> [c] | _ \<Rightarrow> []) @ opened tr"
  "closed_conns (e # tr) = (case e of Closed c \<Rightarrow> [c] | _ \<Rightarrow> []) @ closed_conns tr"
  "sent (e # tr) = (case e of Sent c wm \<Rightarrow> [(c, wm)] | _ \<Rightarrow> []) @ sent tr"
  "slept (e # tr) = (case e of Slept t \<Rightarrow> [t] | _ \<Rightarrow> []) @ slept tr"
  by (simp_all add: opened_def closed_conns_def sent_def slept_def map_filter_simps split: rt_event.split)

lemma trace_views_append [simp]:
  "opened (tr @ tr') = opened tr @ opened tr'" "closed_conns (tr @ tr') = closed_conns tr @ closed_conns tr'"
  "sent (tr @ tr') = sent tr @ sent tr'" "slept (tr @ tr') = slept tr @ slept tr'"
  by (induction tr) simp_all

text \<open>A step that leaves the local sessions alone and adds \<open>tr\<close> to the trace.\<close>

definition adds :: "rt_event list \<Rightarrow> ('g, 'd) rt_state \<Rightarrow> ('g, 'd) rt_state \<Rightarrow> bool" where
  "adds tr st st' \<longleftrightarrow> rt_trace st' = rt_trace st @ tr \<and> fst (rt_sm st') = fst (rt_sm st)"

lemma adds_basic [simp]:
  "adds [] st (put_cache_dc dc st) " "adds [] st st" "adds [] st (st\<lparr>rt_drv := d\<rparr>)" "adds [] st (st\<lparr>rt_mongo := m\<rparr>)"
  "adds [e] st (trace e (st\<lparr>rt_drv := d\<rparr>))" "adds [] st (processError da err ep conn st)"
  "adds [Slept (baseDelay * 2 ^ attempt)] st (wait da attempt st)"
  by (simp_all add: adds_def put_cache_dc_def trace_def processError_def wait_def Let_def)

lemma adds_trans: "adds tr st st' \<Longrightarrow> adds tr' st' st'' \<Longrightarrow> adds (tr @ tr') st st''"
  by (simp add: adds_def)

lemma adds_put: "adds tr st (put_cache_dc dc st') = adds tr st st'"
  by (simp add: adds_def put_cache_dc_def)

lemma adds_fields: "adds tr st (st'\<lparr>rt_drv := d\<rparr>) = adds tr st st'" "adds tr st (st'\<lparr>rt_mongo := m\<rparr>) = adds tr st st'"
  by (simp_all add: adds_def)

lemma selectServer_adds: "selectServer api da i coll td st = (r, st') \<Longrightarrow> adds [] st st'"
  by (auto simp: selectServer_def Let_def adds_put adds_fields split: option.splits prod.splits if_splits)

lemma adds_record [simp]:
  "adds tr st (record_cursor api da rq i server st') = adds tr st st'"
  "adds tr st (record_transaction api da rq server st') = adds tr st st'"
  "adds tr st (processError da err ep conn st') = adds tr st st'"
  by (auto simp: record_cursor_def record_transaction_def processError_def Let_def adds_put adds_fields
      split: option.split prod.split)

lemma retry_result:
  "retry da attempt err st = (r, st') \<Longrightarrow>
     r = Again \<and> attempt < maxRetries \<and> adds [Slept (baseDelay * 2 ^ attempt)] st st' \<or> r = Done (Inl err) \<and> st' = st"
  by (auto simp: retry_def split: if_splits)

lemma roundTrip_adds: "roundTrip da conn wm un st = (r, st') \<Longrightarrow> adds [Sent conn wm] st st'"
  by (auto simp: roundTrip_def Let_def adds_fields split: prod.splits option.splits sum.splits if_splits)

text \<open>The wait that follows an attempt.\<close>

definition waits :: "nat \<Rightarrow> attempt_result \<Rightarrow> rt_event list" where
  "waits attempt r = (if r = Again then [Slept (baseDelay * 2 ^ attempt)] else [])"

lemma waits_views [simp]:
  "sent (waits attempt r) = []" "opened (waits attempt r) = []" "closed_conns (waits attempt r) = []"
  "slept (waits attempt r) = (if r = Again then [baseDelay * 2 ^ attempt] else [])"
  by (simp_all add: waits_def)

lemma attempt_exchange_adds:
  assumes "attempt_exchange w api da attempt rq server conn st = (r, st')"
  shows "(r = Again \<longrightarrow> attempt < maxRetries) \<and>
    (adds (waits attempt r) st st' \<or> adds (Sent conn (rq_wm rq) # waits attempt r) st st')"
proof (cases "drv_ErrorProcessor da server")
  case False
  with assms have "retry da attempt (ErrorString ''server ErrorProcessor type assertion failed'') st = (r, st')"
    by (simp add: attempt_exchange_def)
  from retry_result [OF this] show ?thesis by (auto simp: waits_def)
next
  case True
  obtain res st1 where rt: "roundTrip da conn (rq_wm rq) (rq_unacknowledged rq) st = (res, st1)" by fastforce
  note a1 = roundTrip_adds [OF rt]
  have *: "adds (Sent conn (rq_wm rq) # tr) st st'" if "adds tr st1 st'" for tr
    using adds_trans [OF a1 that] by simp
  have p: "adds [] st1 (processError da e server conn st1)" for e by simp
  show ?thesis
  proof (cases res)
    case (Inl err)
    have "r = Again \<and> attempt < maxRetries \<and> adds ([] @ [Slept (baseDelay * 2 ^ attempt)]) st1 st' \<or> r \<noteq> Again \<and> adds [] st1 st'"
      using assms True rt Inl adds_trans [OF p adds_basic(7)]
      by (auto simp: attempt_exchange_def Let_def split: if_splits)
    with * show ?thesis by (auto simp: waits_def)
  next
    case (Inr wm)
    consider "r \<noteq> Again" "adds [] st1 st'" | "retry da attempt (ErrorString (projl (the (Decode w wm)))) st1 = (r, st')"
      using assms True rt Inr
      by (auto simp: attempt_exchange_def Let_def split: if_splits option.splits sum.splits)
    then show ?thesis
    proof cases
      case 1
      with * [OF 1(2)] show ?thesis by (simp add: waits_def)
    next
      case 2
      from retry_result [OF 2] show ?thesis using * by (auto simp: waits_def)
    qed
  qed
qed

definition pinned_conn :: "session_ref option \<Rightarrow> SessionManager \<Rightarrow> conn_ref option" where
  "pinned_conn session sm = (case session of None \<Rightarrow> None | Some r \<Rightarrow> GetPinnedConnection r sm)"

lemma attempt_server_adds:
  assumes "attempt_server api da attempt rq session st = (r, st')"
  shows "case r of
      Inl a \<Rightarrow> adds (waits attempt a) st st' \<and> (a = Again \<longrightarrow> attempt < maxRetries) \<and> (a = Again \<or> (\<exists>e. a = Done (Inl e)))
    | Inr s \<Rightarrow> adds [] st st'"
proof -
  obtain res st1 where sel: "selectServer api da (rq_cursorID rq) (rq_collection rq) (rq_details rq) st = (res, st1)" by fastforce
  note a = selectServer_adds [OF sel]
  have *: "a = Again \<and> attempt < maxRetries \<and> adds [Slept (baseDelay * 2 ^ attempt)] st st' \<or> (\<exists>e. a = Done (Inl e)) \<and> adds [] st st'"
    if "retry da attempt err st1 = (a, st')" for a err
    using retry_result [OF that] adds_trans [OF a] by force
  show ?thesis
    using assms sel a * by (auto simp: attempt_server_def waits_def Let_def split: option.splits sum.splits prod.splits)
qed

lemma checkoutConnection_adds:
  assumes "checkoutConnection da (Some server) db session st = (r, st')"
  shows "case r of
      Inl e \<Rightarrow> adds [] st st' \<and> pinned_conn session (fst (rt_sm st)) = None
    | Inr conn \<Rightarrow> pinned_conn session (fst (rt_sm st)) = Some conn \<and> st' = st
        \<or> pinned_conn session (fst (rt_sm st)) = None \<and> adds [Opened conn] st st'"
  using assms by (auto simp: checkoutConnection_def pinned_conn_def split: option.splits sum.splits prod.splits)

text \<open>
  An attempt stops before it has a connection, is refused by the session manager, or gets
  to the exchange, with the deferred calls registered.
\<close>

lemma attempt_cases:
  assumes "RoundTrip_attempt w api da attempt rq session ds st = (r, ds', st')"
  obtains
    (stopped) "ds' = ds" "adds (waits attempt r) st st'" "r = Again \<longrightarrow> attempt < maxRetries"
      "r = Again \<or> (\<exists>e. r = Done (Inl e))"
  | (refused) server conn st1 e tr where "adds tr st st1" "transaction_control api da rq session server conn st1 = (Inl e, st')"
      "pinned_conn session (fst (rt_sm st)) = Some conn \<and> tr = [] \<or> pinned_conn session (fst (rt_sm st)) = None \<and> tr = [Opened conn]"
      "r = Done (Inl e)" "ds' = ds"
  | (exchanged) server conn st1 st2 ca tr where "adds tr st st1" "transaction_control api da rq session server conn st1 = (Inr ca, st2)"
      "pinned_conn session (fst (rt_sm st)) = Some conn \<and> tr = [] \<or> pinned_conn session (fst (rt_sm st)) = None \<and> tr = [Opened conn]"
      "attempt_exchange w api da attempt rq server conn st2 = (r, st')"
      "ds' = DeferClose conn ca session # (if ca then DeferUnpin (the session) # ds else ds)"
proof -
  obtain sr st0 where srv: "attempt_server api da attempt rq session st = (sr, st0)" by fastforce
  note s = attempt_server_adds [OF srv]
  show ?thesis
  proof (cases sr)
    case (Inl a)
    with assms srv s show ?thesis by (intro stopped) (auto simp: RoundTrip_attempt_def)
  next
    case (Inr so)
    then have s0: "adds [] st st0" using s by simp
    show ?thesis
    proof (cases so)
      case None
      with assms srv Inr s0 show ?thesis by (intro stopped) (auto simp: RoundTrip_attempt_def waits_def)
    next
      case (Some server)
      obtain cr st1 where co: "checkoutConnection da (Some server) (request_database rq) session st0 = (cr, st1)" by fastforce
      note c = checkoutConnection_adds [OF co]
      have sm: "fst (rt_sm st0) = fst (rt_sm st)" using s0 by (simp add: adds_def)
      show ?thesis
      proof (cases cr)
        case e: (Inl err)
        then obtain st1' where re: "retry da attempt err st1 = (r, st1')" "st' = st1'" "ds' = ds"
          using assms srv Inr Some co by (auto simp: RoundTrip_attempt_def split: prod.splits)
        with retry_result [OF re(1)] c e s0 adds_trans [OF adds_trans [OF s0]] show ?thesis
          by (intro stopped) (fastforce simp: waits_def)+
      next
        case conn: (Inr conn)
        obtain tr where tr: "adds tr st st1"
          "pinned_conn session (fst (rt_sm st)) = Some conn \<and> tr = [] \<or> pinned_conn session (fst (rt_sm st)) = None \<and> tr = [Opened conn]"
          using c conn sm s0 adds_trans [OF s0] by (auto 4 4)
        obtain tc st2 where tc: "transaction_control api da rq session server conn st1 = (tc, st2)" by fastforce
        show ?thesis
        proof (cases tc)
          case (Inl e)
          with assms srv Inr conn Some co tc tr show ?thesis by (intro refused [OF tr(1)]) (auto simp: RoundTrip_attempt_def)
        next
          case (Inr ca)
          with assms srv \<open>sr = Inr so\<close> conn Some co tc tr show ?thesis
            by (intro exchanged [OF tr(1), of server conn ca st2]) (auto simp: RoundTrip_attempt_def Let_def split: prod.splits)
        qed
      qed
    qed
  qed
qed

lemma attempt_again: "RoundTrip_attempt w api da attempt rq session ds st = (Again, ds', st') \<Longrightarrow> attempt < maxRetries"
  by (erule attempt_cases) (auto dest: attempt_exchange_adds)

text \<open>An invariant \<open>I\<close> of the attempts and what it gives at the return.\<close>

lemma RoundTrip_loop_rule:
  assumes "RoundTrip_loop w api da attempt rq session ds st = Some (x, ds', st')" and "I attempt ds st" and "attempt \<le> maxRetries"
    and again: "\<And>attempt ds st ds' st'. I attempt ds st \<Longrightarrow> attempt < maxRetries \<Longrightarrow>
        RoundTrip_attempt w api da attempt rq session ds st = (Again, ds', st') \<Longrightarrow> I (Suc attempt) ds' st'"
    and finish: "\<And>attempt ds st x ds' st'. I attempt ds st \<Longrightarrow> attempt \<le> maxRetries \<Longrightarrow>
        RoundTrip_attempt w api da attempt rq session ds st = (Done x, ds', st') \<Longrightarrow> Q x ds' st'"
  shows "Q x ds' st'"
  using assms(1-3)
proof (induction "Suc maxRetries - attempt" arbitrary: attempt ds st)
  case (Suc n)
  obtain r ds1 st1 where a: "RoundTrip_attempt w api da attempt rq session ds st = (r, ds1, st1)" by (metis prod_cases3)
  show ?case
  proof (cases r)
    case (Done y)
    with Suc.prems a have "y = x" "ds1 = ds'" "st1 = st'" by (simp_all add: RoundTrip_loop.simps [of _ _ _ attempt])
    with finish [OF Suc.prems(2,3) a [unfolded Done]] show ?thesis by simp
  next
    case Again
    then have l: "attempt < maxRetries" using attempt_again a by blast
    have "RoundTrip_loop w api da (Suc attempt) rq session ds1 st1 = Some (x, ds', st')"
      using Suc.prems a Again by (simp add: RoundTrip_loop.simps [of _ _ _ attempt])
    moreover have "I (Suc attempt) ds1 st1" using again [OF Suc.prems(2) l] a Again by simp
    ultimately show ?thesis using Suc.hyps l by (intro Suc.hyps(1)) auto
  next
    case Diverges
    with Suc.prems a show ?thesis by (simp add: RoundTrip_loop.simps [of _ _ _ attempt])
  qed
qed simp

lemma RoundTrip_loop_inv:
  assumes "RoundTrip_loop w api da attempt rq session ds st = Some (x, ds', st')" and "J ds st" and "attempt \<le> maxRetries"
    and "\<And>attempt ds st r ds' st'. J ds st \<Longrightarrow> RoundTrip_attempt w api da attempt rq session ds st = (r, ds', st') \<Longrightarrow> J ds' st'"
  shows "J ds' st'"
  by (rule RoundTrip_loop_rule [OF assms(1), where I = "\<lambda>_. J"]) (use assms(2-4) in blast)+

lemma control_trace: "transaction_control api da rq session server conn st = (x, st') \<Longrightarrow> rt_trace st' = rt_trace st"
  by (auto simp: transaction_control_def Let_def split: option.splits prod.splits if_splits)

section \<open>Bounds and balance\<close>

lemma attempt_effort:
  assumes "RoundTrip_attempt w api da attempt rq session ds st = (r, ds', st')"
  obtains tr where "rt_trace st' = rt_trace st @ tr" "set (sent tr) \<subseteq> UNIV \<times> {rq_wm rq}" "length (sent tr) \<le> 1"
    "slept tr = slept (waits attempt r)" "closed_conns tr = []"
  using assms
proof (cases rule: attempt_cases)
  case stopped
  then show ?thesis by (intro that [of "waits attempt r"]) (auto simp: adds_def)
next
  case (refused server conn st1 e tr)
  then show ?thesis by (intro that [of tr]) (auto simp: adds_def dest: control_trace)
next
  case (exchanged server conn st1 st2 ca tr)
  from attempt_exchange_adds [OF exchanged(4)] obtain tr' where "adds tr' st2 st'"
      "tr' = waits attempt r \<or> tr' = Sent conn (rq_wm rq) # waits attempt r" by blast
  with exchanged(1,2,3) show ?thesis
    by (intro that [of "tr @ tr'"]) (auto simp: adds_def dest: control_trace)
qed

lemma RoundTrip_loop_effort:
  fixes st :: "('a, 'b) rt_state"
  assumes "RoundTrip_loop w api da 0 rq session [] st = Some (x, ds', st')"
  shows "\<exists>tr. rt_trace st' = rt_trace st @ tr \<and> set (sent tr) \<subseteq> UNIV \<times> {rq_wm rq} \<and> length (sent tr) \<le> Suc maxRetries
    \<and> sum_list (slept tr) \<le> baseDelay * (2 ^ maxRetries - 1)" (is "\<exists>tr. ?Q tr st'")
proof (rule RoundTrip_loop_rule [OF assms, where
      I = "\<lambda>attempt ds st'. \<exists>tr. rt_trace st' = rt_trace st @ tr \<and> set (sent tr) \<subseteq> UNIV \<times> {rq_wm rq} \<and> length (sent tr) \<le> attempt
        \<and> sum_list (slept tr) \<le> baseDelay * (2 ^ attempt - 1)"])
  fix attempt ds ds' and st1 st' :: "('a, 'b) rt_state"
  assume I: "\<exists>tr. rt_trace st1 = rt_trace st @ tr \<and> set (sent tr) \<subseteq> UNIV \<times> {rq_wm rq} \<and> length (sent tr) \<le> attempt
        \<and> sum_list (slept tr) \<le> baseDelay * (2 ^ attempt - 1)"
  then obtain tr where tr: "rt_trace st1 = rt_trace st @ tr" "set (sent tr) \<subseteq> UNIV \<times> {rq_wm rq}" "length (sent tr) \<le> attempt"
        "sum_list (slept tr) \<le> baseDelay * (2 ^ attempt - 1)" by blast
  {
    assume "RoundTrip_attempt w api da attempt rq session ds st1 = (Again, ds', st')"
    then obtain tr' where "rt_trace st' = rt_trace st1 @ tr'" "set (sent tr') \<subseteq> UNIV \<times> {rq_wm rq}" "length (sent tr') \<le> 1"
      "slept tr' = slept (waits attempt Again)" by (rule attempt_effort)
    with tr show "\<exists>tr. rt_trace st' = rt_trace st @ tr \<and> set (sent tr) \<subseteq> UNIV \<times> {rq_wm rq} \<and> length (sent tr) \<le> Suc attempt
        \<and> sum_list (slept tr) \<le> baseDelay * (2 ^ Suc attempt - 1)"
      by (intro exI [of _ "tr @ tr'"]) (auto simp: algebra_simps)
  next
    fix y
    assume l: "attempt \<le> maxRetries" and "RoundTrip_attempt w api da attempt rq session ds st1 = (Done y, ds', st')"
    then obtain tr' where tr': "rt_trace st' = rt_trace st1 @ tr'" "set (sent tr') \<subseteq> UNIV \<times> {rq_wm rq}" "length (sent tr') \<le> 1"
      "slept tr' = slept (waits attempt (Done y))" by (elim attempt_effort)
    have "baseDelay * (2 ^ attempt - 1) \<le> baseDelay * (2 ^ maxRetries - 1)"
      using l by (simp add: baseDelay_def)
    with tr tr' l show "\<exists>tr. ?Q tr st'"
      by (intro exI [of _ "tr @ tr'"]) auto
  }
qed (auto intro!: exI [of _ "[]"])

lemma exchange_diverges:
  "attempt_exchange w api da attempt rq server conn st = (Diverges, st') \<Longrightarrow> \<exists>wm. Decode w wm = None"
  by (auto simp: attempt_exchange_def retry_def Let_def split: if_splits prod.splits sum.splits option.splits)

lemma RoundTrip_loop_returns:
  assumes "\<And>wm. \<exists>r. Decode w wm = Some r"
  shows "\<exists>x ds' st'. RoundTrip_loop w api da attempt rq session ds st = Some (x, ds', st')"
proof (induction "Suc maxRetries - attempt" arbitrary: attempt ds st)
  case 0
  then show ?case by (simp add: RoundTrip_loop.simps [of _ _ _ attempt])
next
  case (Suc n)
  obtain r ds1 st1 where a: "RoundTrip_attempt w api da attempt rq session ds st = (r, ds1, st1)" by (metis prod_cases3)
  have "r \<noteq> Diverges"
    using a
  proof (cases rule: attempt_cases)
    case (exchanged server conn st2 st3 ca tr)
    then show ?thesis using assms by (metis exchange_diverges option.distinct(1))
  qed auto
  then show ?case using a Suc.hyps(1) [of "Suc attempt" ds1 st1] Suc.hyps(2)
    by (cases r) (auto simp: RoundTrip_loop.simps [of _ _ _ attempt])
qed

lemma run_deferred_trace:
  "\<exists>tr. rt_trace (run_deferred da d st) = rt_trace st @ tr \<and> sent tr = [] \<and> slept tr = [] \<and> opened tr = []"
  by (cases d) (auto simp: with_sm_def close_conn_def trace_def split: option.split intro!: exI [of _ "[]"])

lemma run_deferreds_trace:
  "\<exists>tr. rt_trace (fold (run_deferred da) ds st) = rt_trace st @ tr \<and> sent tr = [] \<and> slept tr = [] \<and> opened tr = []"
proof (induction ds arbitrary: st)
  case (Cons d ds)
  obtain tr where "rt_trace (run_deferred da d st) = rt_trace st @ tr" "sent tr = []" "slept tr = []" "opened tr = []"
    using run_deferred_trace by blast
  moreover obtain tr' where "rt_trace (fold (run_deferred da) ds (run_deferred da d st)) = rt_trace (run_deferred da d st) @ tr'"
      "sent tr' = []" "slept tr' = []" "opened tr' = []"
    using Cons.IH by blast
  ultimately show ?case by (intro exI [of _ "tr @ tr'"]) simp
qed (auto intro!: exI [of _ "[]"])

definition checked :: "'d driver_api \<Rightarrow> ('g, 'd) rt_state \<Rightarrow> ('g, 'd) rt_state" where
  "checked da st = (if IsHealthy (rt_now da st) (rt_mongo st) then st else snd (CheckHealth da st))"

lemma checked_frame [simp]:
  "rt_trace (checked da st) = rt_trace st" "rt_sm (checked da st) = rt_sm st"
  by (simp_all add: checked_def CheckHealth_def Let_def split: option.split prod.split)

lemma find_session_frame:
  assumes "find_session api da rq st = (session, st')"
  shows "rt_trace st' = rt_trace st" and "session = None \<longleftrightarrow> rq_details rq = None"
  using assms by (auto simp: find_session_def Let_def split: option.splits prod.splits)

lemma RoundTrip_cases:
  assumes "RoundTrip w api da wm op st = Some (r, st')"
  obtains (closed) "\<not> mg_client (rt_mongo st)" "r = Inl (ErrorString ''connection closed'')" "st' = st"
  | (loop) session st1 ds st2 where "mg_client (rt_mongo st)"
      "find_session api da (request_of w wm op) (checked da st) = (session, st1)"
      "RoundTrip_loop w api da 0 (request_of w wm op) session [] st1 = Some (r, ds, st2)"
      "st' = fold (run_deferred da) ds st2" "rt_trace st1 = rt_trace st"
proof (cases "mg_client (rt_mongo st)")
  case True
  obtain session st1 where f: "find_session api da (request_of w wm op) (checked da st) = (session, st1)" by fastforce
  with assms True show ?thesis using find_session_frame(1) [OF f]
    by (auto simp: RoundTrip_def checked_def [symmetric] Let_def split: option.splits intro: loop [OF True f])
next
  case False
  with assms show ?thesis by (intro closed) (simp_all add: RoundTrip_def)
qed

definition deferred_conns :: "deferred list \<Rightarrow> conn_ref list" where
  "deferred_conns ds = List.map_filter (\<lambda>d. case d of DeferClose c _ _ \<Rightarrow> Some c | _ \<Rightarrow> None) ds"

lemma deferred_conns_Cons [simp]:
  "deferred_conns [] = []" "deferred_conns (DeferClose c b s # ds) = c # deferred_conns ds"
  by (simp_all add: deferred_conns_def map_filter_simps)

lemma plain_deferreds:
  assumes "list_all (\<lambda>d. \<exists>c. d = DeferClose c False None) ds"
  shows "rt_trace (fold (run_deferred da) ds st) = rt_trace st @ map Closed (deferred_conns ds)"
  using assms by (induction ds arbitrary: st) (auto simp: close_conn_def trace_def)

lemma RoundTrip_loop_balance:
  fixes st :: "('a, 'b) rt_state"
  assumes "RoundTrip_loop w api da 0 rq None [] st = Some (x, ds', st')"
  shows "\<exists>tr. rt_trace st' = rt_trace st @ tr \<and> closed_conns tr = [] \<and> opened tr = rev (deferred_conns ds')
    \<and> list_all (\<lambda>d. \<exists>c. d = DeferClose c False None) ds'"
proof (rule RoundTrip_loop_inv [OF assms])
  fix attempt ds ds' r and st1 st' :: "('a, 'b) rt_state"
  assume "\<exists>tr. rt_trace st1 = rt_trace st @ tr \<and> closed_conns tr = [] \<and> opened tr = rev (deferred_conns ds)
        \<and> list_all (\<lambda>d. \<exists>c. d = DeferClose c False None) ds"
  then obtain tr where tr: "rt_trace st1 = rt_trace st @ tr" "closed_conns tr = []" "opened tr = rev (deferred_conns ds)"
      "list_all (\<lambda>d. \<exists>c. d = DeferClose c False None) ds" by blast
  assume "RoundTrip_attempt w api da attempt rq None ds st1 = (r, ds', st')"
  then show "\<exists>tr. rt_trace st' = rt_trace st @ tr \<and> closed_conns tr = [] \<and> opened tr = rev (deferred_conns ds')
        \<and> list_all (\<lambda>d. \<exists>c. d = DeferClose c False None) ds'"
  proof (cases rule: attempt_cases)
    case stopped
    with tr show ?thesis by (intro exI [of _ "tr @ waits attempt r"]) (simp add: adds_def)
  next
    case (refused server conn st2 e tr')
    then show ?thesis by (simp add: transaction_control_def)
  next
    case (exchanged server conn st2 st3 ca tr')
    then have "st3 = st2" "ca = False" "tr' = [Opened conn]" by (auto simp: transaction_control_def pinned_conn_def)
    moreover obtain tr'' where "adds tr'' st3 st'" "tr'' = waits attempt r \<or> tr'' = Sent conn (rq_wm rq) # waits attempt r"
      using attempt_exchange_adds [OF exchanged(4)] by blast
    ultimately show ?thesis using tr exchanged(1,5) by (intro exI [of _ "tr @ tr' @ tr''"]) (auto simp: adds_def)
  qed
qed (auto intro!: exI [of _ "[]"])

section \<open>Properties of the round trip\<close>

text \<open>
  C8. A round trip returns: whatever the servers answer and whichever calls of the driver fail,
  it ends with an answer or an error. The message goes out at most four times, never
  altered, and the waits between the attempts add up to at most 700 milliseconds.
\<close>

theorem RoundTrip_returns:
  assumes "readers_consume w"
  shows "\<exists>r st' tr. RoundTrip w api da wm op st = Some (r, st') \<and> rt_trace st' = rt_trace st @ tr
    \<and> length (sent tr) \<le> 4 \<and> snd ` set (sent tr) \<subseteq> {wm} \<and> sum_list (slept tr) \<le> 700 * 1000000"
proof (cases "mg_client (rt_mongo st)")
  case False
  then show ?thesis by (intro exI [of _ "Inl (ErrorString ''connection closed'')"] exI [of _ st] exI [of _ "[]"]) (simp add: RoundTrip_def)
next
  case True
  let ?rq = "request_of w wm op"
  obtain session st1 where f: "find_session api da ?rq (checked da st) = (session, st1)" by fastforce
  obtain r ds st2 where l: "RoundTrip_loop w api da 0 ?rq session [] st1 = Some (r, ds, st2)"
    using RoundTrip_loop_returns [OF Decode_total [OF assms]] by blast
  obtain tr where tr: "rt_trace st2 = rt_trace st1 @ tr" "set (sent tr) \<subseteq> UNIV \<times> {rq_wm ?rq}" "length (sent tr) \<le> Suc maxRetries"
      "sum_list (slept tr) \<le> baseDelay * (2 ^ maxRetries - 1)"
    using RoundTrip_loop_effort [OF l] by blast
  obtain tr' where tr': "rt_trace (fold (run_deferred da) ds st2) = rt_trace st2 @ tr'" "sent tr' = []" "slept tr' = []"
    using run_deferreds_trace by blast
  have "RoundTrip w api da wm op st = Some (r, fold (run_deferred da) ds st2)"
    using True f l by (simp add: RoundTrip_def checked_def [symmetric] Let_def)
  moreover have "rt_trace st1 = rt_trace st" using find_session_frame(1) [OF f] by simp
  moreover have "rq_wm ?rq = wm" by (simp add: request_of_def Let_def)
  ultimately show ?thesis using tr tr'
    by (intro exI [of _ r] exI [of _ "fold (run_deferred da) ds st2"] exI [of _ "tr @ tr'"])
      (auto simp: maxRetries_def baseDelay_def)
qed

text \<open>
  C9. Outside of sessions no connection leaks: a round trip for a message without transaction
  details closes every connection it opened, the ones of failed attempts included,
  exactly once, the last one first.
\<close>

theorem RoundTrip_closes_connections:
  assumes "om_TransactionDetails (methods w op) = None" and "RoundTrip w api da wm op st = Some (r, st')"
  shows "\<exists>tr. rt_trace st' = rt_trace st @ tr \<and> closed_conns tr = rev (opened tr)"
  using assms(2)
proof (cases rule: RoundTrip_cases)
  case closed
  then show ?thesis by (intro exI [of _ "[]"]) simp
next
  case (loop session st1 ds st2)
  have "rq_details (request_of w wm op) = None" using assms(1) by (simp add: request_of_def Let_def)
  then have "session = None" using find_session_frame(2) [OF loop(2)] by simp
  then obtain tr where tr: "rt_trace st2 = rt_trace st1 @ tr" "closed_conns tr = []" "opened tr = rev (deferred_conns ds)"
      "list_all (\<lambda>d. \<exists>c. d = DeferClose c False None) ds"
    using RoundTrip_loop_balance loop(3) by blast
  have c: "closed_conns (map Closed cs) = cs" "opened (map Closed cs) = []" for cs by (induction cs) simp_all
  show ?thesis using loop(4,5) tr plain_deferreds [OF tr(4), of da st2]
    by (intro exI [of _ "tr @ map Closed (deferred_conns ds)"]) (simp add: c)
qed

section \<open>A transaction over round trips\<close>

text \<open>
  The session of \<open>lsid\<close> is the object \<open>r\<close>, in the transaction state \<open>state\<close>, pinned as given.
\<close>

definition session_is ::
    "SessionManager \<Rightarrow> bytes \<Rightarrow> session_ref \<Rightarrow> TransactionState \<Rightarrow> server_ref option \<Rightarrow> conn_ref option \<Rightarrow> bool" where
  "session_is sm lsid r state server conn \<longleftrightarrow>
     sm_sessions sm (base64_encode lsid) = Some r \<and>
     (\<exists>x. sm_heap sm r = Some x \<and> S_State x = SessionStateActive \<and> S_TransactionState x = state
        \<and> PinnedServer x = server \<and> PinnedConnection x = conn)"

lemma session_is_pins:
  assumes "session_is sm lsid r state server conn"
  shows "GetPinnedServer r sm = (if state = TransactionStateInProgress then server else None)"
    and "pinned_conn (Some r) sm =
      (if state \<in> {TransactionStateInProgress, TransactionStateCommitted, TransactionStateAborted} then conn else None)"
    and "IsTransactionActive r sm \<longleftrightarrow> state = TransactionStateInProgress"
    and "S_TransactionState (session_at sm r) = state" and "S_State (session_at sm r) = SessionStateActive"
  using assms by (auto simp: session_is_def GetPinnedServer_def pinned_conn_def GetPinnedConnection_def session_at_def
      IsTransactionActive_def Let_def)

lemma session_is_update:
  assumes "session_is sm lsid r state server conn"
    and "\<And>x. S_State x = SessionStateActive \<Longrightarrow> S_TransactionState x = state \<Longrightarrow> PinnedServer x = server \<Longrightarrow> PinnedConnection x = conn \<Longrightarrow>
      S_State (f x) = SessionStateActive \<and> S_TransactionState (f x) = state' \<and> PinnedServer (f x) = server' \<and> PinnedConnection (f x) = conn'"
  shows "session_is (update_session r f sm) lsid r state' server' conn'"
  using assms by (auto simp: session_is_def update_session_def)

lemma session_is_transitions:
  assumes "session_is sm lsid r state server conn"
  shows "session_is (UnpinTransaction r sm) lsid r state None None"
    and "session_is (ResetTransactionState r sm) lsid r TransactionStateNone None None"
  using assms by (auto simp: UnpinTransaction_def ResetTransactionState_def intro!: session_is_update)

lemma find_session_known:
  assumes "session_is (fst (rt_sm st)) (LsID td) r state server conn" and "rq_details rq = Some td"
  obtains st' where "find_session api da rq st = (Some r, st')" "session_is (fst (rt_sm st')) (LsID td) r state server conn"
    "rt_trace st' = rt_trace st"
proof -
  obtain sm dc where sm: "rt_sm st = (sm, dc)" by fastforce
  with assms(1) have s: "session_is sm (LsID td) r state server conn" by simp
  then have "sm_sessions sm (base64_encode (LsID td)) = Some r" "S_State (session_at sm r) \<noteq> SessionStateEnded"
    using session_is_pins(5) [OF s] by (auto simp: session_is_def)
  then have g: "GetSession api (rt_now da st) (LsID td) (rt_sm st) =
      (Some r, (update_session r (\<lambda>x. x\<lparr>LastActivity := rt_now da st\<rparr>) sm, dc))"
    by (simp add: GetSession_def sm Let_def)
  have "session_is (update_session r (\<lambda>x. x\<lparr>LastActivity := rt_now da st\<rparr>) sm) (LsID td) r state server conn"
    by (rule session_is_update [OF s]) simp
  with assms(2) g show ?thesis
    by (intro that [of "st\<lparr>rt_sm := (update_session r (\<lambda>x. x\<lparr>LastActivity := rt_now da st\<rparr>) sm, dc)\<rparr>"])
      (auto simp: find_session_def)
qed

text \<open>On a pinned session an attempt consists of the transaction control and the exchange.\<close>

lemma pinned_attempt:
  assumes "session_is (fst (rt_sm st)) lsid r TransactionStateInProgress (Some server) (Some conn)"
  shows "RoundTrip_attempt w api da attempt rq (Some r) ds st =
    (case transaction_control api da rq (Some r) server conn st of
       (Inl err, st) \<Rightarrow> (Done (Inl err), ds, st)
     | (Inr ca, st) \<Rightarrow>
         let (res, st) = attempt_exchange w api da attempt rq server conn st
         in (res, DeferClose conn ca (Some r) # (if ca then DeferUnpin r # ds else ds), st))"
  using session_is_pins(1,2) [OF assms]
  by (simp add: RoundTrip_attempt_def attempt_server_def checkoutConnection_def pinned_conn_def Let_def
      split: sum.split prod.split)

lemma control_plain:
  assumes "rq_details rq = Some td" and "\<not> IsStartTransaction td"
    and "rq_command rq \<notin> {Command.CommitTransaction, Command.AbortTransaction, EndSessions}"
  shows "transaction_control api da rq (Some r) server conn st = (Inr False, st)"
  using assms by (simp add: transaction_control_def)

lemma control_end:
  assumes "rq_details rq = Some td" and "\<not> IsStartTransaction td"
    and "rq_command rq \<in> {Command.CommitTransaction, Command.AbortTransaction}"
    and "session_is (fst (rt_sm st)) lsid r state server conn"
  shows "state = TransactionStateInProgress \<Longrightarrow> \<exists>st' state'. transaction_control api da rq (Some r) s c st = (Inr True, st')
      \<and> rt_trace st' = rt_trace st \<and> state' \<in> {TransactionStateCommitted, TransactionStateAborted}
      \<and> session_is (fst (rt_sm st')) lsid r state' server conn"
    and "state \<noteq> TransactionStateInProgress \<Longrightarrow> \<exists>e. transaction_control api da rq (Some r) s c st = (Inl e, st)"
proof -
  note p = session_is_pins(4) [OF assms(4)]
  show "\<exists>e. transaction_control api da rq (Some r) s c st = (Inl e, st)" if "state \<noteq> TransactionStateInProgress"
    using assms(1-3) p that
    by (auto simp: transaction_control_def Sessions.CommitTransaction_def sm_AbortTransaction_def)
  assume "state = TransactionStateInProgress"
  then have upd: "session_is (update_session r (\<lambda>s. s\<lparr>S_TransactionState := t, LastActivity := now\<rparr>) (fst (rt_sm st))) lsid r t server conn"
    for now t by (intro session_is_update [OF assms(4)]) simp
  show "\<exists>st' state'. transaction_control api da rq (Some r) s c st = (Inr True, st')
      \<and> rt_trace st' = rt_trace st \<and> state' \<in> {TransactionStateCommitted, TransactionStateAborted}
      \<and> session_is (fst (rt_sm st')) lsid r state' server conn"
    using assms(1-3) p \<open>state = TransactionStateInProgress\<close> upd [of _ TransactionStateCommitted] upd [of _ TransactionStateAborted]
    by (cases "rq_command rq = Command.CommitTransaction")
      (auto simp: transaction_control_def Sessions.CommitTransaction_def sm_AbortTransaction_def)
qed

section \<open>An example\<close>

text \<open>
  Documents of one byte, all of the session \<open>[7]\<close>: \<open>[1]\<close> starts a transaction, \<open>[2]\<close> commits it, and
  others are commands inside it. The driver has one server, whose connections accept every
  message and fail to answer; the messages are unacknowledged or not by their flags.
\<close>

definition example_Lookup :: "document \<Rightarrow> string list \<Rightarrow> bson_value" where
  "example_Lookup doc path =
     (if path = [''lsid'', ''id''] then VBinary 4 [7]
      else if path = [''txnNumber''] then VInt64 1
      else if path = [''autocommit''] then VBoolean False
      else if path = [''startTransaction''] then VBoolean (doc = [1])
      else if path = [''commitTransaction''] \<and> doc = [2] then VInt32 1
      else VMissing)"

definition example_wire :: wire where
  "example_wire = std_wire\<lparr>Lookup := example_Lookup\<rparr>"

definition example_op :: "byte \<Rightarrow> bool \<Rightarrow> Operation" where
  "example_op b unack = Op_Msg \<lparr>m_reqID = 1, m_flags = (if unack then 2 else 0), m_sections = [opMsgSectionSingle [b]], m_checksum = 0\<rparr>"

definition example_driver :: "unit driver_api" where
  "example_driver = \<lparr>drv_Error = (\<lambda>_. ''error''), drv_NodeIsRecovering = (\<lambda>_. False), drv_NotPrimary = (\<lambda>_. False),
     drv_NetworkError = (\<lambda>_. True), drv_NetworkErrorLabel = ''NetworkError'', drv_now = (\<lambda>_. 0), drv_Sleep = (\<lambda>_ d. d),
     drv_Connect = (\<lambda>_ d. (None, d)), drv_Ping = (\<lambda>d. (None, d)), drv_Disconnect = (\<lambda>d. (None, d)), drv_Cancel = (\<lambda>d. d),
     drv_SelectServer = (\<lambda>d. (Inr 5, d)), drv_Connection = (\<lambda>_ d. (Inr 9, d)), drv_ErrorProcessor = (\<lambda>_. True),
     drv_Write = (\<lambda>_ _ d. (None, d)), drv_Read = (\<lambda>_ d. (Inl (ErrorString ''closed''), d)),
     drv_ProcessError = (\<lambda>_ _ _ d. d), drv_Close = (\<lambda>_ d. (None, d))\<rparr>"

definition example_sm :: "TransactionState \<Rightarrow> server_ref option \<Rightarrow> conn_ref option \<Rightarrow> SessionManager" where
  "example_sm state server conn =
     \<lparr>sm_sessions = [base64_encode [7] \<mapsto> 0],
      sm_heap = [0 \<mapsto> \<lparr>S_ID = base64_encode [7], S_LsID = [7], ClientID = ''unknown'', S_State = SessionStateActive, CreatedAt = 0,
                  LastActivity = 0, S_TransactionState = state, CurrentTxnNumber = 1, PinnedServer = server, PinnedConnection = conn\<rparr>],
      sm_next = 1\<rparr>"

definition example_state :: "SessionManager \<Rightarrow> (unit, unit) rt_state" where
  "example_state sm =
     \<lparr>rt_mongo = \<lparr>mg_client = True, mg_uri = ''mongodb://h/db'', mg_cursors = newCursorCache, mg_transactions = newTransactionCache,
                  mg_shared = False, mg_databaseName = ''db'', mg_poolStats = zero_pool_stats, mg_healthStats = Some zero_health\<rparr>,
      rt_sm = (sm, None), rt_drv = (), rt_trace = []\<rparr>"

definition example_td :: "bool \<Rightarrow> TransactionDetails" where
  "example_td start = \<lparr>LsID = [7], TxnNumber = 1, IsStartTransaction = start, Autocommit = False\<rparr>"

lemma example_methods:
  "om_TransactionDetails (methods example_wire (example_op b unack)) = Some (example_td (b = 1))"
  "fst (om_CommandAndCollection (methods example_wire (example_op b unack))) = (if b = 2 then Command.CommitTransaction else Unknown)"
  by (simp_all add: example_wire_def example_op_def opMsg_methods_def example_Lookup_def example_td_def
      doc_CommandAndCollection_def collectionCommands_def int32Commands_def int64Commands_def arrayCommands_def)

lemma example_session:
  "session_is (fst (rt_sm (example_state (example_sm state server conn)))) (LsID (example_td start)) 0 state server conn"
  by (simp add: session_is_def example_state_def example_sm_def example_td_def)

lemma example_client [simp]: "mg_client (rt_mongo (example_state sm))" "rt_trace (example_state sm) = []"
  by (simp_all add: example_state_def)

lemma example_readers_consume: "readers_consume example_wire"
  using std_wire_consumes by (simp add: example_wire_def readers_consume_def)

lemma RoundTrip_total:
  assumes "readers_consume w"
  obtains res st' where "RoundTrip w api da wm op st = Some (res, st')"
proof (cases "mg_client (rt_mongo st)")
  case True
  obtain session st1 where f: "find_session api da (request_of w wm op) (checked da st) = (session, st1)" by fastforce
  obtain r ds st2 where "RoundTrip_loop w api da 0 (request_of w wm op) session [] st1 = Some (r, ds, st2)"
    using RoundTrip_loop_returns [OF Decode_total [OF assms]] by blast
  with True f show ?thesis by (intro that) (simp add: RoundTrip_def checked_def [symmetric] Let_def)
next
  case False
  then show ?thesis by (intro that) (simp add: RoundTrip_def)
qed

lemma example_request:
  "request_of example_wire wm (example_op b unack) =
     \<lparr>rq_wm = wm, rq_cursorID = 0, rq_command = (if b = 2 then Command.CommitTransaction else Unknown), rq_collection = [],
      rq_details = Some (example_td (b = 1)), rq_database = [], rq_unacknowledged = unack\<rparr>"
  using example_methods [of b unack]
  by (simp_all add: request_of_def Let_def) (simp_all add: example_op_def example_wire_def opMsg_methods_def example_Lookup_def
      MoreToCome_def doc_CommandAndCollection_def collectionCommands_def int32Commands_def int64Commands_def arrayCommands_def)

lemmas example_eval = RoundTrip_def example_request example_state_def example_sm_def example_driver_def example_td_def
  IsHealthy_def CheckHealth_def zero_health_def rt_now_def find_session_def GetSession_def session_at_def update_session_def
  RoundTrip_loop.simps RoundTrip_attempt_def attempt_server_def GetPinnedServer_def GetPinnedConnection_def selectServer_def
  transactionCache_peek_def newTransactionCache_def New_def Cache_peek_def cache_dc_def put_cache_dc_def dc_active_def
  checkoutConnection_def trace_def transaction_control_def Sessions.CommitTransaction_def StartTransaction_def
  attempt_exchange_def roundTrip_def Let_def IsTransactionActive_def

section \<open>Inside, at the end and outside of a transaction\<close>

lemma adds_session [simp]:
  "adds tr st st' \<Longrightarrow> session_is (fst (rt_sm st')) lsid r state server conn \<longleftrightarrow> session_is (fst (rt_sm st)) lsid r state server conn"
  by (simp add: adds_def)

lemma exchange_trace:
  assumes "attempt_exchange w api da attempt rq server conn st = (r, st')"
  obtains tr where "adds tr st st'" "opened tr = []" "closed_conns tr = []" "sent tr = [] \<or> sent tr = [(conn, rq_wm rq)]"
  using attempt_exchange_adds [OF assms] that by fastforce

lemma plain_loop:
  fixes st :: "('a, 'b) rt_state"
  assumes l: "RoundTrip_loop w api da 0 rq (Some r) [] st = Some (x, ds', st')"
    and s: "session_is (fst (rt_sm st)) lsid r TransactionStateInProgress (Some server) (Some conn)"
    and rq: "rq_details rq = Some td" "\<not> IsStartTransaction td"
      "rq_command rq \<notin> {Command.CommitTransaction, Command.AbortTransaction, EndSessions}"
  shows "(\<exists>tr. rt_trace st' = rt_trace st @ tr \<and> opened tr = [] \<and> closed_conns tr = [] \<and> fst ` set (sent tr) \<subseteq> {conn})
    \<and> session_is (fst (rt_sm st')) lsid r TransactionStateInProgress (Some server) (Some conn)
    \<and> list_all (\<lambda>d. d = DeferClose conn False (Some r)) ds'"
proof (rule RoundTrip_loop_inv [OF l])
  fix attempt ds ds' res and st1 st' :: "('a, 'b) rt_state"
  assume "(\<exists>tr. rt_trace st1 = rt_trace st @ tr \<and> opened tr = [] \<and> closed_conns tr = [] \<and> fst ` set (sent tr) \<subseteq> {conn})
    \<and> session_is (fst (rt_sm st1)) lsid r TransactionStateInProgress (Some server) (Some conn)
    \<and> list_all (\<lambda>d. d = DeferClose conn False (Some r)) ds"
  then obtain tr where tr: "rt_trace st1 = rt_trace st @ tr" "opened tr = []" "closed_conns tr = []" "fst ` set (sent tr) \<subseteq> {conn}"
    and s1: "session_is (fst (rt_sm st1)) lsid r TransactionStateInProgress (Some server) (Some conn)"
    and ds: "list_all (\<lambda>d. d = DeferClose conn False (Some r)) ds" by blast
  assume "RoundTrip_attempt w api da attempt rq (Some r) ds st1 = (res, ds', st')"
  then have ds': "ds' = DeferClose conn False (Some r) # ds" and e: "attempt_exchange w api da attempt rq server conn st1 = (res, st')"
    by (simp_all add: pinned_attempt [OF s1] control_plain [OF rq] split: prod.splits)
  from e obtain tr' where "adds tr' st1 st'" "opened tr' = []" "closed_conns tr' = []"
      "sent tr' = [] \<or> sent tr' = [(conn, rq_wm rq)]" by (rule exchange_trace)
  with tr s1 ds ds' show "(\<exists>tr. rt_trace st' = rt_trace st @ tr \<and> opened tr = [] \<and> closed_conns tr = [] \<and> fst ` set (sent tr) \<subseteq> {conn})
    \<and> session_is (fst (rt_sm st')) lsid r TransactionStateInProgress (Some server) (Some conn)
    \<and> list_all (\<lambda>d. d = DeferClose conn False (Some r)) ds'"
    by (auto simp: adds_def intro!: exI [of _ "tr @ tr'"])
qed (use s in \<open>auto intro!: exI [of _ "[]"]\<close>)

lemma active_deferreds:
  assumes "list_all (\<lambda>d. d = DeferClose conn False (Some r)) ds" and "IsTransactionActive r (fst (rt_sm st))"
  shows "fold (run_deferred da) ds st = st"
  using assms by (induction ds) auto

text \<open>
  C12. Inside a transaction a round trip stays on the pinned connection: for a command that neither
  starts nor ends the transaction it writes to no other connection, with retries too, opens
  and closes none, and leaves the session in its transaction with the same server and
  connection pinned.
\<close>

theorem RoundTrip_stays_on_pinned_connection:
  assumes "session_is (fst (rt_sm st)) (LsID td) r TransactionStateInProgress (Some server) (Some conn)"
    and "om_TransactionDetails (methods w op) = Some td" and "\<not> IsStartTransaction td"
    and "fst (om_CommandAndCollection (methods w op)) \<notin> {Command.CommitTransaction, Command.AbortTransaction, EndSessions}"
    and "RoundTrip w api da wm op st = Some (res, st')"
  shows "(\<exists>tr. rt_trace st' = rt_trace st @ tr \<and> opened tr = [] \<and> closed_conns tr = [] \<and> fst ` set (sent tr) \<subseteq> {conn})
    \<and> session_is (fst (rt_sm st')) (LsID td) r TransactionStateInProgress (Some server) (Some conn)"
  using assms(5)
proof (cases rule: RoundTrip_cases)
  case closed
  with assms(1) show ?thesis by (auto intro!: exI [of _ "[]"])
next
  case (loop session st1 ds st2)
  have rq: "rq_details (request_of w wm op) = Some td"
      "rq_command (request_of w wm op) \<notin> {Command.CommitTransaction, Command.AbortTransaction, EndSessions}"
    using assms(2,4) by (simp_all add: request_of_def Let_def)
  obtain st0 where "find_session api da (request_of w wm op) (checked da st) = (Some r, st0)"
      "session_is (fst (rt_sm st0)) (LsID td) r TransactionStateInProgress (Some server) (Some conn)"
    by (rule find_session_known [OF _ rq(1), of "checked da st"]) (use assms(1) in auto)
  with loop(2) have se: "session = Some r"
    and s1: "session_is (fst (rt_sm st1)) (LsID td) r TransactionStateInProgress (Some server) (Some conn)" by auto
  note p = plain_loop [OF loop(3) [unfolded se] s1 rq(1) assms(3) rq(2)]
  then have s2: "session_is (fst (rt_sm st2)) (LsID td) r TransactionStateInProgress (Some server) (Some conn)" by blast
  have "fold (run_deferred da) ds st2 = st2"
    using active_deferreds p session_is_pins(3) [OF s2] by blast
  with p loop(4,5) show ?thesis by simp
qed

theorem RoundTrip_stays_on_pinned_connection_witness:
  "\<exists>api res st'. RoundTrip example_wire (api :: unit group_api) example_driver [] (example_op 3 False)
      (example_state (example_sm TransactionStateInProgress (Some 5) (Some 8))) = Some (res, st')
    \<and> (\<exists>tr. rt_trace st' = tr \<and> opened tr = [] \<and> closed_conns tr = [] \<and> fst ` set (sent tr) \<subseteq> {8})
    \<and> session_is (fst (rt_sm st')) [7] 0 TransactionStateInProgress (Some 5) (Some 8)"
proof -
  fix api :: "unit group_api"
  let ?st = "example_state (example_sm TransactionStateInProgress (Some 5) (Some 8))"
  obtain res st' where r: "RoundTrip example_wire api example_driver [] (example_op 3 False) ?st = Some (res, st')"
    by (rule RoundTrip_total [OF example_readers_consume])
  show ?thesis
    using RoundTrip_stays_on_pinned_connection [OF example_session example_methods(1) _ _ r] r
    by (auto simp: example_methods example_td_def)
qed

text \<open>The state of the loop after the command that ends the transaction was accepted.\<close>

definition ended ::
    "rt_event list \<Rightarrow> bytes \<Rightarrow> session_ref \<Rightarrow> server_ref \<Rightarrow> conn_ref \<Rightarrow> bytes \<Rightarrow> deferred list \<Rightarrow> ('g, 'd) rt_state \<Rightarrow> bool" where
  "ended tr0 lsid r server conn wm ds st \<longleftrightarrow>
     ds = [DeferClose conn True (Some r), DeferUnpin r] \<and>
     (\<exists>state \<in> {TransactionStateCommitted, TransactionStateAborted}. session_is (fst (rt_sm st)) lsid r state (Some server) (Some conn)) \<and>
     (\<exists>tr. rt_trace st = tr0 @ tr \<and> opened tr = [] \<and> closed_conns tr = [] \<and> (sent tr = [] \<or> sent tr = [(conn, wm)]))"

lemma ended_attempt:
  assumes "ended tr0 lsid r server conn wm ds st" and a: "RoundTrip_attempt w api da attempt rq (Some r) ds st = (res, ds', st')"
    and rq: "rq_details rq = Some td" "\<not> IsStartTransaction td" "rq_command rq \<in> {Command.CommitTransaction, Command.AbortTransaction}"
  shows "ended tr0 lsid r server conn wm ds' st'"
proof -
  from assms(1) obtain state tr where ds: "ds = [DeferClose conn True (Some r), DeferUnpin r]"
    and state: "state \<in> {TransactionStateCommitted, TransactionStateAborted}"
    and s: "session_is (fst (rt_sm st)) lsid r state (Some server) (Some conn)"
    and tr: "rt_trace st = tr0 @ tr" "opened tr = []" "closed_conns tr = []" "sent tr = [] \<or> sent tr = [(conn, wm)]"
    unfolding ended_def by blast
  have no: "state \<noteq> TransactionStateInProgress" using state by auto
  have pc: "pinned_conn (Some r) (fst (rt_sm st)) = Some conn" using session_is_pins(2) [OF s] state by auto
  from a show ?thesis
  proof (cases rule: attempt_cases)
    case stopped
    with ds state s tr show ?thesis unfolding ended_def
      by (intro conjI bexI [of _ state] exI [of _ "tr @ waits attempt res"]) (auto simp: adds_def)
  next
    case (refused server' conn' st1 e tr')
    then have "adds [] st st1" using pc by simp
    then have s1: "session_is (fst (rt_sm st1)) lsid r state (Some server) (Some conn)" "rt_trace st1 = rt_trace st"
      using s by (simp_all add: adds_def)
    have "st' = st1" using refused(2) control_end(2) [OF rq s1(1) no, of api da server' conn'] by auto
    with refused ds state s1 tr show ?thesis unfolding ended_def
      by (intro conjI bexI [of _ state] exI [of _ tr]) auto
  next
    case (exchanged server' conn' st1 st2 ca tr')
    then have "session_is (fst (rt_sm st1)) lsid r state (Some server) (Some conn)" using s by simp
    from control_end(2) [OF rq this no, of api da server' conn'] exchanged(2) show ?thesis by auto
  qed
qed

lemma first_ending_attempt:
  assumes s: "session_is (fst (rt_sm st)) lsid r TransactionStateInProgress (Some server) (Some conn)"
    and a: "RoundTrip_attempt w api da attempt rq (Some r) [] st = (res, ds', st')"
    and rq: "rq_details rq = Some td" "\<not> IsStartTransaction td" "rq_command rq \<in> {Command.CommitTransaction, Command.AbortTransaction}"
  shows "ended (rt_trace st) lsid r server conn (rq_wm rq) ds' st'"
proof -
  obtain st1 state where c: "transaction_control api da rq (Some r) server conn st = (Inr True, st1)"
      "rt_trace st1 = rt_trace st" "state \<in> {TransactionStateCommitted, TransactionStateAborted}"
      "session_is (fst (rt_sm st1)) lsid r state (Some server) (Some conn)"
    using control_end(1) [OF rq s] by blast
  then have ds': "ds' = [DeferClose conn True (Some r), DeferUnpin r]" and e: "attempt_exchange w api da attempt rq server conn st1 = (res, st')"
    using a by (simp_all add: pinned_attempt [OF s] split: prod.splits)
  from e obtain tr where "adds tr st1 st'" "opened tr = []" "closed_conns tr = []" "sent tr = [] \<or> sent tr = [(conn, rq_wm rq)]"
    by (rule exchange_trace)
  with c ds' show ?thesis unfolding ended_def
    by (intro conjI bexI [of _ state] exI [of _ tr]) (auto simp: adds_def)
qed

lemma ending_loop:
  fixes st :: "('a, 'b) rt_state"
  assumes l: "RoundTrip_loop w api da 0 rq (Some r) [] st = Some (x, ds', st')"
    and s: "session_is (fst (rt_sm st)) lsid r TransactionStateInProgress (Some server) (Some conn)"
    and rq: "rq_details rq = Some td" "\<not> IsStartTransaction td" "rq_command rq \<in> {Command.CommitTransaction, Command.AbortTransaction}"
  shows "ended (rt_trace st) lsid r server conn (rq_wm rq) ds' st'"
proof (rule RoundTrip_loop_rule [OF l, where
      I = "\<lambda>attempt ds st'. if attempt = 0 then ds = [] \<and> st' = st else ended (rt_trace st) lsid r server conn (rq_wm rq) ds st'"])
qed (use s in \<open>auto split: if_splits intro: ended_attempt [OF _ _ rq] first_ending_attempt [OF s _ rq]\<close>)

text \<open>
  C10. Committing or aborting always releases the transaction: whatever the server answers and
  whichever call fails, the command is written at most once, on the pinned connection, this
  connection is closed exactly once and no other is opened, and the session is afterwards
  without a transaction and unpinned.
\<close>

theorem RoundTrip_ends_transaction:
  assumes "session_is (fst (rt_sm st)) (LsID td) r TransactionStateInProgress (Some server) (Some conn)"
    and "om_TransactionDetails (methods w op) = Some td" and "\<not> IsStartTransaction td"
    and "fst (om_CommandAndCollection (methods w op)) \<in> {Command.CommitTransaction, Command.AbortTransaction}"
    and "mg_client (rt_mongo st)" and "RoundTrip w api da wm op st = Some (res, st')"
  shows "(\<exists>tr. rt_trace st' = rt_trace st @ tr \<and> opened tr = [] \<and> closed_conns tr = [conn] \<and> (sent tr = [] \<or> sent tr = [(conn, wm)]))
    \<and> session_is (fst (rt_sm st')) (LsID td) r TransactionStateNone None None"
  using assms(6)
proof (cases rule: RoundTrip_cases)
  case closed
  with assms(5) show ?thesis by simp
next
  case (loop session st1 ds st2)
  have rq: "rq_details (request_of w wm op) = Some td" "rq_wm (request_of w wm op) = wm"
      "rq_command (request_of w wm op) \<in> {Command.CommitTransaction, Command.AbortTransaction}"
    using assms(2,4) by (simp_all add: request_of_def Let_def)
  obtain st0 where "find_session api da (request_of w wm op) (checked da st) = (Some r, st0)"
      "session_is (fst (rt_sm st0)) (LsID td) r TransactionStateInProgress (Some server) (Some conn)"
    by (rule find_session_known [OF _ rq(1), of "checked da st"]) (use assms(1) in auto)
  with loop(2) have se: "session = Some r"
    and s1: "session_is (fst (rt_sm st1)) (LsID td) r TransactionStateInProgress (Some server) (Some conn)" by auto
  from ending_loop [OF loop(3) [unfolded se] s1 rq(1) assms(3) rq(3)] obtain state tr
    where ds: "ds = [DeferClose conn True (Some r), DeferUnpin r]"
      and s2: "session_is (fst (rt_sm st2)) (LsID td) r state (Some server) (Some conn)"
      and tr: "rt_trace st2 = rt_trace st1 @ tr" "opened tr = []" "closed_conns tr = []" "sent tr = [] \<or> sent tr = [(conn, wm)]"
    unfolding ended_def rq(2) by blast
  have "st' = with_sm (UnpinTransaction r) (with_sm (ResetTransactionState r) (close_conn da conn st2))"
    using loop(4) ds by simp
  then have "session_is (fst (rt_sm st')) (LsID td) r TransactionStateNone None None" "rt_trace st' = rt_trace st2 @ [Closed conn]"
    using session_is_transitions(1) [OF session_is_transitions(2) [OF s2]] by (simp_all add: with_sm_def close_conn_def trace_def)
  with tr loop(5) show ?thesis by (intro conjI exI [of _ "tr @ [Closed conn]"]) auto
qed

theorem RoundTrip_ends_transaction_witness:
  "\<exists>api res st'. RoundTrip example_wire (api :: unit group_api) example_driver [] (example_op 2 False)
      (example_state (example_sm TransactionStateInProgress (Some 5) (Some 8))) = Some (res, st')
    \<and> closed_conns (rt_trace st') = [8] \<and> session_is (fst (rt_sm st')) [7] 0 TransactionStateNone None None"
proof -
  fix api :: "unit group_api"
  let ?st = "example_state (example_sm TransactionStateInProgress (Some 5) (Some 8))"
  obtain res st' where r: "RoundTrip example_wire api example_driver [] (example_op 2 False) ?st = Some (res, st')"
    by (rule RoundTrip_total [OF example_readers_consume])
  show ?thesis
    using RoundTrip_ends_transaction [OF example_session example_methods(1) _ _ _ r] r
    by (auto simp: example_methods example_td_def)
qed

text \<open>The state of the loop while the session manager refuses the command.\<close>

definition unsent :: "rt_event list \<Rightarrow> bytes \<Rightarrow> session_ref \<Rightarrow> deferred list \<Rightarrow> ('g, 'd) rt_state \<Rightarrow> bool" where
  "unsent tr0 lsid r ds st \<longleftrightarrow>
     ds = [] \<and> session_is (fst (rt_sm st)) lsid r TransactionStateNone None None
     \<and> (\<exists>tr. rt_trace st = tr0 @ tr \<and> closed_conns tr = [] \<and> sent tr = [])"

lemma unsent_attempt:
  assumes I: "unsent tr0 lsid r ds st" and a: "RoundTrip_attempt w api da attempt rq (Some r) ds st = (res, ds', st')"
    and rq: "rq_details rq = Some td" "\<not> IsStartTransaction td" "rq_command rq \<in> {Command.CommitTransaction, Command.AbortTransaction}"
  shows "unsent tr0 lsid r ds' st' \<and> (res = Again \<or> (\<exists>e. res = Done (Inl e)))"
proof -
  from I obtain tr where ds: "ds = []" and s: "session_is (fst (rt_sm st)) lsid r TransactionStateNone None None"
    and tr: "rt_trace st = tr0 @ tr" "closed_conns tr = []" "sent tr = []" unfolding unsent_def by blast
  from a show ?thesis
  proof (cases rule: attempt_cases)
    case stopped
    with ds s tr show ?thesis by (auto simp: unsent_def adds_def intro!: exI [of _ "tr @ waits attempt res"])
  next
    case (refused server conn st1 e tr')
    then have s1: "session_is (fst (rt_sm st1)) lsid r TransactionStateNone None None" using s by simp
    have "st' = st1" using control_end(2) [OF rq s1, of api da server conn] refused(2) by auto
    with refused ds s1 tr show ?thesis by (auto simp: unsent_def adds_def intro!: exI [of _ "tr @ tr'"])
  next
    case (exchanged server conn st1 st2 ca tr')
    then have "session_is (fst (rt_sm st1)) lsid r TransactionStateNone None None" using s by simp
    from control_end(2) [OF rq this, of api da server conn] exchanged(2) show ?thesis by auto
  qed
qed

text \<open>
  A commit or abort without a transaction in progress, such as the repetition of a commit
  whose answer was lost, is refused without being sent, and the connection opened for it is
  neither closed nor pinned: it leaks.
\<close>

theorem RoundTrip_leaks_refused_connection:
  assumes "session_is (fst (rt_sm st)) (LsID td) r TransactionStateNone None None"
    and "om_TransactionDetails (methods w op) = Some td" and "\<not> IsStartTransaction td"
    and "fst (om_CommandAndCollection (methods w op)) \<in> {Command.CommitTransaction, Command.AbortTransaction}"
    and "RoundTrip w api da wm op st = Some (res, st')"
  shows "(\<exists>err. res = Inl err) \<and> session_is (fst (rt_sm st')) (LsID td) r TransactionStateNone None None
    \<and> (\<exists>tr. rt_trace st' = rt_trace st @ tr \<and> closed_conns tr = [] \<and> sent tr = [])"
  using assms(5)
proof (cases rule: RoundTrip_cases)
  case closed
  with assms(1) show ?thesis by (auto intro!: exI [of _ "[]"])
next
  case (loop session st1 ds st2)
  have rq: "rq_details (request_of w wm op) = Some td" "\<not> IsStartTransaction td"
      "rq_command (request_of w wm op) \<in> {Command.CommitTransaction, Command.AbortTransaction}"
    using assms(2-4) by (simp_all add: request_of_def Let_def)
  obtain st0 where "find_session api da (request_of w wm op) (checked da st) = (Some r, st0)"
      "session_is (fst (rt_sm st0)) (LsID td) r TransactionStateNone None None"
    by (rule find_session_known [OF _ rq(1), of "checked da st"]) (use assms(1) in auto)
  with loop(2) have se: "session = Some r" and s1: "session_is (fst (rt_sm st1)) (LsID td) r TransactionStateNone None None" by auto
  have "unsent (rt_trace st1) (LsID td) r ds st2 \<and> (\<exists>e. res = Inl e)"
  proof (rule RoundTrip_loop_rule [OF loop(3) [unfolded se], where I = "\<lambda>_. unsent (rt_trace st1) (LsID td) r"])
    show "unsent (rt_trace st1) (LsID td) r [] st1" using s1 by (auto simp: unsent_def intro!: exI [of _ "[]"])
  qed (use unsent_attempt [OF _ _ rq] in \<open>simp, blast+\<close>)
  then have "ds = []" "session_is (fst (rt_sm st2)) (LsID td) r TransactionStateNone None None" "\<exists>e. res = Inl e"
    "\<exists>tr. rt_trace st2 = rt_trace st1 @ tr \<and> closed_conns tr = [] \<and> sent tr = []"
    unfolding unsent_def by blast+
  with loop(4,5) show ?thesis by auto
qed

theorem RoundTrip_leaks_refused_connection_witness:
  "\<exists>api res st'. RoundTrip example_wire (api :: unit group_api) example_driver [] (example_op 2 False)
      (example_state (example_sm TransactionStateNone None None)) = Some (res, st')
    \<and> opened (rt_trace st') = [9] \<and> closed_conns (rt_trace st') = []
    \<and> session_is (fst (rt_sm st')) [7] 0 TransactionStateNone None None"
proof -
  fix api :: "unit group_api"
  let ?st = "example_state (example_sm TransactionStateNone None None)"
  obtain res st' where r: "RoundTrip example_wire api example_driver [] (example_op 2 False) ?st = Some (res, st')"
    by (rule RoundTrip_total [OF example_readers_consume])
  have "opened (rt_trace st') = [9]"
    using r by (auto simp: example_eval)
  then show ?thesis
    using RoundTrip_leaks_refused_connection [OF example_session example_methods(1) _ _ r] r
    by (auto simp: example_methods example_td_def)
qed

section \<open>Starting a transaction\<close>

lemma exchange_answer:
  assumes "attempt_exchange w api da attempt rq server conn st = (Done (Inr m), st')"
  shows "adds [Sent conn (rq_wm rq)] st st'"
  using assms by (auto simp: attempt_exchange_def retry_def Let_def split: if_splits prod.splits sum.splits option.splits
      dest: roundTrip_adds)

lemma control_start:
  assumes "rq_details rq = Some td" and "IsStartTransaction td"
    and "rq_command rq \<notin> {Command.CommitTransaction, Command.AbortTransaction, EndSessions}"
    and "session_is (fst (rt_sm st)) lsid r state server conn"
  shows "state = TransactionStateNone \<Longrightarrow> \<exists>st'. transaction_control api da rq (Some r) s c st = (Inr False, st')
      \<and> rt_trace st' = rt_trace st \<and> session_is (fst (rt_sm st')) lsid r TransactionStateInProgress (Some s) (Some c)"
    and "state \<noteq> TransactionStateNone \<Longrightarrow> \<exists>e. transaction_control api da rq (Some r) s c st = (Inl e, st)"
proof -
  obtain sm dc where sm: "rt_sm st = (sm, dc)" by fastforce
  note p = session_is_pins(4,5) [OF assms(4) [unfolded sm]]
  show "\<exists>e. transaction_control api da rq (Some r) s c st = (Inl e, st)" if "state \<noteq> TransactionStateNone"
    using assms(1-3) p that by (simp add: transaction_control_def StartTransaction_def sm Let_def)
  assume n: "state = TransactionStateNone"
  have "session_is (update_session r (\<lambda>x. x\<lparr>CurrentTxnNumber := TxnNumber td, S_TransactionState := TransactionStateInProgress,
      PinnedServer := Some s, PinnedConnection := Some c, LastActivity := rt_now da st\<rparr>) sm) lsid r TransactionStateInProgress (Some s) (Some c)"
    using assms(4) sm by (intro session_is_update [of sm lsid r state server conn]) auto
  then show "\<exists>st'. transaction_control api da rq (Some r) s c st = (Inr False, st')
      \<and> rt_trace st' = rt_trace st \<and> session_is (fst (rt_sm st')) lsid r TransactionStateInProgress (Some s) (Some c)"
    using assms(1-3) p n by (simp add: transaction_control_def StartTransaction_def sm Let_def)
qed

text \<open>The loop before and after the session manager accepted the start, and what an answer then shows.\<close>

definition starting :: "rt_event list \<Rightarrow> bytes \<Rightarrow> session_ref \<Rightarrow> deferred list \<Rightarrow> ('g, 'd) rt_state \<Rightarrow> bool" where
  "starting tr0 lsid r ds st \<longleftrightarrow>
     ds = [] \<and> session_is (fst (rt_sm st)) lsid r TransactionStateNone None None
       \<and> (\<exists>tr. rt_trace st = tr0 @ tr \<and> opened tr = [] \<and> closed_conns tr = [] \<and> sent tr = [])
     \<or> (\<exists>server conn. session_is (fst (rt_sm st)) lsid r TransactionStateInProgress server conn)"

definition started :: "rt_event list \<Rightarrow> bytes \<Rightarrow> session_ref \<Rightarrow> bytes \<Rightarrow> deferred list \<Rightarrow> ('g, 'd) rt_state \<Rightarrow> bool" where
  "started tr0 lsid r wm ds st \<longleftrightarrow>
     (\<exists>server conn tr. ds = [DeferClose conn False (Some r)] \<and> rt_trace st = tr0 @ tr \<and> opened tr = [conn] \<and> closed_conns tr = []
        \<and> sent tr = [(conn, wm)] \<and> session_is (fst (rt_sm st)) lsid r TransactionStateInProgress (Some server) (Some conn))"

lemma starting_attempt:
  assumes I: "starting tr0 lsid r ds st" and a: "RoundTrip_attempt w api da attempt rq (Some r) ds st = (res, ds', st')"
    and rq: "rq_details rq = Some td" "IsStartTransaction td"
      "rq_command rq \<notin> {Command.CommitTransaction, Command.AbortTransaction, EndSessions}"
  shows "starting tr0 lsid r ds' st' \<and> (\<forall>m. res = Done (Inr m) \<longrightarrow> started tr0 lsid r (rq_wm rq) ds' st')"
proof -
  obtain state server conn where s: "session_is (fst (rt_sm st)) lsid r state server conn"
    and st: "state \<noteq> TransactionStateNone \<and> state = TransactionStateInProgress
      \<or> state = TransactionStateNone \<and> server = None \<and> conn = None \<and> ds = []
        \<and> (\<exists>tr. rt_trace st = tr0 @ tr \<and> opened tr = [] \<and> closed_conns tr = [] \<and> sent tr = [])"
    using I unfolding starting_def by blast
  from a show ?thesis
  proof (cases rule: attempt_cases)
    case stopped
    have "starting tr0 lsid r ds' st'"
    proof (cases "state = TransactionStateNone")
      case True
      with st obtain tr where "rt_trace st = tr0 @ tr" "opened tr = []" "closed_conns tr = []" "sent tr = []" by auto
      with True st stopped s show ?thesis unfolding starting_def
        by (intro disjI1 conjI exI [of _ "tr @ waits attempt res"]) (auto simp: adds_def)
    next
      case False
      with st stopped s show ?thesis unfolding starting_def by auto
    qed
    with stopped show ?thesis by auto
  next
    case (refused server' conn' st1 e tr')
    then have s1: "session_is (fst (rt_sm st1)) lsid r state server conn" using s by simp
    have no: "state \<noteq> TransactionStateNone" using refused(2) control_start(1) [OF rq s1, of api da server' conn'] by force
    then have "st' = st1" using refused(2) control_start(2) [OF rq s1 no, of api da server' conn'] by auto
    with refused s1 no st show ?thesis unfolding starting_def by auto
  next
    case (exchanged server' conn' st1 st2 ca tr')
    then have s1: "session_is (fst (rt_sm st1)) lsid r state server conn" using s by simp
    have n: "state = TransactionStateNone" using exchanged(2) control_start(2) [OF rq s1, of api da server' conn'] by force
    with exchanged(2) control_start(1) [OF rq s1 n, of api da server' conn']
    have c: "ca = False" "rt_trace st2 = rt_trace st1" "session_is (fst (rt_sm st2)) lsid r TransactionStateInProgress (Some server') (Some conn')"
      by auto
    obtain tr'' where e: "adds tr'' st2 st'" using exchange_trace [OF exchanged(4)] by blast
    have s': "session_is (fst (rt_sm st')) lsid r TransactionStateInProgress (Some server') (Some conn')" using c(3) e by simp
    obtain tr where tr: "rt_trace st = tr0 @ tr" "opened tr = []" "closed_conns tr = []" "sent tr = []" "ds = []" using st n by auto
    have "tr' = [Opened conn']" using exchanged(3) session_is_pins(2) [OF s] n by auto
    then have "started tr0 lsid r (rq_wm rq) ds' st'" if "res = Done (Inr m)" for m
      using exchange_answer [OF exchanged(4) [unfolded that]] exchanged(1,5) c s' tr unfolding started_def
      by (intro exI [of _ server'] exI [of _ conn'] exI [of _ "tr @ [Opened conn', Sent conn' (rq_wm rq)]"]) (auto simp: adds_def)
    with s' show ?thesis unfolding starting_def by blast
  qed
qed



theorem RoundTrip_returns_witness:
  "\<exists>api res st' tr. RoundTrip example_wire (api :: unit group_api) example_driver [1] (example_op 3 False)
      (example_state (example_sm TransactionStateNone None None)) = Some (res, st')
    \<and> rt_trace st' = tr \<and> length (sent tr) \<le> 4 \<and> snd ` set (sent tr) \<subseteq> {[1]} \<and> sum_list (slept tr) \<le> 700 * 1000000"
  using RoundTrip_returns [OF example_readers_consume, of _ example_driver "[1]" "example_op 3 False"
      "example_state (example_sm TransactionStateNone None None)"]
  by (auto intro!: exI)

theorem RoundTrip_closes_connections_witness:
  "\<exists>api res st'. RoundTrip std_wire (api :: unit group_api) example_driver [1] (example_op 3 True)
      (example_state (example_sm TransactionStateNone None None)) = Some (res, st')
    \<and> closed_conns (rt_trace st') = rev (opened (rt_trace st')) \<and> opened (rt_trace st') = [9]"
proof -
  fix api :: "unit group_api"
  let ?st = "example_state (example_sm TransactionStateNone None None)"
  have n: "om_TransactionDetails (methods std_wire (example_op 3 True)) = None"
    by (simp add: example_op_def opMsg_methods_def std_wire_def)
  obtain res st' where r: "RoundTrip std_wire api example_driver [1] (example_op 3 True) ?st = Some (res, st')"
    by (rule RoundTrip_total [OF std_wire_consumes])
  have rq: "request_of std_wire [1] (example_op 3 True) = \<lparr>rq_wm = [1], rq_cursorID = 0, rq_command = Unknown, rq_collection = [],
      rq_details = None, rq_database = [], rq_unacknowledged = True\<rparr>"
    by (simp add: request_of_def example_op_def opMsg_methods_def std_wire_def MoreToCome_def doc_CommandAndCollection_def
        collectionCommands_def int32Commands_def int64Commands_def arrayCommands_def)
  have "opened (rt_trace st') = [9]"
    using r by (auto simp: example_eval rq close_conn_def)
  with RoundTrip_closes_connections [OF n r] r show ?thesis
    by (intro exI [of _ api] exI [of _ res] exI [of _ st']) auto
qed

section \<open>The statistics of the driver's pool\<close>

definition pool_events :: "(time \<times> PoolEvent) list \<Rightarrow> mongo_PoolStats" where
  "pool_events es = fold (\<lambda>(now, e). poolMonitor_Event now e) es zero_pool_stats"

definition happened :: "PoolEvent \<Rightarrow> (time \<times> PoolEvent) list \<Rightarrow> int" where
  "happened e es = int (length (filter (\<lambda>(_, e'). e' = e) es))"

lemma pool_events_snoc [simp]: "pool_events (es @ [(now, e)]) = poolMonitor_Event now e (pool_events es)"
  by (simp add: pool_events_def)

lemma happened_snoc [simp]: "happened e (es @ [(now, e')]) = happened e es + (if e' = e then 1 else 0)"
  by (simp add: happened_def)

text \<open>At no point more events \<open>b\<close> than events \<open>a\<close> have happened.\<close>

definition paired :: "PoolEvent \<Rightarrow> PoolEvent \<Rightarrow> (time \<times> PoolEvent) list \<Rightarrow> bool" where
  "paired a b es \<longleftrightarrow> list_all (\<lambda>n. happened b (take n es) \<le> happened a (take n es)) [0..<Suc (length es)]"

lemma paired_snoc: "paired a b (es @ [x]) \<longleftrightarrow> paired a b es \<and> happened b (es @ [x]) \<le> happened a (es @ [x])"
  by (auto simp: paired_def list_all_iff less_Suc_eq)

text \<open>
  C32. The statistics follow the events of the driver's pool: the counts of checkouts and
  checkins are exact, no gauge is ever negative or below the difference of its events, and
  where no event closes or checks in more than was opened or checked out before, the
  gauges are exactly these differences.
\<close>

theorem pool_statistics:
  "activeConnections (pool_events es) \<ge> 0 \<and> totalConnections (pool_events es) \<ge> 0
    \<and> checkoutCount (pool_events es) = happened ConnectionCheckedOut es
    \<and> checkinCount (pool_events es) = happened ConnectionCheckedIn es
    \<and> checkoutFailures (pool_events es) = happened ConnectionCheckOutFailed es
    \<and> activeConnections (pool_events es) \<ge> happened ConnectionCheckedOut es - happened ConnectionCheckedIn es
    \<and> totalConnections (pool_events es) \<ge> happened ConnectionCreated es - happened ConnectionClosed es
    \<and> (paired ConnectionCheckedOut ConnectionCheckedIn es \<longrightarrow>
        activeConnections (pool_events es) = happened ConnectionCheckedOut es - happened ConnectionCheckedIn es)
    \<and> (paired ConnectionCreated ConnectionClosed es \<longrightarrow>
        totalConnections (pool_events es) = happened ConnectionCreated es - happened ConnectionClosed es)"
proof (induction es rule: rev_induct)
  case Nil
  then show ?case by (simp add: pool_events_def zero_pool_stats_def happened_def)
next
  case (snoc x es)
  obtain now e where x: "x = (now, e)" by fastforce
  show ?case
    using snoc.IH by (cases e) (auto simp: x paired_snoc poolMonitor_Event_def Let_def split: option.split)
qed

theorem pool_statistics_witness:
  "activeConnections (pool_events [(1, ConnectionCheckedOut), (2, ConnectionCheckedOut), (3, ConnectionCheckedIn)]) = 1"
  using pool_statistics [of "[(1, ConnectionCheckedOut), (2, ConnectionCheckedOut), (3, ConnectionCheckedIn)]"]
  by (simp add: happened_def paired_def upt_rec)

end
