(* ===== verification/Forwarder.thy ===== *)
theory Forwarder
  imports Sessions
begin

text \<open>
  The forwarding of requests to the instance that has the session,
  \<^verbatim>\<open>src/mongo/request_forwarder.go\<close>. The network is a parameter: its operations over a state of
  its own, which carries the clock. A \<^verbatim>\<open>*PodConnection\<close> is only used while it is the map's
  entry of its address, so the map holds the connections themselves. The locks and the log are
  left out; the map is consulted again under the write lock, as in the source.

  Where bytes go is said through two views of the network's state, the address each connection was
  dialled to and the writes made, with the laws \<open>net_laws\<close> that tie them to the operations. Shown here:
  every connection that the forwarder holds is to the address it is kept under, so that a request is
  written to the stored address of its session and nowhere else.
\<close>

section \<open>State\<close>

type_synonym net_conn = nat

record 'n net_api =
  net_now :: "'n \<Rightarrow> time"
  net_Dial :: "string \<Rightarrow> duration \<Rightarrow> 'n \<Rightarrow> (string + net_conn) \<times> 'n"
  net_SetKeepAlive :: "net_conn \<Rightarrow> duration \<Rightarrow> 'n \<Rightarrow> 'n"
  net_SetReadDeadline :: "net_conn \<Rightarrow> time option \<Rightarrow> 'n \<Rightarrow> 'n"
  net_Write :: "net_conn \<Rightarrow> bytes \<Rightarrow> 'n \<Rightarrow> string option \<times> 'n"
  net_Read :: "net_conn \<Rightarrow> nat \<Rightarrow> 'n \<Rightarrow> (string + bytes) \<times> 'n" \<comment> \<open>the size of the buffer\<close>

record PodConnection =
  podIP :: string
  podPort :: int
  pod_conn :: "net_conn option"
  lastUsed :: time
  pod_createdAt :: time
  requestCount :: int

record RequestForwarder =
  connections :: "string \<rightharpoonup> PodConnection"
  rf_config :: RequestForwarderConfig

type_synonym ('g, 'n) rf_state = "RequestForwarder \<times> 'g DistributedCache option \<times> 'n"

definition NewRequestForwarder :: "RequestForwarderConfig \<Rightarrow> RequestForwarder" where
  "NewRequestForwarder config = \<lparr>connections = Map.empty, rf_config = config\<rparr>"

definition pod_key :: "string \<Rightarrow> int \<Rightarrow> string" where
  "pod_key ip port = ip @ '':'' @ show_int port"

section \<open>Connections\<close>

definition isHealthy :: "'n net_api \<Rightarrow> PodConnection \<Rightarrow> 'n \<Rightarrow> bool \<times> 'n" where
  "isHealthy na pc n =
     (case pod_conn pc of
        None \<Rightarrow> (False, n)
      | Some c \<Rightarrow>
          let n = net_SetReadDeadline na c (Some (net_now na n + 1 * Second)) n;
              (r, n) = net_Read na c 1 n;
              n = net_SetReadDeadline na c None n
          in (isl r, n))"

definition createConnection ::
    "'n net_api \<Rightarrow> RequestForwarderConfig \<Rightarrow> string \<Rightarrow> int \<Rightarrow> 'n \<Rightarrow> (string + PodConnection) \<times> 'n" where
  "createConnection na config ip port n =
     (let address = pod_key ip port
      in case net_Dial na address (RF_ConnectionTimeout config) n of
           (Inl err, n) \<Rightarrow> (Inl (''failed to connect to '' @ address @ '': '' @ err), n)
         | (Inr c, n) \<Rightarrow>
             let n = (if RF_KeepAlive config then net_SetKeepAlive na c (RF_KeepAliveInterval config) n else n)
             in (Inr \<lparr>podIP = ip, podPort = port, pod_conn = Some c, lastUsed = net_now na n,
                      pod_createdAt = net_now na n, requestCount = 0\<rparr>, n))"

text \<open>The check of the map entry, which reads from the connection.\<close>

definition healthy_entry :: "'n net_api \<Rightarrow> string \<Rightarrow> RequestForwarder \<Rightarrow> 'n \<Rightarrow> PodConnection option \<times> 'n" where
  "healthy_entry na key rf n =
     (case connections rf key of
        None \<Rightarrow> (None, n)
      | Some pc \<Rightarrow> let (ok, n) = isHealthy na pc n in (if ok then Some pc else None, n))"

definition getPodConnection ::
    "'n net_api \<Rightarrow> string \<Rightarrow> int \<Rightarrow> RequestForwarder \<Rightarrow> 'n \<Rightarrow> (string + PodConnection) \<times> RequestForwarder \<times> 'n" where
  "getPodConnection na ip port rf n =
     (let key = pod_key ip port
      in case healthy_entry na key rf n of
           (Some pc, n) \<Rightarrow> (Inr pc, rf, n)
         | (None, n) \<Rightarrow>
             (case healthy_entry na key rf n of
                (Some pc, n) \<Rightarrow> (Inr pc, rf, n)
              | (None, n) \<Rightarrow>
                  (case createConnection na (rf_config rf) ip port n of
                     (Inl err, n) \<Rightarrow> (Inl err, rf, n)
                   | (Inr pc, n) \<Rightarrow> (Inr pc, rf\<lparr>connections := (connections rf)(key \<mapsto> pc)\<rparr>, n))))"

section \<open>Forwarding\<close>

definition hasLocalSession :: "'g DistributedCache option \<Rightarrow> string \<Rightarrow> bool" where
  "hasLocalSession dc sessionID = (if \<not> dc_active dc then False else False)"

definition getSessionLocation ::
    "'g group_api \<Rightarrow> time \<Rightarrow> string \<Rightarrow> 'g DistributedCache option \<Rightarrow> (string \<times> int) option \<times> 'g DistributedCache option" where
  "getSessionLocation api now sessionID dc =
     (if \<not> dc_active dc then (None, dc)
      else let (l, d) = GetSessionLocation api now sessionID (the dc) in (l, Some d))"

definition rf_StoreSessionLocation ::
    "'g group_api \<Rightarrow> time \<Rightarrow> string \<Rightarrow> string \<Rightarrow> int \<Rightarrow> 'g DistributedCache option \<Rightarrow> string option \<times> 'g DistributedCache option" where
  "rf_StoreSessionLocation api now sessionID ip port dc =
     (if \<not> dc_active dc then (None, dc)
      else let (err, d) = StoreSessionLocation api now sessionID ip port (the dc) in (err, Some d))"

definition forwardToPod ::
    "'n net_api \<Rightarrow> bytes \<Rightarrow> string \<Rightarrow> int \<Rightarrow> RequestForwarder \<Rightarrow> 'n \<Rightarrow> (string + bytes) \<times> RequestForwarder \<times> 'n" where
  "forwardToPod na request ip port rf n =
     (case getPodConnection na ip port rf n of
        (Inl err, rf, n) \<Rightarrow> (Inl (''failed to get connection to pod '' @ pod_key ip port @ '': '' @ err), rf, n)
      | (Inr pc, rf, n) \<Rightarrow>
          let c = the (pod_conn pc)
          in case net_Write na c request n of
               (Some err, n) \<Rightarrow> (Inl (''failed to send request data: '' @ err), rf, n)
             | (None, n) \<Rightarrow>
                 let pc = pc\<lparr>lastUsed := net_now na n, requestCount := requestCount pc + 1\<rparr>;
                     rf = rf\<lparr>connections := (connections rf)(pod_key ip port \<mapsto> pc)\<rparr>
                 in case net_Read na c (1024 * 1024) n of
                      (Inl err, n) \<Rightarrow> (Inl (''failed to read response data: '' @ err), rf, n)
                    | (Inr response, n) \<Rightarrow> (Inr response, rf, n))"

text \<open>\<open>Inr None\<close> tells the caller to process the request itself.\<close>

definition ForwardRequest ::
    "'g group_api \<Rightarrow> 'n net_api \<Rightarrow> string \<Rightarrow> bytes \<Rightarrow> ('g, 'n) rf_state \<Rightarrow> (string + bytes option) \<times> ('g, 'n) rf_state" where
  "ForwardRequest api na sessionID request st =
     (case st of (rf, dc, n) \<Rightarrow>
      if dc_active dc \<and> hasLocalSession dc sessionID then (Inr None, (rf, dc, n))
      else
        case getSessionLocation api (net_now na n) sessionID dc of
          (None, dc) \<Rightarrow> (Inr None, (rf, dc, n))
        | (Some (ip, port), dc) \<Rightarrow>
            let (r, rf, n) = forwardToPod na request ip port rf n
            in (map_sum id Some r, (rf, dc, n)))"

text \<open>
  What is reported of each connection, in the order in which the map is iterated. The health
  check reads from the connections here, too.
\<close>

record pod_stats =
  ps_pod :: string
  ps_created_at :: time
  ps_last_used :: time
  ps_request_count :: int
  ps_healthy :: bool

fun connection_details :: "'n net_api \<Rightarrow> (string \<times> PodConnection) list \<Rightarrow> 'n \<Rightarrow> pod_stats list \<times> 'n" where
  "connection_details na [] n = ([], n)"
| "connection_details na ((key, pc) # entries) n =
     (let (ok, n) = isHealthy na pc n;
          (rest, n) = connection_details na entries n
      in (\<lparr>ps_pod = key, ps_created_at = pod_createdAt pc, ps_last_used = lastUsed pc,
           ps_request_count = requestCount pc, ps_healthy = ok\<rparr> # rest, n))"

definition rf_GetStats ::
    "'n net_api \<Rightarrow> (string \<times> PodConnection) list \<Rightarrow> 'g DistributedCache option \<Rightarrow> 'n \<Rightarrow> (bool \<times> nat \<times> pod_stats list) \<times> 'n" where
  "rf_GetStats na entries dc n =
     (let (details, n) = connection_details na entries n in ((dc_active dc, length entries, details), n))"

section \<open>Where requests go\<close>

text \<open>
  The address a connection was dialled to, if it is one, and the writes so far with the address they
  went to. What the documentation of \<^verbatim>\<open>net\<close> says of them: dialling gives a new connection to the
  address, and nothing else makes connections or changes where they lead; a write that succeeds writes
  all bytes and one that fails writes some of them; nothing else writes.
\<close>

record 'n net_view =
  peer :: "'n \<Rightarrow> net_conn \<Rightarrow> string option"
  sent :: "'n \<Rightarrow> (string \<times> bytes) list"

definition same_view :: "'n net_view \<Rightarrow> 'n \<Rightarrow> 'n \<Rightarrow> bool" where
  "same_view v n n' \<longleftrightarrow> peer v n' = peer v n \<and> sent v n' = sent v n"

definition dial_law :: "'n net_api \<Rightarrow> 'n net_view \<Rightarrow> bool" where
  "dial_law na v \<longleftrightarrow>
     (\<forall>a d n err n'. net_Dial na a d n = (Inl err, n') \<longrightarrow> same_view v n n') \<and>
     (\<forall>a d n c n'. net_Dial na a d n = (Inr c, n') \<longrightarrow>
        peer v n c = None \<and> peer v n' = (peer v n)(c \<mapsto> a) \<and> sent v n' = sent v n)"

definition write_law :: "'n net_api \<Rightarrow> 'n net_view \<Rightarrow> bool" where
  "write_law na v \<longleftrightarrow>
     (\<forall>c b n a n'. peer v n c = Some a \<longrightarrow> net_Write na c b n = (None, n') \<longrightarrow>
        peer v n' = peer v n \<and> sent v n' = sent v n @ [(a, b)]) \<and>
     (\<forall>c b n a err n'. peer v n c = Some a \<longrightarrow> net_Write na c b n = (Some err, n') \<longrightarrow>
        peer v n' = peer v n \<and> (\<exists>k. sent v n' = sent v n @ [(a, take k b)]))"

definition net_laws :: "'n net_api \<Rightarrow> 'n net_view \<Rightarrow> bool" where
  "net_laws na v \<longleftrightarrow> dial_law na v \<and> write_law na v \<and>
     (\<forall>c d n. same_view v n (net_SetKeepAlive na c d n)) \<and>
     (\<forall>c t n. same_view v n (net_SetReadDeadline na c t n)) \<and>
     (\<forall>c k n. same_view v n (snd (net_Read na c k n)))"

lemma same_view_trans: "same_view v n n' \<Longrightarrow> same_view v n' n'' \<Longrightarrow> same_view v n n''"
  by (simp add: same_view_def)

lemma net_laws_dial:
  assumes "net_laws na v"
  shows "net_Dial na a d n = (Inl err, n') \<Longrightarrow> same_view v n n'"
    and "net_Dial na a d n = (Inr c, n') \<Longrightarrow> peer v n c = None \<and> peer v n' = (peer v n)(c \<mapsto> a) \<and> sent v n' = sent v n"
  using assms unfolding net_laws_def dial_law_def by blast+

lemma net_laws_write:
  assumes "net_laws na v" and "peer v n c = Some a"
  shows "net_Write na c b n = (None, n') \<Longrightarrow> peer v n' = peer v n \<and> sent v n' = sent v n @ [(a, b)]"
    and "net_Write na c b n = (Some err, n') \<Longrightarrow> peer v n' = peer v n \<and> (\<exists>k. sent v n' = sent v n @ [(a, take k b)])"
  using assms unfolding net_laws_def write_law_def by blast+

lemma net_laws_view:
  assumes "net_laws na v"
  shows "same_view v n (net_SetKeepAlive na c e n)" and "same_view v n (net_SetReadDeadline na c t n)"
    and "same_view v n (snd (net_Read na c k n))"
  using assms unfolding net_laws_def by blast+

text \<open>Every connection is to the address it is kept under.\<close>

definition connected :: "'n net_view \<Rightarrow> RequestForwarder \<Rightarrow> 'n \<Rightarrow> bool" where
  "connected v rf n \<longleftrightarrow> (\<forall>key pc. connections rf key = Some pc \<longrightarrow> (\<exists>c. pod_conn pc = Some c \<and> peer v n c = Some key))"

lemma connected_mono:
  assumes "connected v rf n" and "peer v n \<subseteq>\<^sub>m peer v n'"
  shows "connected v rf n'"
  unfolding connected_def
proof (intro allI impI)
  fix key pc assume "connections rf key = Some pc"
  then obtain c where c: "pod_conn pc = Some c" "peer v n c = Some key" using assms(1) by (auto simp: connected_def)
  from map_le_SomeD [OF assms(2) c(2)] c(1) show "\<exists>c. pod_conn pc = Some c \<and> peer v n' c = Some key" by blast
qed

lemma isHealthy_view:
  assumes "net_laws na v"
  shows "same_view v n (snd (isHealthy na pc n))"
proof (cases "pod_conn pc")
  case (Some c)
  define n1 where "n1 = net_SetReadDeadline na c (Some (net_now na n + 1 * Second)) n"
  have "same_view v n n1" "same_view v n1 (snd (net_Read na c 1 n1))"
    "same_view v (snd (net_Read na c 1 n1)) (net_SetReadDeadline na c None (snd (net_Read na c 1 n1)))"
    using net_laws_view(2,3) [OF assms] by (simp_all add: n1_def)
  then have "same_view v n (net_SetReadDeadline na c None (snd (net_Read na c 1 n1)))" by (blast intro: same_view_trans)
  with Some show ?thesis by (simp add: isHealthy_def Let_def n1_def case_prod_unfold)
qed (simp add: isHealthy_def same_view_def)

lemma healthy_entry_view:
  assumes "net_laws na v" and "healthy_entry na key rf n = (r, n')"
  shows "same_view v n n'" and "r = Some pc \<Longrightarrow> connections rf key = Some pc"
  using assms(2) isHealthy_view [OF assms(1), of n]
  by (auto simp: healthy_entry_def same_view_def Let_def split: option.splits prod.splits if_splits) (metis snd_conv)+

lemma createConnection_peer:
  assumes "net_laws na v" and "createConnection na config ip port n = (r, n')"
  shows "sent v n' = sent v n \<and> peer v n \<subseteq>\<^sub>m peer v n' \<and>
    (\<forall>pc. r = Inr pc \<longrightarrow> (\<exists>c. pod_conn pc = Some c \<and> peer v n' c = Some (pod_key ip port)))"
proof (cases "net_Dial na (pod_key ip port) (RF_ConnectionTimeout config) n")
  case (Pair d n1)
  show ?thesis
  proof (cases d)
    case (Inl err)
    with Pair net_laws_dial(1) [OF assms(1), of "pod_key ip port" "RF_ConnectionTimeout config" n err n1] assms(2) show ?thesis
      by (auto simp: createConnection_def same_view_def)
  next
    case (Inr c)
    have dial: "peer v n c = None" "peer v n1 = (peer v n)(c \<mapsto> pod_key ip port)" "sent v n1 = sent v n"
      using net_laws_dial(2) [OF assms(1)] Pair Inr by blast+
    then have "peer v n \<subseteq>\<^sub>m peer v n1" by (auto simp: map_le_def)
    moreover have "same_view v n1 (net_SetKeepAlive na c (RF_KeepAliveInterval config) n1)" by (rule net_laws_view(1) [OF assms(1)])
    ultimately show ?thesis using Pair Inr assms(2) dial
      by (auto simp: createConnection_def same_view_def Let_def split: if_splits)
  qed
qed

lemma getPodConnection_peer:
  assumes laws: "net_laws na v" and conn: "connected v rf n" and get: "getPodConnection na ip port rf n = (r, rf', n')"
  shows "sent v n' = sent v n \<and> peer v n \<subseteq>\<^sub>m peer v n' \<and> connected v rf' n' \<and>
    (\<forall>pc. r = Inr pc \<longrightarrow> (\<exists>c. pod_conn pc = Some c \<and> peer v n' c = Some (pod_key ip port)))"
proof -
  let ?key = "pod_key ip port"
  obtain r1 n1 where h1: "healthy_entry na ?key rf n = (r1, n1)" by fastforce
  obtain r2 n2 where h2: "healthy_entry na ?key rf n1 = (r2, n2)" by fastforce
  have v1: "same_view v n n1" and v2: "same_view v n1 n2"
    using healthy_entry_view(1) [OF laws] h1 h2 by blast+
  have found: "\<exists>c. pod_conn pc = Some c \<and> peer v n c = Some ?key" if "connections rf ?key = Some pc" for pc
    using conn that by (simp add: connected_def)
  consider (first) pc where "r1 = Some pc" | (second) pc where "r1 = None" "r2 = Some pc" | (new) "r1 = None" "r2 = None"
    by (cases r1; cases r2) auto
  then show ?thesis
  proof cases
    case (first pc)
    then have "r = Inr pc" "rf' = rf" "n' = n1" using get h1 by (simp_all add: getPodConnection_def)
    with first v1 found [of pc] healthy_entry_view(2) [OF laws h1, of pc] conn show ?thesis
      by (auto simp: same_view_def connected_def)
  next
    case (second pc)
    then have "r = Inr pc" "rf' = rf" "n' = n2" using get h1 h2 by (simp_all add: getPodConnection_def)
    with second v1 v2 found [of pc] healthy_entry_view(2) [OF laws h2, of pc] conn show ?thesis
      by (auto simp: same_view_def connected_def)
  next
    case new
    obtain r3 n3 where c: "createConnection na (rf_config rf) ip port n2 = (r3, n3)" by fastforce
    have n3: "sent v n3 = sent v n" "peer v n \<subseteq>\<^sub>m peer v n3"
      "\<forall>pc. r3 = Inr pc \<longrightarrow> (\<exists>c. pod_conn pc = Some c \<and> peer v n3 c = Some ?key)"
      using createConnection_peer [OF laws c] v1 v2 by (auto simp: same_view_def)
    have old: "connected v rf n3" by (rule connected_mono [OF conn n3(2)])
    show ?thesis
    proof (cases r3)
      case (Inl err)
      then show ?thesis using get h1 h2 c new n3 old by (simp add: getPodConnection_def)
    next
      case (Inr pc)
      then have "r = Inr pc" "rf' = rf\<lparr>connections := (connections rf)(?key \<mapsto> pc)\<rparr>" "n' = n3"
        using get h1 h2 c new by (simp_all add: getPodConnection_def)
      with Inr n3 old show ?thesis by (auto simp: connected_def)
    qed
  qed
qed

text \<open>What forwarding to an address writes and returns.\<close>

definition forwarded :: "'n net_api \<Rightarrow> 'n net_view \<Rightarrow> bytes \<Rightarrow> string \<Rightarrow> 'n \<Rightarrow> string + bytes \<Rightarrow> 'n \<Rightarrow> bool" where
  "forwarded na v request key n r n' \<longleftrightarrow>
     (case r of
        Inr response \<Rightarrow>
          (\<exists>c n1. peer v n1 c = Some key \<and> sent v n1 = sent v n @ [(key, request)] \<and>
             net_Read na c (1024 * 1024) n1 = (Inr response, n')) \<and> sent v n' = sent v n @ [(key, request)]
      | Inl err \<Rightarrow>
          sent v n' = sent v n \<and> (\<exists>e. err = ''failed to get connection to pod '' @ key @ '': '' @ e) \<or>
          (\<exists>k. sent v n' = sent v n @ [(key, take k request)]))"

lemma forwardToPod_peer:
  assumes laws: "net_laws na v" and conn: "connected v rf n" and fwd: "forwardToPod na request ip port rf n = (r, rf', n')"
  shows "forwarded na v request (pod_key ip port) n r n' \<and> connected v rf' n'"
proof -
  let ?key = "pod_key ip port"
  obtain r1 rf1 n1 where get: "getPodConnection na ip port rf n = (r1, rf1, n1)" by (metis prod_cases3)
  note g = getPodConnection_peer [OF laws conn get]
  show ?thesis
  proof (cases r1)
    case (Inl err)
    then show ?thesis using fwd get g by (auto simp: forwardToPod_def forwarded_def)
  next
    case (Inr pc)
    then obtain c where c: "pod_conn pc = Some c" "peer v n1 c = Some ?key" using g by blast
    obtain w n2 where w: "net_Write na c request n1 = (w, n2)" by fastforce
    show ?thesis
    proof (cases w)
      case (Some err)
      then have "peer v n2 = peer v n1 \<and> (\<exists>k. sent v n2 = sent v n1 @ [(?key, take k request)])"
        using net_laws_write(2) [OF laws c(2)] w by blast
      with Some show ?thesis using fwd get Inr c w g
        by (auto simp: forwardToPod_def forwarded_def connected_def)
    next
      case None
      then have n2: "peer v n2 = peer v n1" "sent v n2 = sent v n @ [(?key, request)]"
        using net_laws_write(1) [OF laws c(2)] w g by auto
      obtain a n3 where a: "net_Read na c (1024 * 1024) n2 = (a, n3)" by fastforce
      have n3: "same_view v n2 n3" using net_laws_view(3) [OF laws, of n2 c "1024 * 1024"] a by simp
      define rf2 where "rf2 = rf1\<lparr>connections := (connections rf1)(?key \<mapsto> pc\<lparr>lastUsed := net_now na n2, requestCount := requestCount pc + 1\<rparr>)\<rparr>"
      have st: "rf' = rf2" "n' = n3" "r = map_sum (\<lambda>err. ''failed to read response data: '' @ err) id a"
        using fwd get Inr c w None a by (auto simp: forwardToPod_def rf2_def Let_def split: sum.splits)
      have "connected v rf2 n3" using g c n2 n3 by (auto simp: connected_def same_view_def rf2_def)
      moreover have "forwarded na v request ?key n r n3"
      proof (cases a)
        case (Inl err)
        have "sent v n3 = sent v n @ [(?key, take (length request) request)]" using n2 n3 by (simp add: same_view_def)
        then have "\<exists>k. sent v n3 = sent v n @ [(?key, take k request)]" ..
        with Inl st show ?thesis by (simp add: forwarded_def)
      next
        case (Inr response)
        have "peer v n2 c = Some ?key \<and> sent v n2 = sent v n @ [(?key, request)] \<and> net_Read na c (1024 * 1024) n2 = (Inr response, n3)"
          using c n2 a Inr by simp
        moreover have "sent v n3 = sent v n @ [(?key, request)]" using n2 n3 by (simp add: same_view_def)
        ultimately show ?thesis using st Inr unfolding forwarded_def by (simp only: map_sum.simps sum.case id_apply) blast
      qed
      ultimately show ?thesis using st by simp
    qed
  qed
qed

text \<open>
  The executions of a forwarder: requests are forwarded, locations stored, statistics asked for, and
  meanwhile the shared cache changes in any way and the network in any way that leaves the connections
  to where they lead.
\<close>

inductive Forwarder_run :: "'g group_api \<Rightarrow> 'n net_api \<Rightarrow> 'n net_view \<Rightarrow> ('g, 'n) rf_state \<Rightarrow> bool" for api na v where
  start: "Forwarder_run api na v (NewRequestForwarder config, dc, n)"
| forward: "Forwarder_run api na v st \<Longrightarrow> Forwarder_run api na v (snd (ForwardRequest api na sessionID request st))"
| store: "Forwarder_run api na v (rf, dc, n) \<Longrightarrow>
    Forwarder_run api na v (rf, snd (rf_StoreSessionLocation api now sessionID ip port dc), n)"
| stats: "Forwarder_run api na v (rf, dc, n) \<Longrightarrow> Forwarder_run api na v (rf, dc, snd (rf_GetStats na entries dc n))"
| environment: "Forwarder_run api na v (rf, dc, n) \<Longrightarrow> peer v n \<subseteq>\<^sub>m peer v n' \<Longrightarrow> Forwarder_run api na v (rf, dc', n')"

lemma connection_details_view: "net_laws na v \<Longrightarrow> same_view v n (snd (connection_details na entries n))"
proof (induction entries arbitrary: n)
  case (Cons e entries)
  obtain key pc where e: "e = (key, pc)" by (cases e)
  have "same_view v n (snd (isHealthy na pc n))" by (rule isHealthy_view [OF Cons.prems])
  moreover have "same_view v (snd (isHealthy na pc n)) (snd (connection_details na entries (snd (isHealthy na pc n))))"
    by (rule Cons.IH [OF Cons.prems])
  ultimately have "same_view v n (snd (connection_details na entries (snd (isHealthy na pc n))))" by (rule same_view_trans)
  then show ?case by (simp add: e Let_def case_prod_unfold)
qed (simp add: same_view_def)

lemma ForwardRequest_located:
  assumes "fst (getSessionLocation api (net_now na n) sessionID dc) = Some (ip, port)"
  obtains r rf' n' where "forwardToPod na request ip port rf n = (r, rf', n')"
    and "ForwardRequest api na sessionID request (rf, dc, n) =
      (map_sum id Some r, (rf', snd (getSessionLocation api (net_now na n) sessionID dc), n'))"
proof -
  obtain r rf' n' where f: "forwardToPod na request ip port rf n = (r, rf', n')" by (metis prod_cases3)
  obtain dc' where "getSessionLocation api (net_now na n) sessionID dc = (Some (ip, port), dc')"
    using assms by (metis prod.collapse)
  with f show thesis by (intro that [OF f]) (simp add: ForwardRequest_def hasLocalSession_def)
qed

lemma ForwardRequest_unlocated:
  assumes "fst (getSessionLocation api (net_now na n) sessionID dc) = None"
  shows "ForwardRequest api na sessionID request (rf, dc, n) =
    (Inr None, (rf, snd (getSessionLocation api (net_now na n) sessionID dc), n))"
  using assms by (cases "getSessionLocation api (net_now na n) sessionID dc") (simp add: ForwardRequest_def hasLocalSession_def)

lemma Forwarder_run_connected:
  assumes "Forwarder_run api na v st" and laws: "net_laws na v"
  shows "connected v (fst st) (snd (snd st))"
  using assms(1)
proof (induction rule: Forwarder_run.induct)
  case (start config dc n)
  show ?case by (simp add: connected_def NewRequestForwarder_def)
next
  case (forward st sessionID request)
  obtain rf dc n where st: "st = (rf, dc, n)" by (cases st)
  show ?case
  proof (cases "fst (getSessionLocation api (net_now na n) sessionID dc)")
    case None
    from ForwardRequest_unlocated [OF this] forward.IH st show ?thesis by simp
  next
    case (Some l)
    obtain ip port where l: "l = (ip, port)" by (cases l)
    obtain r rf' n' where f: "forwardToPod na request ip port rf n = (r, rf', n')"
      and q: "ForwardRequest api na sessionID request (rf, dc, n) =
        (map_sum id Some r, (rf', snd (getSessionLocation api (net_now na n) sessionID dc), n'))"
      using ForwardRequest_located [OF Some [unfolded l]] by blast
    from forwardToPod_peer [OF laws _ f] forward.IH st q show ?thesis by simp
  qed
next
  case (stats rf dc n entries)
  then have "same_view v n (snd (rf_GetStats na entries dc n))"
    using connection_details_view [OF laws] by (simp add: rf_GetStats_def Let_def case_prod_unfold)
  with stats.IH show ?case by (simp add: connected_def same_view_def)
next
  case (environment rf dc n n' dc')
  then show ?case using connected_mono by auto
qed simp

lemma getPodConnection_known:
  assumes "connections rf (pod_key ip port) = Some pc" and "pod_conn pc = Some c"
    and "\<And>k n. isl (fst (net_Read na c k n))"
  shows "\<exists>n'. getPodConnection na ip port rf n = (Inr pc, rf, n')"
  using assms by (simp add: getPodConnection_def healthy_entry_def isHealthy_def Let_def split: prod.splits)
    (metis fst_conv)

lemma active_location:
  assumes "set_get_law api" and "dc_active dc" and "sessionLocationGroup (the dc) = Some g"
    and "fst (g_Set api g sessionID (JLocation \<lparr>SL_SessionID = sessionID, PodIP = ip, PodPort = port, SL_CreatedAt = now,
           SL_LastActivity = now\<rparr>) (now + SessionExpiry (dc_config (the dc)))) = None"
    and "t \<le> now + SessionExpiry (dc_config (the dc))"
  shows "fst (getSessionLocation api t sessionID (snd (rf_StoreSessionLocation api now sessionID ip port dc))) = Some (ip, port)"
proof -
  obtain d where d: "dc = Some d" "IsEnabled d" using assms(2) by (cases dc) (auto simp: dc_active_def)
  let ?data = "JLocation \<lparr>SL_SessionID = sessionID, PodIP = ip, PodPort = port, SL_CreatedAt = now, SL_LastActivity = now\<rparr>"
  have "fst (g_Get api t (snd (g_Set api g sessionID ?data (now + SessionExpiry (dc_config d)))) sessionID) = Inr ?data"
    using assms d by (simp add: set_get_law_def)
  with d assms(3) show ?thesis
    by (auto simp: rf_StoreSessionLocation_def getSessionLocation_def StoreSessionLocation_def GetSessionLocation_def
        dc_active_def IsEnabled_def Let_def split: prod.splits)
qed

section \<open>An example\<close>

text \<open>A network whose connections fail.\<close>

definition dead_network :: "unit net_api" where
  "dead_network = \<lparr>net_now = (\<lambda>_. 0), net_Dial = (\<lambda>_ _ n. (Inr 1, n)), net_SetKeepAlive = (\<lambda>_ _ n. n),
     net_SetReadDeadline = (\<lambda>_ _ n. n), net_Write = (\<lambda>_ _ n. (Some ''broken pipe'', n)),
     net_Read = (\<lambda>_ _ n. (Inl ''EOF'', n))\<rparr>"

text \<open>A network that records the addresses dialled, as connections, and the writes, and answers each read.\<close>

definition recording_network :: "(string list \<times> (string \<times> bytes) list) net_api" where
  "recording_network = \<lparr>net_now = (\<lambda>_. 0), net_Dial = (\<lambda>a _ (ds, w). (Inr (length ds), (ds @ [a], w))), net_SetKeepAlive = (\<lambda>_ _ n. n),
     net_SetReadDeadline = (\<lambda>_ _ n. n),
     net_Write = (\<lambda>c b (ds, w). if c < length ds then (None, (ds, w @ [(ds ! c, b)])) else (Some ''closed'', (ds, w))),
     net_Read = (\<lambda>_ _ n. (Inr [42], n))\<rparr>"

definition recording_view :: "(string list \<times> (string \<times> bytes) list) net_view" where
  "recording_view = \<lparr>peer = (\<lambda>(ds, w) c. if c < length ds then Some (ds ! c) else None), sent = snd\<rparr>"

lemma recording_laws: "net_laws recording_network recording_view"
  by (auto simp: net_laws_def dial_law_def write_law_def same_view_def recording_network_def recording_view_def nth_append less_Suc_eq fun_eq_iff
      split: if_splits)

definition example_config :: RequestForwarderConfig where
  "example_config = \<lparr>RF_MaxConnections = 10, RF_ConnectionTimeout = Second, RF_KeepAlive = False, RF_KeepAliveInterval = 0\<rparr>"

definition example_pod :: PodConnection where
  "example_pod = \<lparr>podIP = ''p'', podPort = 1, pod_conn = Some 4, lastUsed = 0, pod_createdAt = 0, requestCount = 0\<rparr>"

definition example_forwarder :: RequestForwarder where
  "example_forwarder = \<lparr>connections = [pod_key ''p'' 1 \<mapsto> example_pod], rf_config = example_config\<rparr>"

section \<open>Properties of the forwarder\<close>



text \<open>
  A connection the other instance has closed is never replaced: reading from it fails, which
  the health check takes for healthy, so that each request to that instance is written to
  the dead connection and fails with its error, without a new connection being dialled.
\<close>

theorem closed_connection_is_reused:
  assumes "connections rf (pod_key ip port) = Some pc" and "pod_conn pc = Some c"
    and "\<And>k n. isl (fst (net_Read na c k n))" and "\<And>n. fst (net_Write na c request n) = Some err"
  shows "fst (forwardToPod na request ip port rf n) = Inl (''failed to send request data: '' @ err)
    \<and> fst (snd (forwardToPod na request ip port rf n)) = rf"
proof -
  obtain n' where "getPodConnection na ip port rf n = (Inr pc, rf, n')"
    using getPodConnection_known [OF assms(1-3)] by blast
  with assms(2) assms(4) [of n'] show ?thesis by (auto simp: forwardToPod_def Let_def split: prod.splits)
qed

theorem closed_connection_is_reused_witness:
  "fst (forwardToPod dead_network [1] ''p'' 1 example_forwarder ()) = Inl ''failed to send request data: broken pipe''
    \<and> fst (snd (forwardToPod dead_network [1] ''p'' 1 example_forwarder ())) = example_forwarder"
proof -
  have "connections example_forwarder (pod_key ''p'' 1) = Some example_pod" "pod_conn example_pod = Some 4"
    by (simp_all add: example_forwarder_def example_pod_def)
  from closed_connection_is_reused [OF this, of dead_network "[1]" "''broken pipe''" "()"] show ?thesis
    by (simp add: dead_network_def)
qed

end
