(* ===== verification/Config.thy ===== *)
theory Config
  imports Router "HOL-Library.AList"
begin

text \<open>
  The configuration, \<^verbatim>\<open>src/config/config.go\<close>, and the client settings made of it,
  \<^verbatim>\<open>src/util/mongodb_client.go\<close>. The decoded file is a table of TOML values; the type assertions
  of the source are the functions \<open>string_at\<close>, \<open>int64_at\<close> and so on, where a Go \<^verbatim>\<open>int\<close> and an
  \<^verbatim>\<open>int64\<close> are different types. A Go map that is only iterated over is the list of its
  entries in the order of the iteration, any order. The file system, the TOML decoder,
  \<^verbatim>\<open>time.ParseDuration\<close> and the driver's option setters are parameters.
\<close>

section \<open>TOML values\<close>

datatype toml = TString string | TInt64 int | TInt int | TBool bool | TArray "toml list"
  | TTable "(string \<times> toml) list" | TOther

type_synonym toml_table = "(string \<times> toml) list"

definition string_at :: "toml_table \<Rightarrow> string \<Rightarrow> string option" where
  "string_at t k = (case map_of t k of Some (TString s) \<Rightarrow> Some s | _ \<Rightarrow> None)"

definition int64_at :: "toml_table \<Rightarrow> string \<Rightarrow> int option" where
  "int64_at t k = (case map_of t k of Some (TInt64 i) \<Rightarrow> Some i | _ \<Rightarrow> None)"

definition int_at :: "toml_table \<Rightarrow> string \<Rightarrow> int option" where
  "int_at t k = (case map_of t k of Some (TInt i) \<Rightarrow> Some i | _ \<Rightarrow> None)"

definition bool_at :: "toml_table \<Rightarrow> string \<Rightarrow> bool option" where
  "bool_at t k = (case map_of t k of Some (TBool b) \<Rightarrow> Some b | _ \<Rightarrow> None)"

definition array_at :: "toml_table \<Rightarrow> string \<Rightarrow> toml list option" where
  "array_at t k = (case map_of t k of Some (TArray xs) \<Rightarrow> Some xs | _ \<Rightarrow> None)"

definition table_at :: "toml_table \<Rightarrow> string \<Rightarrow> toml_table option" where
  "table_at t k = (case map_of t k of Some (TTable x) \<Rightarrow> Some x | _ \<Rightarrow> None)"

text \<open>\<^verbatim>\<open>if v, ok := ...; ok { config.field = v }\<close>\<close>

definition set_if :: "'a option \<Rightarrow> ('a \<Rightarrow> 'c \<Rightarrow> 'c) \<Rightarrow> 'c \<Rightarrow> 'c" where
  "set_if v f c = (case v of Some x \<Rightarrow> f x c | None \<Rightarrow> c)"

section \<open>Data\<close>

record MetricsConfig =
  mc_Enabled :: bool
  mc_ListenAddr :: string
  mc_ListenPort :: int

record SharedCacheConfig =
  sc_Enabled :: bool
  sc_ListenAddr :: string
  sc_ListenPort :: int
  sc_CacheSizeBytes :: string
  sc_SessionExpiry :: string
  sc_TransactionExpiry :: string
  sc_CursorExpiry :: string
  sc_Debug :: bool
  sc_LabelSelector :: string
  sc_PeerURLs :: "string list"

record MongobouncerConfig =
  mb_ListenAddr :: string
  mb_ListenPort :: int
  mb_LogLevel :: string
  mb_LogFile :: string
  mb_PoolMode :: string
  mb_MaxClientConn :: int
  mb_Metrics :: MetricsConfig
  mb_AuthEnabled :: bool
  mb_RegexCredentialPassthrough :: bool
  mb_SharedCache :: SharedCacheConfig
  mb_Network :: string
  mb_Unlink :: bool
  mb_MongoDBConfig :: MongoDBClientConfig
  mb_Ping :: bool

record TOMLConfig =
  Mongobouncer :: MongobouncerConfig
  Databases :: toml_table

record Database =
  db_ConnectionString :: string
  db_Host :: string
  db_Port :: int
  db_Database :: string
  db_DBName :: string
  db_User :: string
  db_Password :: string
  db_AuthDB :: string
  db_MaxConnections :: int
  db_PoolMode :: string
  db_PoolSize :: int
  db_Label :: string
  db_MongoDBConfig :: MongoDBClientConfig

record Config =
  tomlConfig :: TOMLConfig
  cfg_metrics :: bool \<comment> \<open>whether there is a metrics client\<close>
  cfg_network :: string
  cfg_unlink :: bool
  cfg_ping :: bool

definition zero_client_config :: MongoDBClientConfig where
  "zero_client_config = \<lparr>MaxPoolSize = 0, MinPoolSize = 0, MaxConnIdleTime = 0, ServerSelectionTimeout = 0,
     ConnectTimeout = 0, SocketTimeout = 0, HeartbeatInterval = 0, RetryWrites = None, Topology = None\<rparr>"

definition default_config :: TOMLConfig where
  "default_config =
     \<lparr>Mongobouncer =
        \<lparr>mb_ListenAddr = ''0.0.0.0'', mb_ListenPort = 27017, mb_LogLevel = ''info'', mb_LogFile = '''',
         mb_PoolMode = ''session'', mb_MaxClientConn = 100,
         mb_Metrics = \<lparr>mc_Enabled = True, mc_ListenAddr = ''0.0.0.0'', mc_ListenPort = 9090\<rparr>,
         mb_AuthEnabled = True, mb_RegexCredentialPassthrough = True,
         mb_SharedCache = \<lparr>sc_Enabled = False, sc_ListenAddr = ''0.0.0.0'', sc_ListenPort = 8080,
            sc_CacheSizeBytes = ''64Mi'', sc_SessionExpiry = ''30m'', sc_TransactionExpiry = ''2m'',
            sc_CursorExpiry = ''24h'', sc_Debug = False, sc_LabelSelector = '''', sc_PeerURLs = []\<rparr>,
         mb_Network = ''tcp4'', mb_Unlink = False, mb_MongoDBConfig = zero_client_config, mb_Ping = False\<rparr>,
      Databases = []\<rparr>"

section \<open>Parsing the file\<close>

definition parse_metrics :: "toml_table \<Rightarrow> MetricsConfig \<Rightarrow> MetricsConfig" where
  "parse_metrics t c =
     (let c = set_if (bool_at t ''enabled'') (\<lambda>v c. c\<lparr>mc_Enabled := v\<rparr>) c;
          c = set_if (string_at t ''listen_addr'') (\<lambda>v c. c\<lparr>mc_ListenAddr := v\<rparr>) c
      in set_if (int_at t ''listen_port'') (\<lambda>v c. c\<lparr>mc_ListenPort := v\<rparr>) c)"

definition parse_shared_cache :: "toml_table \<Rightarrow> SharedCacheConfig \<Rightarrow> SharedCacheConfig" where
  "parse_shared_cache t c =
     (let c = set_if (bool_at t ''enabled'') (\<lambda>v c. c\<lparr>sc_Enabled := v\<rparr>) c;
          c = set_if (string_at t ''listen_addr'') (\<lambda>v c. c\<lparr>sc_ListenAddr := v\<rparr>) c;
          c = set_if (int_at t ''listen_port'') (\<lambda>v c. c\<lparr>sc_ListenPort := v\<rparr>) c;
          c = set_if (string_at t ''cache_size_bytes'') (\<lambda>v c. c\<lparr>sc_CacheSizeBytes := v\<rparr>) c;
          c = set_if (string_at t ''session_expiry'') (\<lambda>v c. c\<lparr>sc_SessionExpiry := v\<rparr>) c;
          c = set_if (string_at t ''transaction_expiry'') (\<lambda>v c. c\<lparr>sc_TransactionExpiry := v\<rparr>) c;
          c = set_if (string_at t ''cursor_expiry'') (\<lambda>v c. c\<lparr>sc_CursorExpiry := v\<rparr>) c;
          c = set_if (bool_at t ''debug'') (\<lambda>v c. c\<lparr>sc_Debug := v\<rparr>) c
      in set_if (array_at t ''peer_urls'')
           (\<lambda>urls c. c\<lparr>sc_PeerURLs := map (\<lambda>u. case u of TString s \<Rightarrow> s | _ \<Rightarrow> '''') urls\<rparr>) c)"

text \<open>A duration that is not a string or does not parse is left as it is.\<close>

definition duration_at :: "(string \<Rightarrow> duration option) \<Rightarrow> toml_table \<Rightarrow> string \<Rightarrow> duration option" where
  "duration_at ParseDuration t k = (case string_at t k of Some s \<Rightarrow> ParseDuration s | None \<Rightarrow> None)"

definition parse_client_config :: "(string \<Rightarrow> duration option) \<Rightarrow> toml_table \<Rightarrow> MongoDBClientConfig \<Rightarrow> MongoDBClientConfig" where
  "parse_client_config pd t c =
     (let c = set_if (int64_at t ''max_pool_size'') (\<lambda>v c. c\<lparr>MaxPoolSize := v\<rparr>) c;
          c = set_if (int64_at t ''min_pool_size'') (\<lambda>v c. c\<lparr>MinPoolSize := v\<rparr>) c;
          c = set_if (duration_at pd t ''max_conn_idle_time'') (\<lambda>v c. c\<lparr>MaxConnIdleTime := v\<rparr>) c;
          c = set_if (duration_at pd t ''server_selection_timeout'') (\<lambda>v c. c\<lparr>ServerSelectionTimeout := v\<rparr>) c;
          c = set_if (duration_at pd t ''connect_timeout'') (\<lambda>v c. c\<lparr>ConnectTimeout := v\<rparr>) c;
          c = set_if (duration_at pd t ''socket_timeout'') (\<lambda>v c. c\<lparr>SocketTimeout := v\<rparr>) c;
          c = set_if (duration_at pd t ''heartbeat_interval'') (\<lambda>v c. c\<lparr>HeartbeatInterval := v\<rparr>) c
      in set_if (bool_at t ''retry_writes'') (\<lambda>v c. c\<lparr>RetryWrites := Some v\<rparr>) c)"

text \<open>\<open>Inl\<close> is the error of \<open>GetTopology\<close>.\<close>

definition parse_topology :: "toml_table \<Rightarrow> MongoDBClientConfig \<Rightarrow> string + MongoDBClientConfig" where
  "parse_topology t c =
     (case string_at t ''topology'' of
        None \<Rightarrow> Inr c
      | Some s \<Rightarrow> (case GetTopology s of (_, Some err) \<Rightarrow> Inl err | (k, None) \<Rightarrow> Inr (c\<lparr>Topology := Some k\<rparr>)))"

definition parse_mongobouncer :: "(string \<Rightarrow> duration option) \<Rightarrow> toml_table \<Rightarrow> MongobouncerConfig \<Rightarrow> string + MongobouncerConfig" where
  "parse_mongobouncer pd t c =
     (let c = set_if (string_at t ''listen_addr'') (\<lambda>v c. c\<lparr>mb_ListenAddr := v\<rparr>) c;
          c = set_if (int64_at t ''listen_port'') (\<lambda>v c. c\<lparr>mb_ListenPort := v\<rparr>) c;
          c = set_if (string_at t ''log_level'') (\<lambda>v c. c\<lparr>mb_LogLevel := v\<rparr>) c;
          c = set_if (string_at t ''logfile'') (\<lambda>v c. c\<lparr>mb_LogFile := v\<rparr>) c;
          c = set_if (string_at t ''pool_mode'') (\<lambda>v c. c\<lparr>mb_PoolMode := v\<rparr>) c;
          c = set_if (int64_at t ''max_client_conn'') (\<lambda>v c. c\<lparr>mb_MaxClientConn := v\<rparr>) c;
          c = set_if (table_at t ''metrics'') (\<lambda>m c. c\<lparr>mb_Metrics := parse_metrics m (mb_Metrics c)\<rparr>) c;
          c = set_if (string_at t ''network'') (\<lambda>v c. c\<lparr>mb_Network := v\<rparr>) c;
          c = set_if (bool_at t ''unlink'') (\<lambda>v c. c\<lparr>mb_Unlink := v\<rparr>) c;
          c = set_if (bool_at t ''ping'') (\<lambda>v c. c\<lparr>mb_Ping := v\<rparr>) c;
          c = set_if (bool_at t ''auth_enabled'') (\<lambda>v c. c\<lparr>mb_AuthEnabled := v\<rparr>) c;
          c = set_if (bool_at t ''regex_credential_passthrough'') (\<lambda>v c. c\<lparr>mb_RegexCredentialPassthrough := v\<rparr>) c;
          c = set_if (table_at t ''shared_cache'') (\<lambda>s c. c\<lparr>mb_SharedCache := parse_shared_cache s (mb_SharedCache c)\<rparr>) c;
          c = c\<lparr>mb_MongoDBConfig := parse_client_config pd t (mb_MongoDBConfig c)\<rparr>
      in case parse_topology t (mb_MongoDBConfig c) of
           Inl err \<Rightarrow> Inl err
         | Inr cc \<Rightarrow> Inr (c\<lparr>mb_MongoDBConfig := cc\<rparr>))"

definition parseRawConfig :: "(string \<Rightarrow> duration option) \<Rightarrow> toml_table \<Rightarrow> TOMLConfig \<Rightarrow> string + TOMLConfig" where
  "parseRawConfig pd rawConfig config =
     (case (case table_at rawConfig ''mongobouncer'' of
              None \<Rightarrow> Inr config
            | Some mb \<Rightarrow>
                (case parse_mongobouncer pd mb (Mongobouncer config) of
                   Inl err \<Rightarrow> Inl err
                 | Inr c \<Rightarrow> Inr (config\<lparr>Mongobouncer := c\<rparr>))) of
        Inl err \<Rightarrow> Inl err
      | Inr config \<Rightarrow> Inr (set_if (table_at rawConfig ''databases'') (\<lambda>v c. c\<lparr>Databases := v\<rparr>) config))"

section \<open>Validation of the database names\<close>

record name_tables =
  exactMatches :: "(string \<times> string) list"
  wildcardPatterns :: "(string \<times> string) list"
  prefixPatterns :: "(string \<times> string) list"
  suffixPatterns :: "(string \<times> string) list"
  containsPatterns :: "(string \<times> string) list"

datatype name_error =
    NoDatabases
  | ConflictingWildcards string string
  | ConflictingPatterns string string string string
  | DuplicateDatabase string string string

text \<open>\<^verbatim>\<open>fmt.Sprintf("%s:%d", ...)\<close>\<close>

definition host_port :: "string \<Rightarrow> int \<Rightarrow> string" where
  "host_port host port = host @ '':'' @ show_int port"

definition entry_connection :: "toml \<Rightarrow> string" where
  "entry_connection v =
     (case v of
        TString s \<Rightarrow> s
      | TTable t \<Rightarrow>
          (case string_at t ''connection_string'' of
             Some (c # cs) \<Rightarrow> c # cs
           | _ \<Rightarrow>
               let host = set_if (string_at t ''host'') (\<lambda>h _. h) ''localhost'';
                   port = set_if (int64_at t ''port'') (\<lambda>p _. p) 27017;
                   user = set_if (string_at t ''user'') (\<lambda>u _. u) '''';
                   password = set_if (string_at t ''password'') (\<lambda>p _. p) '''';
                   connectionString =
                     (if user \<noteq> '''' \<and> password \<noteq> '''' then
                        ''mongodb://'' @ user @ '':'' @ password @ ''@'' @ host_port host port
                      else ''mongodb://'' @ host_port host port)
               in (case string_at t ''dbname'' of
                     Some (c # cs) \<Rightarrow> connectionString @ ''/'' @ c # cs
                   | _ \<Rightarrow> connectionString))
      | _ \<Rightarrow> '''')"

definition config_matchesPattern :: "(string \<Rightarrow> string \<Rightarrow> bool option) \<Rightarrow> string \<Rightarrow> string \<Rightarrow> bool" where
  "config_matchesPattern ext dbName pattern =
     (let regexPattern = ReplaceAll pattern CHR ''*'' ''.*''
      in case regexp_MatchString ext (''^'' @ regexPattern @ ''$'') dbName of None \<Rightarrow> False | Some matched \<Rightarrow> matched)"

definition testNames :: "string list" where
  "testNames =
     [''test'', ''prod'', ''staging'', ''dev'',
      ''test_db'', ''prod_db'', ''staging_db'', ''dev_db'',
      ''app_test'', ''app_prod'', ''app_staging'', ''app_dev'',
      ''test_app'', ''prod_app'', ''staging_app'', ''dev_app'',
      ''myapp_test'', ''myapp_prod'', ''myapp_staging'', ''myapp_dev'']"

text \<open>An error of \<^verbatim>\<open>regexp.MatchString\<close> comes with \<^verbatim>\<open>false\<close>.\<close>

definition test_matches :: "(string \<Rightarrow> string \<Rightarrow> bool option) \<Rightarrow> string \<Rightarrow> nat" where
  "test_matches ext regex = length (filter (\<lambda>n. regexp_MatchString ext (''^'' @ regex @ ''$'') n = Some True) testNames)"

definition patternsConflict :: "(string \<Rightarrow> string \<Rightarrow> bool option) \<Rightarrow> string \<Rightarrow> string \<Rightarrow> bool" where
  "patternsConflict ext pattern1 pattern2 =
     (let regex1 = ReplaceAll pattern1 CHR ''*'' ''.*'';
          regex2 = ReplaceAll pattern2 CHR ''*'' ''.*'';
          matches1 = test_matches ext regex1;
          matches2 = test_matches ext regex2
      in matches1 > 0 \<and> matches2 > 0 \<and> matches1 = matches2)"

text \<open>One entry of the loop. The maps of patterns are searched in the order of insertion, one
  of the orders an iteration may have; it only decides which conflict is reported.\<close>

definition validate_entry :: "(string \<Rightarrow> string \<Rightarrow> bool option) \<Rightarrow> string \<Rightarrow> toml \<Rightarrow> name_tables \<Rightarrow> name_error + name_tables" where
  "validate_entry ext dbName v t =
     (let normalizedDbName = NormalizeDatabaseName dbName;
          connectionString = entry_connection v
      in if normalizedDbName = ''*'' then
           (case map_of (wildcardPatterns t) ''*'' of
              Some existing \<Rightarrow> Inl (ConflictingWildcards (sanitizeURI existing) (sanitizeURI connectionString))
            | None \<Rightarrow> Inr (t\<lparr>wildcardPatterns := AList.update ''*'' connectionString (wildcardPatterns t)\<rparr>))
         else if Contains normalizedDbName ''*'' then
           (case List.find (\<lambda>(pattern, _). patternsConflict ext normalizedDbName pattern)
                   (prefixPatterns t @ suffixPatterns t @ containsPatterns t) of
              Some (pattern, patternConnStr) \<Rightarrow>
                Inl (ConflictingPatterns normalizedDbName pattern (sanitizeURI connectionString) (sanitizeURI patternConnStr))
            | None \<Rightarrow>
                Inr (if HasPrefix normalizedDbName ''*'' \<and> HasSuffix normalizedDbName ''*'' then
                       t\<lparr>containsPatterns := AList.update normalizedDbName connectionString (containsPatterns t)\<rparr>
                     else if HasPrefix normalizedDbName ''*'' then
                       t\<lparr>suffixPatterns := AList.update normalizedDbName connectionString (suffixPatterns t)\<rparr>
                     else if HasSuffix normalizedDbName ''*'' then
                       t\<lparr>prefixPatterns := AList.update normalizedDbName connectionString (prefixPatterns t)\<rparr>
                     else t\<lparr>containsPatterns := AList.update normalizedDbName connectionString (containsPatterns t)\<rparr>))
         else
           (case map_of (exactMatches t) normalizedDbName of
              Some existing \<Rightarrow>
                Inl (DuplicateDatabase normalizedDbName (sanitizeURI existing) (sanitizeURI connectionString))
            | None \<Rightarrow> Inr (t\<lparr>exactMatches := AList.update normalizedDbName connectionString (exactMatches t)\<rparr>)))"

fun validate_entries :: "(string \<Rightarrow> string \<Rightarrow> bool option) \<Rightarrow> toml_table \<Rightarrow> name_tables \<Rightarrow> name_error + name_tables" where
  "validate_entries ext [] t = Inr t"
| "validate_entries ext ((dbName, v) # ds) t =
     (case validate_entry ext dbName v t of Inl err \<Rightarrow> Inl err | Inr t \<Rightarrow> validate_entries ext ds t)"

definition validateDatabaseNames :: "(string \<Rightarrow> string \<Rightarrow> bool option) \<Rightarrow> toml_table \<Rightarrow> name_error option" where
  "validateDatabaseNames ext databases =
     (if databases = [] then Some NoDatabases
      else case validate_entries ext databases
                  \<lparr>exactMatches = [], wildcardPatterns = [], prefixPatterns = [], suffixPatterns = [],
                   containsPatterns = []\<rparr> of
             Inl err \<Rightarrow> Some err
           | Inr _ \<Rightarrow> None)"

section \<open>Loading\<close>

datatype log_level = DebugLevel | InfoLevel | WarnLevel | ErrorLevel

record logger_config =
  lg_Level :: log_level
  lg_OutputPaths :: "string list"

text \<open>The configuration that \<^verbatim>\<open>CreateLogger\<close> builds the logger of.\<close>

definition logger_config_of :: "string \<Rightarrow> string \<Rightarrow> logger_config" where
  "logger_config_of level logFile =
     (let l = ToLower level
      in \<lparr>lg_Level =
            (if l = ''debug'' then DebugLevel
             else if l = ''info'' then InfoLevel
             else if l = ''warn'' \<or> l = ''warning'' then WarnLevel
             else if l = ''error'' then ErrorLevel
             else InfoLevel),
          lg_OutputPaths = (if logFile \<noteq> '''' then [logFile] else [''stdout''])\<rparr>)"

record load_api =
  os_Stat :: "string \<Rightarrow> bool"
  DecodeFile :: "string \<Rightarrow> string + toml_table"
  Build :: "logger_config \<Rightarrow> string option" \<comment> \<open>the error\<close>
  ParseDuration :: "string \<Rightarrow> duration option"
  NewMetricsClient :: "string \<Rightarrow> string option" \<comment> \<open>the error\<close>

datatype load_error =
    ConfigFileNotFound string
  | ParseFailed string
  | ProcessFailed string
  | LoggerFailed string
  | ValidationFailed name_error

definition load_file :: "load_api \<Rightarrow> string \<Rightarrow> load_error + TOMLConfig" where
  "load_file api configPath =
     (if configPath = '''' then Inr default_config
      else if \<not> os_Stat api configPath then Inl (ConfigFileNotFound configPath)
      else case DecodeFile api configPath of
             Inl err \<Rightarrow> Inl (ParseFailed err)
           | Inr rawConfig \<Rightarrow>
               (case parseRawConfig (ParseDuration api) rawConfig default_config of
                  Inl err \<Rightarrow> Inl (ProcessFailed err)
                | Inr config \<Rightarrow> Inr config))"

definition LoadConfig :: "load_api \<Rightarrow> (string \<Rightarrow> string \<Rightarrow> bool option) \<Rightarrow> string \<Rightarrow> bool \<Rightarrow> load_error + Config" where
  "LoadConfig api ext configPath verbose =
     (case load_file api configPath of
        Inl err \<Rightarrow> Inl err
      | Inr config \<Rightarrow>
          let config = (if verbose then config\<lparr>Mongobouncer := (Mongobouncer config)\<lparr>mb_LogLevel := ''debug''\<rparr>\<rparr> else config);
              mb = Mongobouncer config
          in case Build api (logger_config_of (mb_LogLevel mb) (mb_LogFile mb)) of
               Some err \<Rightarrow> Inl (LoggerFailed err)
             | None \<Rightarrow>
                 let metricsClient =
                       (mc_Enabled (mb_Metrics mb) \<and>
                        NewMetricsClient api (host_port (mc_ListenAddr (mb_Metrics mb)) (mc_ListenPort (mb_Metrics mb))) = None)
                 in case validateDatabaseNames ext (Databases config) of
                      Some err \<Rightarrow> Inl (ValidationFailed err)
                    | None \<Rightarrow>
                        Inr \<lparr>tomlConfig = config, cfg_metrics = metricsClient, cfg_network = mb_Network mb,
                             cfg_unlink = mb_Unlink mb, cfg_ping = mb_Ping mb\<rparr>)"

section \<open>The databases\<close>

text \<open>\<^verbatim>\<open>panic\<close> for an entry that is a string and \<^verbatim>\<open>logger.Fatal\<close> for a topology that is not known,
  which ends the process.\<close>

datatype database_failure = StringEntry string string | BadTopology string

definition fallback_connection :: "toml_table \<Rightarrow> string" where
  "fallback_connection v =
     (let host = (case string_at v ''host'' of Some (c # cs) \<Rightarrow> c # cs | _ \<Rightarrow> ''localhost'');
          port = (case int64_at v ''port'' of Some p \<Rightarrow> if p > 0 then p else 27017 | None \<Rightarrow> 27017);
          dbname = (case string_at v ''dbname'' of Some d \<Rightarrow> d | None \<Rightarrow> '''')
      in if dbname \<noteq> '''' then ''mongodb://'' @ host_port host port @ ''/'' @ dbname
         else ''mongodb://'' @ host_port host port)"

definition zero_database :: Database where
  "zero_database = \<lparr>db_ConnectionString = '''', db_Host = '''', db_Port = 0, db_Database = '''', db_DBName = '''',
     db_User = '''', db_Password = '''', db_AuthDB = '''', db_MaxConnections = 0, db_PoolMode = '''', db_PoolSize = 0,
     db_Label = '''', db_MongoDBConfig = zero_client_config\<rparr>"

definition parse_database :: "(string \<Rightarrow> duration option) \<Rightarrow> toml_table \<Rightarrow> database_failure + Database" where
  "parse_database pd v =
     (let db = zero_database\<lparr>db_ConnectionString :=
                 (case string_at v ''connection_string'' of
                    Some (c # cs) \<Rightarrow> c # cs
                  | _ \<Rightarrow> fallback_connection v)\<rparr>;
          db = set_if (string_at v ''host'') (\<lambda>x d. d\<lparr>db_Host := x\<rparr>) db;
          db = set_if (int64_at v ''port'') (\<lambda>x d. d\<lparr>db_Port := x\<rparr>) db;
          db = set_if (string_at v ''dbname'') (\<lambda>x d. d\<lparr>db_DBName := x\<rparr>) db;
          db = set_if (string_at v ''user'') (\<lambda>x d. d\<lparr>db_User := x\<rparr>) db;
          db = set_if (string_at v ''password'') (\<lambda>x d. d\<lparr>db_Password := x\<rparr>) db;
          db = set_if (string_at v ''auth_db'') (\<lambda>x d. d\<lparr>db_AuthDB := x\<rparr>) db;
          db = set_if (string_at v ''pool_mode'') (\<lambda>x d. d\<lparr>db_PoolMode := x\<rparr>) db;
          db = set_if (int64_at v ''pool_size'') (\<lambda>x d. d\<lparr>db_PoolSize := x\<rparr>) db;
          db = set_if (string_at v ''label'') (\<lambda>x d. d\<lparr>db_Label := x\<rparr>) db
      in case parse_topology v (parse_client_config pd v (db_MongoDBConfig db)) of
           Inl err \<Rightarrow> Inl (BadTopology err)
         | Inr cc \<Rightarrow> Inr (db\<lparr>db_MongoDBConfig := cc\<rparr>))"

text \<open>An entry of another type is left out.\<close>

fun get_databases :: "(string \<Rightarrow> duration option) \<Rightarrow> toml_table \<Rightarrow> (string \<rightharpoonup> Database) \<Rightarrow> database_failure + (string \<rightharpoonup> Database)" where
  "get_databases pd [] result = Inr result"
| "get_databases pd ((name, dbConfig) # ds) result =
     (let normalizedName = NormalizeDatabaseName name
      in case dbConfig of
           TString v \<Rightarrow> Inl (StringEntry normalizedName v)
         | TTable v \<Rightarrow>
             (case parse_database pd v of
                Inl err \<Rightarrow> Inl err
              | Inr db \<Rightarrow> get_databases pd ds (result(normalizedName \<mapsto> db)))
         | _ \<Rightarrow> get_databases pd ds result)"

definition GetDatabases :: "(string \<Rightarrow> duration option) \<Rightarrow> Config \<Rightarrow> database_failure + (string \<rightharpoonup> Database)" where
  "GetDatabases pd c = get_databases pd (Databases (tomlConfig c)) Map.empty"

definition GetMainConfig :: "Config \<Rightarrow> MongobouncerConfig" where
  "GetMainConfig c = Mongobouncer (tomlConfig c)"

definition GetAuthEnabled :: "Config \<Rightarrow> bool" where
  "GetAuthEnabled c = mb_AuthEnabled (Mongobouncer (tomlConfig c))"

definition GetRegexCredentialPassthrough :: "Config \<Rightarrow> bool" where
  "GetRegexCredentialPassthrough c = mb_RegexCredentialPassthrough (Mongobouncer (tomlConfig c))"

definition GetSharedCacheConfig :: "Config \<Rightarrow> SharedCacheConfig" where
  "GetSharedCacheConfig c = mb_SharedCache (Mongobouncer (tomlConfig c))"

definition GetMetricsAddress :: "Config \<Rightarrow> string" where
  "GetMetricsAddress c =
     (let m = mb_Metrics (Mongobouncer (tomlConfig c)) in host_port (mc_ListenAddr m) (mc_ListenPort m))"

section \<open>The client settings\<close>

record ClientOptions =
  co_MaxPoolSize :: "64 word option"
  co_MinPoolSize :: "64 word option"
  co_MaxConnIdleTime :: "duration option"
  co_ServerSelectionTimeout :: "duration option"
  co_ConnectTimeout :: "duration option"
  co_SocketTimeout :: "duration option"
  co_HeartbeatInterval :: "duration option"
  co_RetryWrites :: "bool option"

text \<open>A setting of the database when it is positive, else the default, and the built-in value
  when that is zero.\<close>

definition effective :: "(MongoDBClientConfig \<Rightarrow> int) \<Rightarrow> int \<Rightarrow> MongoDBClientConfig \<Rightarrow> MongoDBClientConfig option \<Rightarrow> int" where
  "effective f built_in defaults dbOverrides =
     (let v = f defaults;
          v = (case dbOverrides of None \<Rightarrow> v | Some o' \<Rightarrow> if f o' > 0 then f o' else v)
      in if v = 0 then built_in else v)"

definition effective_retryWrites :: "MongoDBClientConfig \<Rightarrow> MongoDBClientConfig option \<Rightarrow> bool option" where
  "effective_retryWrites defaults dbOverrides =
     (case Option.bind dbOverrides RetryWrites of Some b \<Rightarrow> Some b | None \<Rightarrow> RetryWrites defaults)"

definition ApplyMongoDBClientSettings :: "ClientOptions \<Rightarrow> MongoDBClientConfig \<Rightarrow> MongoDBClientConfig option \<Rightarrow> ClientOptions" where
  "ApplyMongoDBClientSettings opts defaults dbOverrides =
     (let opts = opts\<lparr>co_MaxPoolSize := Some (word_of_int (effective MaxPoolSize 10 defaults dbOverrides))\<rparr>;
          opts = opts\<lparr>co_MinPoolSize := Some (word_of_int (effective MinPoolSize 1 defaults dbOverrides))\<rparr>;
          opts = opts\<lparr>co_MaxConnIdleTime := Some (effective MaxConnIdleTime (30 * Second) defaults dbOverrides)\<rparr>;
          opts = opts\<lparr>co_ServerSelectionTimeout := Some (effective ServerSelectionTimeout (30 * Second) defaults dbOverrides)\<rparr>;
          opts = opts\<lparr>co_ConnectTimeout := Some (effective ConnectTimeout (30 * Second) defaults dbOverrides)\<rparr>;
          opts = opts\<lparr>co_SocketTimeout := Some (effective SocketTimeout (30 * Second) defaults dbOverrides)\<rparr>;
          opts = opts\<lparr>co_HeartbeatInterval := Some (effective HeartbeatInterval (10 * Second) defaults dbOverrides)\<rparr>
      in case effective_retryWrites defaults dbOverrides of
           Some b \<Rightarrow> opts\<lparr>co_RetryWrites := Some b\<rparr>
         | None \<Rightarrow> opts)"

definition Config_ApplyMongoDBClientSettings :: "Config \<Rightarrow> ClientOptions \<Rightarrow> Database option \<Rightarrow> ClientOptions" where
  "Config_ApplyMongoDBClientSettings c opts dbConfig =
     (let defaults = mb_MongoDBConfig (Mongobouncer (tomlConfig c));
          dbOverrides = map_option db_MongoDBConfig dbConfig
      in ApplyMongoDBClientSettings opts defaults dbOverrides)"

section \<open>Which names are accepted\<close>

text \<open>
  Two lowered names that the check refuses together: equal names if one of them is \<open>*\<close> or has no
  star, and otherwise patterns that \<^verbatim>\<open>patternsConflict\<close> judges to conflict, equal or not.
\<close>

definition clash :: "(string \<Rightarrow> string \<Rightarrow> bool option) \<Rightarrow> string \<Rightarrow> string \<Rightarrow> bool" where
  "clash ext n m =
     (if CHR ''*'' \<in> set n \<and> CHR ''*'' \<in> set m \<and> n \<noteq> ''*'' \<and> m \<noteq> ''*'' then patternsConflict ext n m else n = m)"

definition name_of_entry :: "string \<times> toml \<Rightarrow> string" where
  "name_of_entry d = NormalizeDatabaseName (fst d)"

lemma patternsConflict_sym: "patternsConflict ext p q \<longleftrightarrow> patternsConflict ext q p"
  by (auto simp: patternsConflict_def Let_def)

lemma clash_sym: "clash ext n m \<longleftrightarrow> clash ext m n"
  by (auto simp: clash_def patternsConflict_sym)

text \<open>The names in the tables.\<close>

definition pattern_names :: "name_tables \<Rightarrow> string set" where
  "pattern_names t = fst ` set (prefixPatterns t) \<union> fst ` set (suffixPatterns t) \<union> fst ` set (containsPatterns t)"

definition seen :: "string set \<Rightarrow> name_tables \<Rightarrow> bool" where
  "seen N t \<longleftrightarrow> fst ` set (exactMatches t) = {n \<in> N. CHR ''*'' \<notin> set n} \<and>
     fst ` set (wildcardPatterns t) = N \<inter> {''*''} \<and>
     pattern_names t = {n \<in> N. CHR ''*'' \<in> set n \<and> n \<noteq> ''*''}"

lemma fst_set_update [simp]: "fst ` set (AList.update k v al) = insert k (fst ` set al)"
  by (induction al) auto

lemma map_of_None_keys: "map_of al k = None \<longleftrightarrow> k \<notin> fst ` set al"
  by (simp add: map_of_eq_None_iff)

lemma find_pattern_None:
  "List.find (\<lambda>(p, _). P p) (prefixPatterns t @ suffixPatterns t @ containsPatterns t) = None \<longleftrightarrow>
     (\<nexists>p. p \<in> pattern_names t \<and> P p)"
  by (auto simp: find_None_iff pattern_names_def; force)

lemma validate_entry_seen:
  assumes "seen N t" and n: "n = NormalizeDatabaseName d"
  shows "case validate_entry ext d v t of
           Inl err \<Rightarrow> \<exists>m\<in>N. clash ext n m
         | Inr t' \<Rightarrow> (\<nexists>m. m \<in> N \<and> clash ext n m) \<and> seen (insert n N) t'"
proof -
  have ex: "fst ` set (exactMatches t) = {n \<in> N. CHR ''*'' \<notin> set n}"
    and wi: "fst ` set (wildcardPatterns t) = N \<inter> {''*''}"
    and pa: "pattern_names t = {n \<in> N. CHR ''*'' \<in> set n \<and> n \<noteq> ''*''}"
    using assms by (simp_all add: seen_def)
  consider "n = ''*''" | "n \<noteq> ''*''" "CHR ''*'' \<in> set n" | "CHR ''*'' \<notin> set n" by blast
  then show ?thesis
  proof cases
    case 1
    then show ?thesis
      using assms map_of_None_keys [of "wildcardPatterns t" "''*''"] wi
      by (auto simp: validate_entry_def clash_def seen_def pattern_names_def split: option.splits)
  next
    case 2
    show ?thesis
    proof (cases "List.find (\<lambda>(p, _). patternsConflict ext n p) (prefixPatterns t @ suffixPatterns t @ containsPatterns t)")
      case None
      then have free: "\<nexists>m. m \<in> N \<and> clash ext n m"
        using pa 2 by (auto simp: find_pattern_None clash_def)
      have "\<exists>t'. validate_entry ext d v t = Inr t' \<and> exactMatches t' = exactMatches t \<and>
          wildcardPatterns t' = wildcardPatterns t \<and> pattern_names t' = insert n (pattern_names t)"
        using assms 2 None by (auto simp: validate_entry_def pattern_names_def Let_def)
      then obtain t' where "validate_entry ext d v t = Inr t'" "exactMatches t' = exactMatches t"
          "wildcardPatterns t' = wildcardPatterns t" "pattern_names t' = insert n (pattern_names t)" by blast
      with free 2 show ?thesis using ex wi pa by (auto simp: seen_def)
    next
      case (Some a)
      then obtain p where p: "p \<in> pattern_names t" "patternsConflict ext n p"
        using find_pattern_None [of "patternsConflict ext n" t] by (metis option.distinct(1))
      have "\<exists>err. validate_entry ext d v t = Inl err"
        using 2 Some n by (cases a) (simp add: validate_entry_def Let_def)
      moreover have "p \<in> N \<and> clash ext n p" using p pa 2 by (simp add: clash_def)
      ultimately show ?thesis by auto
    qed
  next
    case 3
    then have cl: "clash ext n m \<longleftrightarrow> m = n" for m by (auto simp: clash_def)
    have "NormalizeDatabaseName d \<noteq> ''*''" "CHR ''*'' \<notin> set (NormalizeDatabaseName d)" using 3 n by auto
    then have run: "validate_entry ext d v t =
        (case map_of (exactMatches t) n of
           Some existing \<Rightarrow> Inl (DuplicateDatabase n (sanitizeURI existing) (sanitizeURI (entry_connection v)))
         | None \<Rightarrow> Inr (t\<lparr>exactMatches := AList.update n (entry_connection v) (exactMatches t)\<rparr>))"
      unfolding n by (simp add: validate_entry_def Let_def)
    show ?thesis
    proof (cases "map_of (exactMatches t) n")
      case None
      then have "n \<notin> N" using 3 ex map_of_None_keys [of "exactMatches t" n] by auto
      moreover have "seen (insert n N) (t\<lparr>exactMatches := AList.update n (entry_connection v) (exactMatches t)\<rparr>)"
      proof -
        have "n \<noteq> ''*''" using 3 by force
        then have "insert n {m \<in> N. CHR ''*'' \<notin> set m} = {m \<in> insert n N. CHR ''*'' \<notin> set m}"
          and "N \<inter> {''*''} = insert n N \<inter> {''*''}"
          and "{m \<in> N. CHR ''*'' \<in> set m \<and> m \<noteq> ''*''} = {m \<in> insert n N. CHR ''*'' \<in> set m \<and> m \<noteq> ''*''}"
          using 3 by blast+
        moreover have "pattern_names (t\<lparr>exactMatches := x\<rparr>) = pattern_names t" for x by (simp add: pattern_names_def)
        ultimately show ?thesis using ex wi pa by (simp add: seen_def)
      qed
      ultimately show ?thesis using None run cl by auto
    next
      case (Some c)
      then have "n \<in> N" using ex map_of_None_keys [of "exactMatches t" n] by auto
      then show ?thesis using Some run cl by simp
    qed
  qed
qed

lemma validate_entries_iff:
  "seen N t \<Longrightarrow>
   (\<exists>t'. validate_entries ext ds t = Inr t') \<longleftrightarrow>
     (\<forall>n m. n \<in> set (map name_of_entry ds) \<longrightarrow> m \<in> N \<longrightarrow> \<not> clash ext n m) \<and>
     sorted_wrt (\<lambda>n m. \<not> clash ext n m) (map name_of_entry ds)"
proof (induction ds arbitrary: N t)
  case Nil
  then show ?case by simp
next
  case (Cons e ds)
  obtain d v where e: "e = (d, v)" by (cases e)
  have nm: "name_of_entry e = NormalizeDatabaseName d" by (simp add: e name_of_entry_def)
  note step = validate_entry_seen [OF Cons.prems nm, of ext v]
  show ?case
  proof (cases "validate_entry ext d v t")
    case (Inl err)
    then show ?thesis using step by (auto simp: e)
  next
    case (Inr t')
    then have "\<nexists>m. m \<in> N \<and> clash ext (name_of_entry e) m" and "seen (insert (name_of_entry e) N) t'"
      using step by auto
    with Cons.IH [of "insert (name_of_entry e) N" t'] show ?thesis
      using Inr clash_sym [of ext "name_of_entry e"] by (auto simp: e)
  qed
qed

lemma seen_empty:
  "seen {} \<lparr>exactMatches = [], wildcardPatterns = [], prefixPatterns = [], suffixPatterns = [], containsPatterns = []\<rparr>"
  by (simp add: seen_def pattern_names_def)

lemma validateDatabaseNames_clash:
  "validateDatabaseNames ext ds = None \<longleftrightarrow>
     ds \<noteq> [] \<and>
     (\<forall>i j. i < j \<and> j < length ds \<longrightarrow>
        \<not> clash ext (NormalizeDatabaseName (fst (ds ! i))) (NormalizeDatabaseName (fst (ds ! j))))"
  using validate_entries_iff [OF seen_empty, of ext ds]
  by (auto simp: validateDatabaseNames_def sorted_wrt_iff_nth_less name_of_entry_def split: sum.splits)

lemma unsampled_pattern_no_conflict: "\<not> patternsConflict ext ''sales*'' q"
  by (simp add: patternsConflict_def ReplaceAll_def test_matches_def testNames_def regexp_MatchString_def re_operators_def)

text \<open>
  C30. The validation of the configuration accepts the databases, in whatever order the map
  is iterated, exactly when there is at least one and no two of them clash: no two names
  without a star are equal after lowering, at most one is the full wildcard, and no two
  other patterns are judged to conflict by \<open>patternsConflict\<close>, which counts the sample names each
  of them matches. Two equal patterns are therefore refused only if they match a
  sample: \<open>Sales*\<close> and \<open>sales*\<close> are accepted together, although they are one pattern for the router.
\<close>

theorem validateDatabaseNames_accepts_iff:
  "(validateDatabaseNames ext ds = None \<longleftrightarrow>
     ds \<noteq> [] \<and>
     (\<forall>i j. i < j \<and> j < length ds \<longrightarrow>
        \<not> clash ext (NormalizeDatabaseName (fst (ds ! i))) (NormalizeDatabaseName (fst (ds ! j))))) \<and>
   NormalizeDatabaseName ''Sales*'' = NormalizeDatabaseName ''sales*'' \<and>
   validateDatabaseNames ext [(''Sales*'', a), (''sales*'', b)] = None"
proof (intro conjI validateDatabaseNames_clash)
  have low: "NormalizeDatabaseName ''Sales*'' = ''sales*'' \<and> NormalizeDatabaseName ''sales*'' = ''sales*''" by code_simp
  then show "NormalizeDatabaseName ''Sales*'' = NormalizeDatabaseName ''sales*''" by simp
  show "validateDatabaseNames ext [(''Sales*'', a), (''sales*'', b)] = None"
    using low unsampled_pattern_no_conflict [of ext "''sales*''"]
    by (auto simp: validateDatabaseNames_clash clash_def less_Suc_eq nth_Cons')
qed

theorem validateDatabaseNames_accepts_iff_witness:
  "\<not> clash (\<lambda>_ _. None) ''orders'' ''orders*'' \<and>
   validateDatabaseNames (\<lambda>_ _. None) [(''Orders'', TString ''a''), (''orders*'', TString ''b'')] = None"
proof
  show nc: "\<not> clash (\<lambda>_ _. None) ''orders'' ''orders*''" by (simp add: clash_def)
  let ?ds = "[(''Orders'', TString ''a''), (''orders*'', TString ''b'')]"
  have "\<not> clash (\<lambda>_ _. None) (NormalizeDatabaseName (fst (?ds ! i))) (NormalizeDatabaseName (fst (?ds ! j)))"
    if "i < j \<and> j < length ?ds" for i j
  proof -
    from that have "i = 0" "j = 1" by auto
    moreover have "NormalizeDatabaseName ''Orders'' = ''orders'' \<and> NormalizeDatabaseName ''orders*'' = ''orders*''"
      by code_simp
    ultimately show ?thesis using nc by simp
  qed
  then show "validateDatabaseNames (\<lambda>_ _. None) [(''Orders'', TString ''a''), (''orders*'', TString ''b'')] = None"
    using validateDatabaseNames_accepts_iff [of "\<lambda>_ _. None" ?ds] by blast
qed

text \<open>
  The judgement of a conflict between two patterns compares how many of twenty sample
  names each matches and not which. Two patterns that no name matches both are rejected
  (\<open>test*\<close> and \<open>prod*\<close>), whereas two patterns that match a common name are accepted
  (\<open>sales*\<close> and \<open>sales_eu*\<close>), although the comment calls the check conservative.
\<close>

theorem patternsConflict_misjudges:
  "patternsConflict ext ''test*'' ''prod*'' \<and> (\<nexists>s. glob ''test*'' s \<and> glob ''prod*'' s) \<and>
   \<not> patternsConflict ext ''sales*'' ''sales_eu*'' \<and> glob ''sales*'' ''sales_eu1'' \<and> glob ''sales_eu*'' ''sales_eu1''"
proof (intro conjI)
  show "patternsConflict ext ''test*'' ''prod*''"
    by (simp add: patternsConflict_def ReplaceAll_def test_matches_def testNames_def regexp_MatchString_def re_operators_def)
  show "\<not> patternsConflict ext ''sales*'' ''sales_eu*''"
    by (simp add: patternsConflict_def ReplaceAll_def test_matches_def testNames_def regexp_MatchString_def re_operators_def)
  show "\<nexists>s. glob ''test*'' s \<and> glob ''prod*'' s"
    using glob_prefix [of "''test''"] glob_prefix [of "''prod''"] by (auto simp: HasPrefix_iff)
qed simp_all

section \<open>The settings of a client\<close>

text \<open>
  C34. The pool sizes given to the driver are 64-bit unsigned. With settings that are not
  negative the maximum given to the driver is at least one and is the database's size if
  positive, else the main section's, else ten; with a negative size in the main section
  that the database does not override, the number wraps around to one of \<open>2 ^ 63\<close> or more.
\<close>

theorem pool_size_bounds:
  assumes "- (2 ^ 63) \<le> MaxPoolSize defaults" and "MaxPoolSize defaults < 2 ^ 63"
    and "MaxPoolSize ov < 2 ^ 63"
  shows "\<exists>w. co_MaxPoolSize (ApplyMongoDBClientSettings opts defaults (Some ov)) = Some w \<and> w \<noteq> 0 \<and>
     (if MaxPoolSize ov > 0 then int (unat w) = MaxPoolSize ov
      else if MaxPoolSize defaults > 0 then int (unat w) = MaxPoolSize defaults
      else if MaxPoolSize defaults = 0 then unat w = 10
      else 2 ^ 63 \<le> unat w)"
proof -
  define v where "v = effective MaxPoolSize 10 defaults (Some ov)"
  have sel: "co_MaxPoolSize (ApplyMongoDBClientSettings opts defaults (Some ov)) = Some (word_of_int v)"
    by (simp add: ApplyMongoDBClientSettings_def v_def Let_def split: option.split)
  have v: "v = (if MaxPoolSize ov > 0 then MaxPoolSize ov else if MaxPoolSize defaults = 0 then 10 else MaxPoolSize defaults)"
    by (auto simp: v_def effective_def Let_def)
  then have range: "- (2 ^ 63) \<le> v" "v < 2 ^ 63" "v \<noteq> 0" using assms by auto
  have u: "uint (word_of_int v :: 64 word) = (if v < 0 then v + 2 ^ 64 else v)"
  proof (cases "v < 0")
    case True
    have "v mod 2 ^ 64 = (v + 2 ^ 64) mod 2 ^ 64" by simp
    also have "\<dots> = v + 2 ^ 64" using True range by (intro mod_pos_pos_trivial) auto
    finally show ?thesis using True by (simp add: uint_word_of_int)
  next
    case False
    then show ?thesis using range by (simp add: uint_word_of_int)
  qed
  have nz: "(word_of_int v :: 64 word) \<noteq> 0" using u range by (auto split: if_splits)
  have un: "int (unat (word_of_int v :: 64 word)) = (if v < 0 then v + 2 ^ 64 else v)" using u by simp
  have big: "2 ^ 63 \<le> unat (word_of_int v :: 64 word)" if "v < 0"
    using un that range(1) by (simp add: of_nat_le_iff [where 'a = int, symmetric] del: of_nat_le_iff)
  show ?thesis
    unfolding sel using nz un v range big by (intro exI [of _ "word_of_int v"]) (auto split: if_splits)
qed

theorem pool_size_bounds_witness:
  "\<exists>w. co_MaxPoolSize (ApplyMongoDBClientSettings
     \<lparr>co_MaxPoolSize = None, co_MinPoolSize = None, co_MaxConnIdleTime = None, co_ServerSelectionTimeout = None,
      co_ConnectTimeout = None, co_SocketTimeout = None, co_HeartbeatInterval = None, co_RetryWrites = None\<rparr>
     (zero_client_config\<lparr>MaxPoolSize := - 1\<rparr>) (Some zero_client_config)) = Some w \<and> 2 ^ 63 \<le> unat w"
  using pool_size_bounds [of "zero_client_config\<lparr>MaxPoolSize := - 1\<rparr>" zero_client_config
    "\<lparr>co_MaxPoolSize = None, co_MinPoolSize = None, co_MaxConnIdleTime = None, co_ServerSelectionTimeout = None,
      co_ConnectTimeout = None, co_SocketTimeout = None, co_HeartbeatInterval = None, co_RetryWrites = None\<rparr>"]
  by (auto simp: zero_client_config_def)

section \<open>What the configuration file cannot say\<close>

text \<open>The decoder gives every integer of a file the type \<^verbatim>\<open>int64\<close>.\<close>

fun decoded :: "toml \<Rightarrow> bool" where
  "decoded (TInt i) = False"
| "decoded (TArray xs) = list_all decoded xs"
| "decoded (TTable t) = list_all (\<lambda>(k, v). decoded v) t"
| "decoded _ = True"

lemma decoded_at: "decoded (TTable t) \<Longrightarrow> map_of t k = Some v \<Longrightarrow> decoded v"
  by (auto simp: list_all_iff dest: map_of_SomeD)

lemma decoded_int_at: "decoded (TTable t) \<Longrightarrow> int_at t k = None"
  using decoded_at [of t k] by (auto simp: int_at_def split: option.splits toml.splits)

lemma decoded_table_at: "decoded (TTable t) \<Longrightarrow> table_at t k = Some u \<Longrightarrow> decoded (TTable u)"
  using decoded_at [of t k] by (auto simp: table_at_def split: option.splits toml.splits)

lemma parse_metrics_port: "decoded (TTable t) \<Longrightarrow> mc_ListenPort (parse_metrics t c) = mc_ListenPort c"
  by (simp add: parse_metrics_def Let_def set_if_def decoded_int_at split: option.splits)

lemma parse_shared_cache_port:
  "decoded (TTable t) \<Longrightarrow> sc_ListenPort (parse_shared_cache t c) = sc_ListenPort c \<and> sc_LabelSelector (parse_shared_cache t c) = sc_LabelSelector c"
  by (simp add: parse_shared_cache_def Let_def set_if_def decoded_int_at split: option.splits)

lemma set_if_frame [simp]:
  "(\<And>x c. mb_Metrics (f x c) = mb_Metrics c) \<Longrightarrow> mb_Metrics (set_if v f c) = mb_Metrics c"
  "(\<And>x c. mb_SharedCache (f x c) = mb_SharedCache c) \<Longrightarrow> mb_SharedCache (set_if v f c) = mb_SharedCache c"
  by (simp_all add: set_if_def split: option.split)

lemma set_if_field [simp]:
  "mb_Metrics (set_if v (\<lambda>m c. c\<lparr>mb_Metrics := g m (mb_Metrics c)\<rparr>) c) = set_if v g (mb_Metrics c)"
  "mb_SharedCache (set_if v (\<lambda>m c. c\<lparr>mb_SharedCache := h m (mb_SharedCache c)\<rparr>) c) = set_if v h (mb_SharedCache c)"
  by (simp_all add: set_if_def split: option.split)

lemma parse_mongobouncer_ports:
  assumes "decoded (TTable t)" and "parse_mongobouncer pd t c = Inr c'"
  shows "mc_ListenPort (mb_Metrics c') = mc_ListenPort (mb_Metrics c) \<and>
    sc_ListenPort (mb_SharedCache c') = sc_ListenPort (mb_SharedCache c) \<and>
    sc_LabelSelector (mb_SharedCache c') = sc_LabelSelector (mb_SharedCache c)"
proof -
  have "mb_Metrics c' = set_if (table_at t ''metrics'') parse_metrics (mb_Metrics c)"
    and "mb_SharedCache c' = set_if (table_at t ''shared_cache'') parse_shared_cache (mb_SharedCache c)"
    using assms(2) by (simp_all add: parse_mongobouncer_def Let_def split: sum.splits) (auto)
  then show ?thesis
    using decoded_table_at [OF assms(1)]
    by (auto simp: set_if_def parse_metrics_port parse_shared_cache_port split: option.splits)
qed

lemma load_file_ports:
  assumes "\<And>t. DecodeFile api path = Inr t \<Longrightarrow> decoded (TTable t)" and "load_file api path = Inr c"
  shows "mc_ListenPort (mb_Metrics (Mongobouncer c)) = 9090 \<and>
    sc_ListenPort (mb_SharedCache (Mongobouncer c)) = 8080 \<and> sc_LabelSelector (mb_SharedCache (Mongobouncer c)) = ''''"
proof -
  have init: "mc_ListenPort (mb_Metrics (Mongobouncer default_config)) = 9090 \<and>
    sc_ListenPort (mb_SharedCache (Mongobouncer default_config)) = 8080 \<and>
    sc_LabelSelector (mb_SharedCache (Mongobouncer default_config)) = ''''"
    by (simp add: default_config_def)
  have keep: "Mongobouncer (set_if v (\<lambda>v c. c\<lparr>Databases := v\<rparr>) x) = Mongobouncer x" for v x
    by (simp add: set_if_def split: option.split)
  from assms(2) consider "c = default_config"
    | t where "DecodeFile api path = Inr t" "parseRawConfig (ParseDuration api) t default_config = Inr c"
    by (auto simp: load_file_def split: if_splits sum.splits)
  then show ?thesis
  proof cases
    case 2
    then consider "Mongobouncer c = Mongobouncer default_config"
      | u where "table_at t ''mongobouncer'' = Some u"
          "parse_mongobouncer (ParseDuration api) u (Mongobouncer default_config) = Inr (Mongobouncer c)"
      by (auto simp: parseRawConfig_def keep split: option.splits sum.splits)
    then show ?thesis
    proof cases
      case u: (2 u)
      with assms(1) 2(1) have "decoded (TTable u)" using decoded_table_at by blast
      from parse_mongobouncer_ports [OF this u(2)] init show ?thesis by simp
    qed (use init in simp)
  qed (use init in simp)
qed

text \<open>
  Whatever the file says, a configuration that was loaded has the metrics server on
  port 9090 and the shared cache on port 8080 with no label selector: the two ports are
  read as \<^verbatim>\<open>int\<close> where the decoder gives \<^verbatim>\<open>int64\<close>, and the label selector is not read.
\<close>

theorem LoadConfig_ignores_ports:
  assumes "\<And>t. DecodeFile api path = Inr t \<Longrightarrow> decoded (TTable t)"
    and "LoadConfig api ext path verbose = Inr c"
  shows "GetMetricsAddress c = mc_ListenAddr (mb_Metrics (GetMainConfig c)) @ '':9090'' \<and>
    sc_ListenPort (GetSharedCacheConfig c) = 8080 \<and> sc_LabelSelector (GetSharedCacheConfig c) = ''''"
proof -
  from assms(2) obtain config where load: "load_file api path = Inr config"
    and same: "mb_Metrics (Mongobouncer (tomlConfig c)) = mb_Metrics (Mongobouncer config)"
      "mb_SharedCache (Mongobouncer (tomlConfig c)) = mb_SharedCache (Mongobouncer config)"
    by (auto simp: LoadConfig_def Let_def split: sum.splits option.splits if_splits)
  have "show_int 9090 = ''9090''" by (simp add: show_int_def show_nat.simps digit_char_def char_of_def bit_Suc_0_iff)
  with load_file_ports [OF assms(1) load] same show ?thesis
    by (simp add: GetMetricsAddress_def GetMainConfig_def GetSharedCacheConfig_def host_port_def Let_def)
qed

definition example_file :: toml_table where
  "example_file =
     [(''mongobouncer'', TTable [(''listen_port'', TInt64 27016), (''metrics'', TTable [(''listen_port'', TInt64 9100)]),
        (''shared_cache'', TTable [(''listen_port'', TInt64 8090), (''label_selector'', TString ''app=a'')])]),
      (''databases'', TTable [(''orders'', TString ''mongodb://a'')])]"

definition example_api :: load_api where
  "example_api = \<lparr>os_Stat = \<lambda>_. True, DecodeFile = \<lambda>_. Inr example_file, Build = \<lambda>_. None,
     ParseDuration = \<lambda>_. None, NewMetricsClient = \<lambda>_. None\<rparr>"

lemma example_loaded:
  "\<exists>c. LoadConfig example_api (\<lambda>_ _. None) ''c.toml'' False = Inr c \<and> mb_ListenPort (GetMainConfig c) = 27016"
proof -
  have "validateDatabaseNames (\<lambda>_ _. None) [(''orders'', TString ''mongodb://a'')] = None"
    by (simp add: validateDatabaseNames_def validate_entry_def NormalizeDatabaseName_def ToLower_def lower_char_def)
  then show ?thesis
    by (simp add: LoadConfig_def load_file_def example_api_def example_file_def parseRawConfig_def parse_mongobouncer_def
        parse_topology_def set_if_def table_at_def string_at_def int64_at_def bool_at_def GetMainConfig_def Let_def
        default_config_def)
qed

theorem LoadConfig_ignores_ports_witness:
  "\<exists>c. LoadConfig example_api (\<lambda>_ _. None) ''c.toml'' False = Inr c \<and> mb_ListenPort (GetMainConfig c) = 27016 \<and>
     GetMetricsAddress c = mc_ListenAddr (mb_Metrics (GetMainConfig c)) @ '':9090''"
proof -
  have "decoded (TTable t)" if "DecodeFile example_api ''c.toml'' = Inr t" for t
    using that by (auto simp: example_api_def example_file_def)
  with LoadConfig_ignores_ports [of example_api] example_loaded show ?thesis by metis
qed

text \<open>A configuration that was accepted and has an entry in the string form ends the process
  when its databases are read.\<close>

lemma string_entry_fails: "(n, TString v) \<in> set ds \<Longrightarrow> \<exists>f. get_databases pd ds r = Inl f"
proof (induction ds arbitrary: r)
  case (Cons d ds)
  then show ?case
    by (cases d; cases "snd d") (auto simp: Let_def split: sum.splits)
qed simp

end
