(* ===== verification/Handshake.thy ===== *)
theory Handshake
  imports Operations
begin

text \<open>
  The answers the proxy makes itself, \<^verbatim>\<open>src/mongo/ismaster.go\<close>. The documents are lists of
  keys and values; a double is a whole number here, as all of them are. The BSON
  encoder, \<^verbatim>\<open>bson.Marshal\<close>, is a parameter. Shown here: the bytes of an
  answer decode to the reply they were made of.
\<close>

datatype bson_value_d = BBool bool | BInt int | BInt64 int | BDouble int | BString string
  | BObjectID bytes | BDoc "(string \<times> bson_value_d) list" | BArray "bson_value_d list"

type_synonym bson_D = "(string \<times> bson_value_d) list"
type_synonym marshal = "bson_D \<Rightarrow> go_error + document"

definition resultFlagAwaitCapable :: i32 where
  "resultFlagAwaitCapable = 8"

definition topology_name :: "TopologyKind \<Rightarrow> string" where
  "topology_name kind =
     (case kind of
        Single \<Rightarrow> ''Single'' | ReplicaSet \<Rightarrow> ''ReplicaSet'' | ReplicaSetNoPrimary \<Rightarrow> ''ReplicaSetNoPrimary''
      | ReplicaSetWithPrimary \<Rightarrow> ''ReplicaSetWithPrimary'' | Sharded \<Rightarrow> ''Sharded'' | LoadBalanced \<Rightarrow> ''LoadBalanced''
      | TopologyUnknown \<Rightarrow> ''Unknown'')"

text \<open>\<open>ns\<close> is the clock in nanoseconds and \<open>objectID\<close> the new object identifier.\<close>

definition isMasterDocument :: "marshal \<Rightarrow> time \<Rightarrow> bytes \<Rightarrow> TopologyKind \<Rightarrow> go_error + document" where
  "isMasterDocument Marshal ns objectID kind =
     (let ms = go_div ns 1000000
      in case kind of
           Single \<Rightarrow>
             Marshal
               [(''ismaster'', BBool True), (''maxBsonObjectSize'', BInt 16777216), (''maxMessageSizeBytes'', BInt 48000000),
                (''maxWriteBatchSize'', BInt 100000), (''localTime'', BDoc [(''$date'', BInt64 ms)]),
                (''logicalSessionTimeoutMinutes'', BInt 30), (''maxWireVersion'', BInt 25), (''minWireVersion'', BInt 0),
                (''readOnly'', BBool False), (''ok'', BDouble 1)]
         | Sharded \<Rightarrow>
             Marshal
               [(''ismaster'', BBool True), (''msg'', BString ''isdbgrid''), (''maxBsonObjectSize'', BInt 16777216),
                (''maxMessageSizeBytes'', BInt 48000000), (''maxWriteBatchSize'', BInt 100000),
                (''localTime'', BDoc [(''$date'', BInt64 ms)]), (''logicalSessionTimeoutMinutes'', BInt 30),
                (''minWireVersion'', BInt 0), (''maxWireVersion'', BInt 25), (''saslSupportedMechs'', BArray []),
                (''ok'', BDouble 1)]
         | LoadBalanced \<Rightarrow>
             Marshal
               [(''ismaster'', BBool True), (''msg'', BString ''isdbgrid''), (''serviceId'', BObjectID objectID),
                (''maxBsonObjectSize'', BInt 16777216), (''maxMessageSizeBytes'', BInt 48000000),
                (''maxWriteBatchSize'', BInt 100000), (''localTime'', BDoc [(''$date'', BInt64 ms)]),
                (''logicalSessionTimeoutMinutes'', BInt 30), (''minWireVersion'', BInt 0), (''maxWireVersion'', BInt 25),
                (''ok'', BDouble 1)]
         | _ \<Rightarrow> Inl (ErrorString (''unsupported topology kind: '' @ topology_name kind)))"

text \<open>What the six functions do with the document.\<close>

definition reply_message :: "wire \<Rightarrow> i32 \<Rightarrow> i32 \<Rightarrow> document \<Rightarrow> Message" where
  "reply_message w flags responseTo doc =
     (let reply = \<lparr>r_reqID = 0, r_flags = flags, r_cursorID = 0, r_startingFrom = 0, r_numReturned = 1, r_documents = [doc]\<rparr>
      in \<lparr>Wm = opReply_Encode w reply responseTo, Op = Some (Op_Reply reply)\<rparr>)"

definition IsMasterResponse :: "wire \<Rightarrow> marshal \<Rightarrow> time \<Rightarrow> bytes \<Rightarrow> i32 \<Rightarrow> TopologyKind \<Rightarrow> go_error + Message" where
  "IsMasterResponse w Marshal ns objectID responseTo topologyKind =
     (case isMasterDocument Marshal ns objectID topologyKind of
        Inl err \<Rightarrow> Inl err
      | Inr imd \<Rightarrow> Inr (reply_message w resultFlagAwaitCapable responseTo imd))"

definition BuildInfoResponse :: "wire \<Rightarrow> marshal \<Rightarrow> time \<Rightarrow> i32 \<Rightarrow> go_error + Message" where
  "BuildInfoResponse w Marshal ns responseTo =
     (case Marshal
             [(''ismaster'', BBool True), (''msg'', BString ''isdbgrid''), (''maxBsonObjectSize'', BInt 16777216),
              (''maxMessageSizeBytes'', BInt 48000000), (''maxWriteBatchSize'', BInt 100000),
              (''localTime'', BDoc [(''$date'', BInt64 (go_div ns 1000000))]), (''logicalSessionTimeoutMinutes'', BInt 30),
              (''minWireVersion'', BInt 0), (''maxWireVersion'', BInt 25), (''ok'', BDouble 1)] of
        Inl err \<Rightarrow> Inl err
      | Inr docBytes \<Rightarrow> Inr (reply_message w resultFlagAwaitCapable responseTo docBytes))"

definition ErrorResponse :: "wire \<Rightarrow> marshal \<Rightarrow> i32 \<Rightarrow> string \<Rightarrow> string \<Rightarrow> go_error + Message" where
  "ErrorResponse w Marshal responseTo errmsg codeName =
     (case Marshal [(''ok'', BDouble 0), (''errmsg'', BString errmsg), (''code'', BInt 59), (''codeName'', BString codeName)] of
        Inl err \<Rightarrow> Inl err
      | Inr docBytes \<Rightarrow> Inr (reply_message w 0 responseTo docBytes))"

definition GetParameterResponse :: "wire \<Rightarrow> marshal \<Rightarrow> i32 \<Rightarrow> go_error + Message" where
  "GetParameterResponse w Marshal responseTo =
     (case Marshal [(''featureCompatibilityVersion'', BDoc [(''version'', BString ''6.0'')]), (''ok'', BDouble 1)] of
        Inl err \<Rightarrow> Inl err
      | Inr docBytes \<Rightarrow> Inr (reply_message w resultFlagAwaitCapable responseTo docBytes))"

definition EmptyCursorResponse :: "wire \<Rightarrow> marshal \<Rightarrow> i32 \<Rightarrow> go_error + Message" where
  "EmptyCursorResponse w Marshal responseTo =
     (case Marshal
             [(''cursor'', BDoc [(''firstBatch'', BArray []), (''id'', BInt64 0), (''ns'', BString ''admin.atlascli'')]),
              (''ok'', BDouble 1)] of
        Inl err \<Rightarrow> Inl err
      | Inr docBytes \<Rightarrow> Inr (reply_message w resultFlagAwaitCapable responseTo docBytes))"

definition TransactionResponse :: "wire \<Rightarrow> marshal \<Rightarrow> i32 \<Rightarrow> string \<Rightarrow> go_error + Message" where
  "TransactionResponse w Marshal responseTo transactionType =
     (case Marshal [(''ok'', BDouble 1)] of
        Inl err \<Rightarrow> Inl err
      | Inr docBytes \<Rightarrow> Inr (reply_message w resultFlagAwaitCapable responseTo docBytes))"

lemma reply_message_decodes:
  assumes "wire_laws w" and "is_document w doc" and "length (Wm (reply_message w flags responseTo doc)) < 2 ^ 31"
  shows "\<exists>r. Op (reply_message w flags responseTo doc) = Some (Op_Reply r) \<and> r_documents r = [doc] \<and> r_flags r = flags \<and>
    Decode w (Wm (reply_message w flags responseTo doc)) = Some (Inr (Op_Reply r))"
proof -
  define r where "r = \<lparr>r_reqID = 0, r_flags = flags, r_cursorID = 0, r_startingFrom = 0, r_numReturned = 1, r_documents = [doc]\<rparr>"
  have l: "header_laws w" "reply_laws w" using assms(1) by (simp_all add: wire_laws_def)
  have m: "reply_message w flags responseTo doc = \<lparr>Wm = opReply_Encode w r responseTo, Op = Some (Op_Reply r)\<rparr>"
    by (simp add: reply_message_def r_def Let_def)
  have "op_ok w (Op_Reply r)" using assms(2) by (simp add: r_def)
  with opReply_body [OF l(2), of r] obtain body where
    "encodes w OpReply (opReply_Encode w r) body" "decodeReply w 0 body = Inr (r\<lparr>r_reqID := 0\<rparr>)" by blast
  then have "Decode w (opReply_Encode w r responseTo) = Some (Inr (Op_Reply r))"
    using assms(3) by (auto simp: m Decode_dispatch [OF l(1)] r_def elim: Decode_encodes [OF l(1), where responseTo = responseTo])
  then show ?thesis by (simp add: m) (simp add: r_def)
qed

end
