(* ===== verification/Connection.thy ===== *)
theory Connection
  imports Pool Mongo Forwarder Config Handshake
begin

text \<open>
  A client connection of the proxy, \<^verbatim>\<open>src/proxy/connection.go\<close>: reading messages, the
  handshake and its authentication, the choice of the MongoDB client, the round trip with
  the pool manager, and the end of the connection. The session manager, the clients, the
  routes, the pools and the proxy's table of clients are the \<open>world\<close>, shared by all connections;
  a connection is a record of its own. The calls of the other components are the
  definitions of their theories.

  Results are \<open>Ok\<close>, an error or a panic; \<open>None\<close> is not returning. The
  proxy always has a pool manager, a router and itself to give to a connection (see
  \<^verbatim>\<open>src/config/proxies.go\<close>), so the tests of these for \<^verbatim>\<open>nil\<close> are left out, and so are the log and the
  metrics other than the gauge of the sessions.
\<close>

section \<open>net/url\<close>

text \<open>
  \<^verbatim>\<open>url.Parse\<close> for a scheme, user information, a host with an optional port, a path and a query in
  which everything is made of plain characters; \<open>ext\<close> is its result on other strings.
\<close>

record parsed_url =
  u_User :: "(string \<times> string option) option"
  u_RawQuery :: string

definition url_plain :: "string \<Rightarrow> bool" where
  "url_plain s = list_all (\<lambda>c. c \<in> set ''abcdefghijklmnopqrstuvwxyzABCDEFGHIJKLMNOPQRSTUVWXYZ0123456789-_.~'') s"

definition cut :: "string \<Rightarrow> char \<Rightarrow> string \<times> string option" where
  "cut s c = (case Index s [c] of None \<Rightarrow> (s, None) | Some i \<Rightarrow> (take i s, Some (drop (Suc i) s)))"

definition plain_host :: "string \<Rightarrow> bool" where
  "plain_host s = (case cut s CHR '':'' of
      (h, None) \<Rightarrow> url_plain h
    | (h, Some p) \<Rightarrow> url_plain h \<and> list_all (\<lambda>c. c \<in> set ''0123456789'') p)"

definition plain_user :: "string \<Rightarrow> (string \<times> string option) option" where
  "plain_user s = (case cut s CHR '':'' of
      (u, None) \<Rightarrow> if url_plain u then Some (u, None) else None
    | (u, Some p) \<Rightarrow> if url_plain u \<and> url_plain p then Some (u, Some p) else None)"

definition plain_query :: "string \<Rightarrow> bool" where
  "plain_query q = list_all (\<lambda>c. c \<in> set ''=&'' \<or> url_plain [c]) q"

definition url_Parse :: "(string \<Rightarrow> go_error + parsed_url) \<Rightarrow> string \<Rightarrow> go_error + parsed_url" where
  "url_Parse ext s =
     (if \<not> HasPrefix s ''mongodb://'' then ext s
      else
        let (rest, query) = cut (TrimPrefix s ''mongodb://'') CHR ''?'';
            query = (case query of None \<Rightarrow> '''' | Some q \<Rightarrow> q);
            (authority, path) = cut rest CHR ''/''
        in if \<not> plain_query query \<or> \<not> list_all (\<lambda>c. c = CHR ''/'' \<or> url_plain [c]) (case path of None \<Rightarrow> '''' | Some p \<Rightarrow> p) then ext s
           else case cut authority CHR ''@'' of
                  (host, None) \<Rightarrow> if plain_host host then Inr \<lparr>u_User = None, u_RawQuery = query\<rparr> else ext s
                | (userinfo, Some host) \<Rightarrow>
                    (case plain_user userinfo of
                       None \<Rightarrow> ext s
                     | Some u \<Rightarrow> if plain_host host then Inr \<lparr>u_User = Some u, u_RawQuery = query\<rparr> else ext s))"

text \<open>
  \<^verbatim>\<open>Query()\<close>: the map from keys to their values in the order of the first occurrence of the keys, one of
  the orders in which it may be iterated. \<open>unescape\<close> is \<^verbatim>\<open>url.QueryUnescape\<close>, \<open>None\<close> for an error,
  which drops the pair.
\<close>

definition url_Query :: "(string \<Rightarrow> string option) \<Rightarrow> string \<Rightarrow> (string \<times> string list) list" where
  "url_Query unescape q =
     (let parts = filter (\<lambda>p. p \<noteq> '''') (Split q ''&'');
          pair = (\<lambda>p. case cut p CHR ''='' of (k, v) \<Rightarrow>
                    (case (unescape k, unescape (case v of None \<Rightarrow> '''' | Some v \<Rightarrow> v)) of
                       (Some k, Some v) \<Rightarrow> Some (k, v)
                     | _ \<Rightarrow> None));
          pairs = List.map_filter pair parts
      in map (\<lambda>k. (k, map snd (filter (\<lambda>p. fst p = k) pairs))) (rev (remdups (rev (map fst pairs)))))"

section \<open>The patterns of regexp.FindString in use\<close>

definition is_digit :: "char \<Rightarrow> bool" where
  "is_digit c \<longleftrightarrow> c \<in> set ''0123456789''"

definition is_alpha :: "char \<Rightarrow> bool" where
  "is_alpha c \<longleftrightarrow> c \<in> set ''abcdefghijklmnopqrstuvwxyzABCDEFGHIJKLMNOPQRSTUVWXYZ''"

definition starts_digit :: "string \<Rightarrow> bool" where
  "starts_digit s = (case s of [] \<Rightarrow> False | c # _ \<Rightarrow> is_digit c)"

text \<open>A literal followed by \<^verbatim>\<open>\d+\<close>.\<close>

fun FindString_numbered :: "string \<Rightarrow> string \<Rightarrow> string" where
  "FindString_numbered lit [] = ''''"
| "FindString_numbered lit (c # s) =
     (if HasPrefix (c # s) lit \<and> starts_digit (drop (length lit) (c # s))
      then lit @ takeWhile is_digit (drop (length lit) (c # s))
      else FindString_numbered lit s)"

text \<open>The expression \<^verbatim>\<open>[a-zA-Z][a-zA-Z0-9_]*_db_\d+\<close>: the leftmost start, and from there the
  longest repetition.\<close>

fun FindString_generic :: "string \<Rightarrow> string" where
  "FindString_generic [] = ''''"
| "FindString_generic (c # s) =
     (let word = takeWhile (\<lambda>x. is_alpha x \<or> is_digit x \<or> x = CHR ''_'') (c # s);
          ends = filter (\<lambda>i. HasPrefix (drop i word) ''_db_'' \<and> starts_digit (drop (i + 4) word)) [1..<length word]
      in if is_alpha c \<and> ends \<noteq> [] then
           take (last ends + 4) word @ takeWhile is_digit (drop (last ends + 4) word)
         else FindString_generic s)"

section \<open>State\<close>

datatype 'a outcome = Ok 'a | Fail go_error | Panic

record ('g, 'd, 'n) proxy_env =
  e_wire :: wire
  e_group :: "'g group_api"
  e_driver :: "'d driver_api"
  e_net :: "'n net_api"
  e_regexp :: "string \<Rightarrow> string \<Rightarrow> bool option"
  e_url :: "string \<Rightarrow> go_error + parsed_url"
  e_unescape :: "string \<Rightarrow> string option"
  e_Marshal :: marshal
  e_ObjectID :: "'d \<Rightarrow> bytes"
  e_ApplyURI :: "string \<Rightarrow> ClientOptions"

record ('g, 'd, 'n) world =
  w_router :: DatabaseRouter
  w_routes :: "route_ref \<Rightarrow> RouteConfig"
  w_mongos :: "mongo_ref \<Rightarrow> Mongo"
  w_options :: "mongo_ref \<Rightarrow> ClientOptions"
  w_next :: mongo_ref
  w_pool :: Manager
  w_sm :: "'g sm_state"
  w_drv :: 'd
  w_trace :: "rt_event list"
  w_clients :: "string \<rightharpoonup> mongo_ref" \<comment> \<open>\<^verbatim>\<open>Proxy.mongoClients\<close>\<close>
  w_forwarder :: "RequestForwarder option"
  w_net :: 'n

text \<open>
  The network connection to the client: the bytes that will still come and the error after
  them, what was written, and the errors of the next writes.
\<close>

record connection =
  address :: string
  c_in :: bytes
  c_end :: go_error
  c_out :: "bytes list"
  c_write_errors :: "go_error option list"
  c_buffer_cap :: int
  clientID :: string
  intendedDatabase :: string
  routeConfig :: "route_ref option"
  clientUsername :: string
  clientPassword :: string
  clientAuthSource :: string
  authEnabled :: bool
  regexCredentialPassthrough :: bool
  mongodbDefaults :: MongoDBClientConfig
  databaseUsed :: string
  isUsingCredentialPassthrough :: bool
  c_metrics :: bool
  c_sessions_gauge :: "(int \<times> string) list" \<comment> \<open>calls for \<^verbatim>\<open>sessions_active\<close>\<close>

type_synonym ('a, 'g, 'd, 'n) result = "'a outcome \<times> connection \<times> ('g, 'd, 'n) world"

definition w_now :: "('g, 'd, 'n) proxy_env \<Rightarrow> ('g, 'd, 'n) world \<Rightarrow> time" where
  "w_now E W = drv_now (e_driver E) (w_drv W)"

section \<open>Reading\<close>

definition EOF :: go_error where "EOF = ErrorString ''EOF''"

definition io_ReadFull :: "nat \<Rightarrow> connection \<Rightarrow> (go_error + bytes) \<times> connection" where
  "io_ReadFull n c =
     (if n \<le> length (c_in c) then (Inr (take n (c_in c)), c\<lparr>c_in := drop n (c_in c)\<rparr>)
      else (Inl (if c_in c \<noteq> [] \<and> c_end c = EOF then ErrorString ''unexpected EOF'' else c_end c), c\<lparr>c_in := []\<rparr>))"

definition wire_size :: "bytes \<Rightarrow> i32" where
  "wire_size b = or (or (or (ucast (b ! 0)) (push_bit 8 (ucast (b ! 1)))) (push_bit 16 (ucast (b ! 2)))) (push_bit 24 (ucast (b ! 3)))"

definition readWireMessage :: "connection \<Rightarrow> bytes outcome \<times> connection" where
  "readWireMessage c =
     (case io_ReadFull 4 c of
        (Inl err, c) \<Rightarrow> (Fail err, c)
      | (Inr sizeBuf, c) \<Rightarrow>
          let size = sint (wire_size sizeBuf);
              c = (if size > c_buffer_cap c then c\<lparr>c_buffer_cap := size\<rparr> else c)
          in if size < 4 then (Panic, c)
             else case io_ReadFull (nat size - 4) c of
                    (Inl err, c) \<Rightarrow> (Fail err, c)
                  | (Inr rest, c) \<Rightarrow> (Ok (sizeBuf @ rest), c))"

section \<open>The database of an operation\<close>

definition database_patterns :: "string list" where
  "database_patterns = [''sustained_db_'', ''longrun_db_'', ''test_db_'', ''burst_db_'', ''storm_db_'', ''concurrent_db_'', ''random_db_'']"

definition database_from_text :: "string \<Rightarrow> string" where
  "database_from_text opString =
     (let numbered = map (\<lambda>lit. FindString_numbered lit opString) database_patterns;
          literal = map (\<lambda>lit. if Contains opString lit then lit else '''') [''webapp_test'', ''background_test'', ''analytics_test'']
      in case List.find (\<lambda>m. m \<noteq> '''') (numbered @ literal) of
           Some m \<Rightarrow> m
         | None \<Rightarrow> FindString_generic opString)"

text \<open>The name for an operation, given the database the connection has used; then the connection keeps track of it.\<close>

definition extracted_database :: "Operation_methods \<Rightarrow> string \<Rightarrow> string" where
  "extracted_database om intended =
     (let collection = snd (om_CommandAndCollection om);
          databaseName = (if collection \<noteq> '''' then CI_Database (ParseCollectionName collection) else '''');
          databaseName = (if databaseName = '''' then om_DatabaseName om else databaseName);
          databaseName = (if databaseName = '''' then database_from_text (om_String om) else databaseName)
      in if databaseName = '''' then
           if om_IsIsMaster om then ''admin''
           else if intended \<noteq> '''' then intended
           else ''default''
         else databaseName)"

definition connection_extractDatabaseName :: "Operation_methods \<Rightarrow> connection \<Rightarrow> string \<times> connection" where
  "connection_extractDatabaseName om c =
     (let databaseName = extracted_database om (intendedDatabase c);
          c = (if databaseUsed c = '''' \<and> c_metrics c \<and> databaseName \<noteq> ''default'' then
                 c\<lparr>c_sessions_gauge := c_sessions_gauge c @ [(1, databaseName)]\<rparr>
               else c);
          c = c\<lparr>databaseUsed := databaseName, intendedDatabase := databaseName\<rparr>
      in (NormalizeDatabaseName databaseName, c))"

section \<open>Credentials\<close>

definition extractCredentialsFromConnectionString ::
    "('g, 'd, 'n) proxy_env \<Rightarrow> string \<Rightarrow> go_error + string \<times> string" where
  "extractCredentialsFromConnectionString E connStr =
     (case url_Parse (e_url E) connStr of
        Inl err \<Rightarrow> Inl (ErrorString (''failed to parse connection string: '' @ error_text (e_driver E) err))
      | Inr u \<Rightarrow>
          (case u_User u of
             None \<Rightarrow> Inr ('''', '''')
           | Some (username, password) \<Rightarrow> Inr (username, case password of Some p \<Rightarrow> p | None \<Rightarrow> '''')))"

definition isWildcardOrRegexMatch :: "string \<Rightarrow> RouteConfig \<Rightarrow> bool" where
  "isWildcardOrRegexMatch targetDatabase route =
     (let routePattern = DatabaseName route
      in if Contains routePattern ''*'' then True
         else if routePattern = ''*'' then True
         else if routePattern \<noteq> targetDatabase then True
         else False)"

definition router_GetRoute ::
    "('g, 'd, 'n) proxy_env \<Rightarrow> string \<Rightarrow> ('g, 'd, 'n) world \<Rightarrow> (string + route_ref) \<times> ('g, 'd, 'n) world" where
  "router_GetRoute E db W =
     (let (r, router) = GetRoute (e_regexp E) (w_now E W) db (w_router W) in (r, W\<lparr>w_router := router\<rparr>))"

text \<open>
  The router's own functions for messages, which only the tests of the sources call: \<^verbatim>\<open>ExtractDatabaseName\<close>,
  which never fails, and \<^verbatim>\<open>RouteMessage\<close>.
\<close>

definition router_ExtractDatabaseName :: "Operation_methods \<Rightarrow> string" where
  "router_ExtractDatabaseName om =
     (let collection = snd (om_CommandAndCollection om)
      in if collection \<noteq> '''' \<and> CI_Database (ParseCollectionName collection) \<noteq> '''' then
           NormalizeDatabaseName (CI_Database (ParseCollectionName collection))
         else if om_IsIsMaster om then NormalizeDatabaseName ''admin''
         else NormalizeDatabaseName ''admin'')"

definition RouteMessage ::
    "('g, 'd, 'n) proxy_env \<Rightarrow> Operation_methods \<Rightarrow> ('g, 'd, 'n) world \<Rightarrow> (string + mongo_ref option) \<times> ('g, 'd, 'n) world" where
  "RouteMessage E om W =
     (case router_GetRoute E (router_ExtractDatabaseName om) W of
        (Inl err, W) \<Rightarrow> (Inl err, W)
      | (Inr r, W) \<Rightarrow> (Inr (MongoClient (w_routes W r)), W))"

definition validateCredentialsAgainstDatabase ::
    "('g, 'd, 'n) proxy_env \<Rightarrow> string \<Rightarrow> string \<Rightarrow> string \<Rightarrow> string \<Rightarrow> connection \<Rightarrow> ('g, 'd, 'n) world \<Rightarrow>
     go_error option \<times> connection \<times> ('g, 'd, 'n) world" where
  "validateCredentialsAgainstDatabase E username password targetDatabase appDatabase c W =
     (case router_GetRoute E targetDatabase W of
        (Inl err, W) \<Rightarrow> (Some (ErrorString (''database '' @ targetDatabase @ '' is not supported: '' @ err)), c, W)
      | (Inr r, W) \<Rightarrow>
          let route = w_routes W r
          in if regexCredentialPassthrough c \<and> isWildcardOrRegexMatch targetDatabase route then
               (None, c\<lparr>clientUsername := username, clientPassword := password\<rparr>, W)
             else case extractCredentialsFromConnectionString E (ConnectionString route) of
                    Inl err \<Rightarrow> (Some (ErrorString (''failed to extract route credentials: '' @ error_text (e_driver E) err)), c, W)
                  | Inr (routeUsername, routePassword) \<Rightarrow>
                      if username \<noteq> routeUsername \<or> password \<noteq> routePassword then
                        (Some (ErrorString ''authentication failed: invalid credentials''), c, W)
                      else if appDatabase \<noteq> '''' \<and> appDatabase \<noteq> targetDatabase then
                        (Some (ErrorString (''authentication failed: database mismatch - appName specifies '' @ [CHR 0x27] @ appDatabase @ [CHR 0x27] @
                           '' but connecting to '' @ [CHR 0x27] @ targetDatabase @ [CHR 0x27])), c, W)
                      else (None, c\<lparr>clientUsername := username, clientPassword := password\<rparr>, W))"

section \<open>The handshake\<close>

text \<open>The commands the proxy answers itself.\<close>

definition is_handshake :: "Operation_methods \<Rightarrow> bool" where
  "is_handshake om =
     (let (command, collection) = om_CommandAndCollection om
      in om_IsIsMaster om \<or> command = BuildInfo \<or> command = AtlasVersion \<or> command = GetParameter \<or>
         (command = Aggregate \<and> collection = ''atlascli''))"

text \<open>The authentication of a handshake command; the result is the topology to answer with.\<close>

definition authenticate ::
    "('g, 'd, 'n) proxy_env \<Rightarrow> Operation_methods \<Rightarrow> connection \<Rightarrow> ('g, 'd, 'n) world \<Rightarrow> (TopologyKind, 'g, 'd, 'n) result" where
  "authenticate E om c W =
     (let appName = extractAppNameFromMessage (om_String om)
      in if appName = '''' then (Fail (ErrorString ''authentication required: appName parameter must be provided''), c, W)
         else case parseAppNameCredentials appName of
                Inl err \<Rightarrow> (Fail (ErrorString err), c, W)
              | Inr (appDatabase, username, password, authSource) \<Rightarrow>
                  (case router_GetRoute E appDatabase W of
                     (Inl err, W) \<Rightarrow> (Fail (ErrorString (''database '' @ appDatabase @ '' is not supported: '' @ err)), c, W)
                   | (Inr r, W) \<Rightarrow>
                       let route = w_routes W r;
                           isExactMatch = (DatabaseName route = appDatabase)
                       in case DatabaseConfig route of
                            None \<Rightarrow> (Panic, c, W)
                          | Some dc \<Rightarrow>
                              let topology = (case Topology dc of Some t \<Rightarrow> t | None \<Rightarrow> Sharded)
                              in if isExactMatch then
                                   (case validateCredentialsAgainstDatabase E username password appDatabase appDatabase c W of
                                      (Some err, c, W) \<Rightarrow>
                                        (Fail (ErrorString (''authentication failed: '' @ error_text (e_driver E) err)), c, W)
                                    | (None, c, W) \<Rightarrow> (Ok topology, c, W))
                                 else
                                   (Ok topology, c\<lparr>clientUsername := username, clientPassword := password,
                                                  clientAuthSource := authSource\<rparr>, W)))"

definition handshake_response ::
    "('g, 'd, 'n) proxy_env \<Rightarrow> Operation_methods \<Rightarrow> TopologyKind \<Rightarrow> ('g, 'd, 'n) world \<Rightarrow> go_error + Message" where
  "handshake_response E om topology W =
     (let requestID = om_RequestID om;
          (command, collection) = om_CommandAndCollection om;
          now = w_now E W;
          w = e_wire E
      in if om_IsIsMaster om then IsMasterResponse w (e_Marshal E) now (e_ObjectID E (w_drv W)) requestID topology
         else if command = BuildInfo then BuildInfoResponse w (e_Marshal E) now requestID
         else if command = AtlasVersion then
           ErrorResponse w (e_Marshal E) requestID (''no such command: '' @ [CHR 0x27] @ ''atlasVersion'' @ [CHR 0x27]) ''CommandNotFound''
         else if command = GetParameter then GetParameterResponse w (e_Marshal E) requestID
         else if command = Aggregate \<and> collection = ''atlascli'' then EmptyCursorResponse w (e_Marshal E) requestID
         else IsMasterResponse w (e_Marshal E) now (e_ObjectID E (w_drv W)) requestID topology)"

definition handshake ::
    "('g, 'd, 'n) proxy_env \<Rightarrow> Operation_methods \<Rightarrow> connection \<Rightarrow> ('g, 'd, 'n) world \<Rightarrow> (Message, 'g, 'd, 'n) result" where
  "handshake E om c W =
     (case (if authEnabled c \<and> clientUsername c = '''' then authenticate E om c W else (Ok Sharded, c, W)) of
        (Ok topology, c, W) \<Rightarrow>
          (case handshake_response E om topology W of Inl err \<Rightarrow> (Fail err, c, W) | Inr m \<Rightarrow> (Ok m, c, W))
      | (Fail err, c, W) \<Rightarrow> (Fail err, c, W)
      | (Panic, c, W) \<Rightarrow> (Panic, c, W))"

section \<open>The MongoDB client\<close>

definition set_route :: "route_ref \<Rightarrow> RouteConfig \<Rightarrow> ('g, 'd, 'n) world \<Rightarrow> ('g, 'd, 'n) world" where
  "set_route r route W = W\<lparr>w_routes := (w_routes W)(r := route)\<rparr>"

definition RegisterMongoClient :: "string \<Rightarrow> mongo_ref \<Rightarrow> ('g, 'd, 'n) world \<Rightarrow> ('g, 'd, 'n) world" where
  "RegisterMongoClient databaseName client W = W\<lparr>w_clients := (w_clients W)(databaseName \<mapsto> client)\<rparr>"

text \<open>\<^verbatim>\<open>ConnectWithSessionManager\<close> with the options of a route, and the new client at its address.\<close>

definition new_client ::
    "('g, 'd, 'n) proxy_env \<Rightarrow> connection \<Rightarrow> string \<Rightarrow> RouteConfig \<Rightarrow> ('g, 'd, 'n) world \<Rightarrow> (go_error + mongo_ref) \<times> ('g, 'd, 'n) world" where
  "new_client E c connectionString route W =
     (let opts = ApplyMongoDBClientSettings (e_ApplyURI E connectionString) (mongodbDefaults c) (DatabaseConfig route)
      in case ConnectWithSessionManager (e_driver E) connectionString (c_metrics c) False (Some (fst (w_sm W))) (w_drv W) of
           (Inl err, d) \<Rightarrow> (Inl err, W\<lparr>w_drv := d\<rparr>)
         | (Inr (m, _), d) \<Rightarrow>
             let a = w_next W
             in (Inr a, W\<lparr>w_drv := d, w_mongos := (w_mongos W)(a := m), w_options := (w_options W)(a := opts), w_next := Suc a\<rparr>))"

text \<open>The client is looked at again under the lock; nothing happens in between here.\<close>

definition createLazyMongoClient ::
    "('g, 'd, 'n) proxy_env \<Rightarrow> connection \<Rightarrow> route_ref \<Rightarrow> string \<Rightarrow> ('g, 'd, 'n) world \<Rightarrow> (go_error + mongo_ref) \<times> ('g, 'd, 'n) world" where
  "createLazyMongoClient E c r targetDatabase W =
     (let route = w_routes W r
      in case MongoClient route of
           Some a \<Rightarrow> (Inr a, W)
         | None \<Rightarrow>
             (case new_client E c (ConnectionString route) route W of
                (Inl err, W) \<Rightarrow> (Inl (ErrorString (''failed to create lazy MongoDB client: '' @ error_text (e_driver E) err)), W)
              | (Inr a, W) \<Rightarrow>
                  (Inr a, RegisterMongoClient targetDatabase a (set_route r (route\<lparr>MongoClient := Some a\<rparr>) W))))"

definition credentialKey :: "connection \<Rightarrow> string" where
  "credentialKey c = clientUsername c @ '':'' @ clientPassword c"

definition query_string :: "string \<Rightarrow> string \<Rightarrow> (string \<times> string list) list \<Rightarrow> string" where
  "query_string s authSource query =
     fold (\<lambda>(key, values) s.
             if key \<noteq> ''authSource'' then
               fold (\<lambda>v s. s @ (if Contains s ''?'' then ''&'' else ''?'') @ key @ ''='' @ v) values s
             else s)
       query (s @ ''?authSource='' @ (if authSource \<noteq> '''' then authSource else ''admin''))"

definition credential_connection_string ::
    "('g, 'd, 'n) proxy_env \<Rightarrow> connection \<Rightarrow> string \<Rightarrow> string \<Rightarrow> parsed_url \<Rightarrow> string" where
  "credential_connection_string E c host port u =
     (if clientUsername c \<noteq> '''' \<and> clientPassword c \<noteq> '''' then
        query_string (''mongodb://'' @ clientUsername c @ '':'' @ clientPassword c @ ''@'' @ host @ '':'' @ port @ ''/'' @ intendedDatabase c)
          (clientAuthSource c) (url_Query (e_unescape E) (u_RawQuery u))
      else ''mongodb://'' @ host @ '':'' @ port @ ''/'' @ (if u_RawQuery u \<noteq> '''' then ''?'' @ u_RawQuery u else ''''))"

text \<open>The cache lookup both functions begin with.\<close>

definition cached_credential_client ::
    "('g, 'd, 'n) proxy_env \<Rightarrow> connection \<Rightarrow> route_ref \<Rightarrow> ('g, 'd, 'n) world \<Rightarrow> mongo_ref option \<times> ('g, 'd, 'n) world" where
  "cached_credential_client E c r W =
     (let route = InitCredentialClientsCache (w_routes W r);
          (a, cache) = Cache_get (w_now E W) (the (CredentialClients route)) (credentialKey c)
      in (a, set_route r (route\<lparr>CredentialClients := Some cache\<rparr>) W))"

text \<open>The new connection string is also logged; \<^verbatim>\<open>sanitizeConnectionString\<close> may panic.\<close>

definition createMongoClientWithCredentials ::
    "('g, 'd, 'n) proxy_env \<Rightarrow> connection \<Rightarrow> route_ref \<Rightarrow> ('g, 'd, 'n) world \<Rightarrow> mongo_ref outcome \<times> ('g, 'd, 'n) world" where
  "createMongoClientWithCredentials E c r W =
     (case cached_credential_client E c r W of
        (Some a, W) \<Rightarrow> (Ok a, W)
      | (None, W) \<Rightarrow>
          let route = w_routes W r;
              (host, port) = extractHostFromRoute (ConnectionString route)
          in if host = '''' \<or> port = '''' then
               (Fail (ErrorString ''failed to extract host/port from route connection string''), W)
             else case url_Parse (e_url E) (ConnectionString route) of
                    Inl err \<Rightarrow> (Fail (ErrorString (''failed to parse route connection string: '' @ error_text (e_driver E) err)), W)
                  | Inr u \<Rightarrow>
                      let newConnectionString = credential_connection_string E c host port u
                      in case sanitizeConnectionString newConnectionString of
                           Inl _ \<Rightarrow> (Panic, W)
                         | Inr _ \<Rightarrow>
                             (case new_client E c newConnectionString route W of
                                (Inl err, W) \<Rightarrow>
                                  (Fail (ErrorString (''failed to create MongoDB client with client credentials: '' @ error_text (e_driver E) err)), W)
                              | (Inr a, W) \<Rightarrow>
                                  let route = w_routes W r;
                                      cache = Cache_add (w_now E W) (the (CredentialClients route)) (credentialKey c) a
                                  in (Ok a, RegisterMongoClient (credentialKey c) a
                                              (set_route r (route\<lparr>CredentialClients := Some cache\<rparr>) W))))"

definition getOrCreateCredentialClient ::
    "('g, 'd, 'n) proxy_env \<Rightarrow> connection \<Rightarrow> route_ref \<Rightarrow> ('g, 'd, 'n) world \<Rightarrow> mongo_ref outcome \<times> ('g, 'd, 'n) world" where
  "getOrCreateCredentialClient E c r W =
     (case cached_credential_client E c r W of
        (Some a, W) \<Rightarrow> (Ok a, W)
      | (None, W) \<Rightarrow>
          (case createMongoClientWithCredentials E c r W of
             (Fail err, W) \<Rightarrow>
               (Fail (ErrorString (''failed to create MongoDB client with client credentials: '' @ error_text (e_driver E) err)), W)
           | res \<Rightarrow> res))"

text \<open>Whether the operation uses the credentials of the client.\<close>

definition use_passthrough :: "('g, 'd, 'n) proxy_env \<Rightarrow> string \<Rightarrow> RouteConfig \<Rightarrow> connection \<Rightarrow> bool" where
  "use_passthrough E targetDatabase route c =
     (if regexCredentialPassthrough c \<and> clientUsername c \<noteq> '''' then
        if isWildcardOrRegexMatch targetDatabase route then True
        else if MongoClient route \<noteq> None then
          let (routeUsername, routePassword) =
                (case extractCredentialsFromConnectionString E (ConnectionString route) of Inl _ \<Rightarrow> ('''', '''') | Inr p \<Rightarrow> p)
          in clientUsername c \<noteq> routeUsername \<or> clientPassword c \<noteq> routePassword
        else False
      else False)"

text \<open>The routing part of \<^verbatim>\<open>roundTrip\<close>: the route of the database and the client.\<close>

definition route_operation ::
    "('g, 'd, 'n) proxy_env \<Rightarrow> string \<Rightarrow> connection \<Rightarrow> ('g, 'd, 'n) world \<Rightarrow> (route_ref \<times> mongo_ref, 'g, 'd, 'n) result" where
  "route_operation E targetDatabase c W =
     (case router_GetRoute E targetDatabase W of
        (Inl err, W) \<Rightarrow>
          (Fail (ErrorString
             (if targetDatabase = ''admin'' then ''admin database is not configured but admin command was attempted: '' @ err
              else ''database '' @ targetDatabase @ '' is not supported: '' @ err)), c, W)
      | (Inr r, W) \<Rightarrow>
          let c = c\<lparr>routeConfig := Some r, intendedDatabase := targetDatabase\<rparr>;
              route = w_routes W r;
              c = c\<lparr>isUsingCredentialPassthrough := use_passthrough E targetDatabase route c\<rparr>
          in if isUsingCredentialPassthrough c then
               (case getOrCreateCredentialClient E c r W of
                  (Ok a, W) \<Rightarrow> (Ok (r, a), c, W)
                | (Fail err, W) \<Rightarrow> (Fail err, c, W)
                | (Panic, W) \<Rightarrow> (Panic, c, W))
             else case MongoClient route of
                    None \<Rightarrow>
                      (case createLazyMongoClient E c r targetDatabase W of
                         (Inl err, W) \<Rightarrow> (Fail (ErrorString (''failed to create MongoDB client: '' @ error_text (e_driver E) err)), c, W)
                       | (Inr a, W) \<Rightarrow> (Ok (r, a), c, W))
                  | Some a \<Rightarrow> (Ok (r, a), c, W))"

section \<open>The round trip\<close>

text \<open>\<^verbatim>\<open>Mongo.RoundTrip\<close> of the client at an address.\<close>

definition client_RoundTrip ::
    "('g, 'd, 'n) proxy_env \<Rightarrow> mongo_ref \<Rightarrow> bytes \<Rightarrow> Operation \<Rightarrow> ('g, 'd, 'n) world \<Rightarrow>
     ((go_error + Message) \<times> ('g, 'd, 'n) world) option" where
  "client_RoundTrip E a wm op W =
     (case RoundTrip (e_wire E) (e_group E) (e_driver E) wm op
             \<lparr>rt_mongo = w_mongos W a, rt_sm = w_sm W, rt_drv = w_drv W, rt_trace = w_trace W\<rparr> of
        None \<Rightarrow> None
      | Some (res, st) \<Rightarrow>
          Some (res, W\<lparr>w_mongos := (w_mongos W)(a := rt_mongo st), w_sm := rt_sm st, w_drv := rt_drv st, w_trace := rt_trace st\<rparr>))"

definition isEndOfTransaction :: "Operation_methods \<Rightarrow> bool" where
  "isEndOfTransaction om =
     (let commandStr = Command_string (fst (om_CommandAndCollection om))
      in if commandStr \<in> {''commitTransaction'', ''abortTransaction'', ''endSessions''} then True
         else case om_TransactionDetails om of
                Some td \<Rightarrow>
                  if Autocommit td then True
                  else if commandStr = ''commitTransaction'' \<or> commandStr = ''abortTransaction'' then True
                  else False
              | None \<Rightarrow> False)"

text \<open>
  The attempt to forward the request: \<open>None\<close> when it is to be processed here. The answer that is
  made of a forwarded response has no bytes, only the operation.
\<close>

definition forward ::
    "('g, 'd, 'n) proxy_env \<Rightarrow> Operation_methods \<Rightarrow> ('g, 'd, 'n) world \<Rightarrow>
     ((go_error + Message) option \<times> ('g, 'd, 'n) world) option" where
  "forward E om W =
     (case w_forwarder W of
        None \<Rightarrow> Some (None, W)
      | Some rf \<Rightarrow>
          let sessionID = (case om_TransactionDetails om of Some td \<Rightarrow> hex_encode (LsID td) | None \<Rightarrow> '''')
          in if sessionID = '''' then Some (None, W)
             else
               let rawRequest = om_Encode om (om_RequestID om);
                   (res, (rf, dc, n)) = ForwardRequest (e_group E) (e_net E) sessionID rawRequest (rf, snd (w_sm W), w_net W);
                   W = W\<lparr>w_forwarder := Some rf, w_sm := (fst (w_sm W), dc), w_net := n\<rparr>
               in case res of
                    Inl err \<Rightarrow> Some (None, W)
                  | Inr None \<Rightarrow> Some (None, W)
                  | Inr (Some forwardedResponse) \<Rightarrow>
                      (case Decode (e_wire E) forwardedResponse of
                         None \<Rightarrow> None
                       | Some (Inl err) \<Rightarrow> Some (Some (Inl (ErrorString err)), W)
                       | Some (Inr responseOp) \<Rightarrow> Some (Some (Inr \<lparr>Wm = [], Op = Some responseOp\<rparr>), W)))"

text \<open>The registration of the client with the database of the operation.\<close>

definition reregister ::
    "('g, 'd, 'n) proxy_env \<Rightarrow> string \<Rightarrow> connection \<Rightarrow> ('g, 'd, 'n) world \<Rightarrow> go_error option \<times> ('g, 'd, 'n) world" where
  "reregister E actualDatabaseName c W =
     (let (needsReregistration, m) =
            (case GetClient (clientID c) (w_pool W) of
               None \<Rightarrow> (True, w_pool W)
             | Some client \<Rightarrow>
                 if cl_Database client \<noteq> actualDatabaseName
                 then (True, UnregisterClient (w_now E W) (clientID c) (w_pool W))
                 else (False, w_pool W))
      in if needsReregistration then
           let username = (if clientUsername c = '''' then ''default'' else clientUsername c);
               (r, m) = RegisterClient (w_now E W) (clientID c) username actualDatabaseName (GetDefaultMode m) m
           in (case r of Inl err \<Rightarrow> Some (ErrorString err) | Inr _ \<Rightarrow> None, W\<lparr>w_pool := m\<rparr>)
         else (None, W\<lparr>w_pool := m\<rparr>))"

definition roundTripWithPool ::
    "('g, 'd, 'n) proxy_env \<Rightarrow> bytes \<Rightarrow> Operation \<Rightarrow> string \<Rightarrow> mongo_ref \<Rightarrow> connection \<Rightarrow> ('g, 'd, 'n) world \<Rightarrow>
     (Message outcome \<times> ('g, 'd, 'n) world) option" where
  "roundTripWithPool E wm op databaseName mongoClient c W =
     (let om = methods (e_wire E) op;
          actualDatabaseName = (if databaseName = '''' then ''default'' else databaseName)
      in case forward E om W of
           None \<Rightarrow> None
         | Some (Some (Inl err), W) \<Rightarrow> Some (Fail err, W)
         | Some (Some (Inr m), W) \<Rightarrow> Some (Ok m, W)
         | Some (None, W) \<Rightarrow>
             (case reregister E actualDatabaseName c W of
                (Some err, W) \<Rightarrow> Some (Fail err, W)
              | (None, W) \<Rightarrow>
                  let transactionDetails = om_TransactionDetails om;
                      isTransaction = (case transactionDetails of Some td \<Rightarrow> \<not> Autocommit td | None \<Rightarrow> False);
                      transactionID =
                        (case transactionDetails of Some td \<Rightarrow> hex_encode (LsID td) @ ''-'' @ show_int (TxnNumber td) | None \<Rightarrow> '''')
                  in case GetConnection (w_now E W) (clientID c) actualDatabaseName (Some mongoClient) isTransaction transactionID (w_pool W) of
                       (Inl err, m) \<Rightarrow> Some (Fail (ErrorString err), W\<lparr>w_pool := m\<rparr>)
                     | (Inr pooledConn, m) \<Rightarrow>
                         let W = W\<lparr>w_pool := m\<rparr>
                         in case pc_MongoClient (conn_heap m pooledConn) of
                              None \<Rightarrow> Some (Panic, W)
                            | Some a \<Rightarrow>
                                (case client_RoundTrip E a wm op W of
                                   None \<Rightarrow> None
                                 | Some (res, W) \<Rightarrow>
                                     let W = W\<lparr>w_pool := ReturnConnection (w_now E W) (clientID c) pooledConn (isEndOfTransaction om) (w_pool W)\<rparr>
                                     in Some (case res of Inl err \<Rightarrow> Fail err | Inr m \<Rightarrow> Ok m, W))))"

text \<open>After a connection error the client of the route is dropped.\<close>

definition drop_failed_client ::
    "('g, 'd, 'n) proxy_env \<Rightarrow> route_ref \<Rightarrow> 'a outcome \<Rightarrow> ('g, 'd, 'n) world \<Rightarrow> ('g, 'd, 'n) world" where
  "drop_failed_client E r res W =
     (case res of
        Fail err \<Rightarrow>
          if isConnectionError (Some (error_text (e_driver E) err)) \<and> MongoClient (w_routes W r) \<noteq> None
          then set_route r ((w_routes W r)\<lparr>MongoClient := None\<rparr>) W else W
      | _ \<Rightarrow> W)"

definition connection_roundTrip ::
    "('g, 'd, 'n) proxy_env \<Rightarrow> bytes \<Rightarrow> Operation \<Rightarrow> connection \<Rightarrow> ('g, 'd, 'n) world \<Rightarrow> (Message, 'g, 'd, 'n) result option" where
  "connection_roundTrip E wm op c W =
     (let om = methods (e_wire E) op;
          (databaseName, c) = connection_extractDatabaseName om c
      in if is_handshake om then Some (handshake E om c W)
         else case route_operation E databaseName c W of
                (Fail err, c, W) \<Rightarrow> Some (Fail err, c, W)
              | (Panic, c, W) \<Rightarrow> Some (Panic, c, W)
              | (Ok (r, mongoClient), c, W) \<Rightarrow>
                  (case (if \<not> isUsingCredentialPassthrough c then roundTripWithPool E wm op databaseName mongoClient c W
                         else map_option (\<lambda>(res, W). (case res of Inl err \<Rightarrow> Fail err | Inr m \<Rightarrow> Ok m, W))
                                (client_RoundTrip E mongoClient wm op W)) of
                     None \<Rightarrow> None
                   | Some (res, W) \<Rightarrow> Some (res, c, drop_failed_client E r res W)))"

section \<open>The connection\<close>

definition conn_Write :: "bytes \<Rightarrow> connection \<Rightarrow> go_error option \<times> connection" where
  "conn_Write b c =
     (case c_write_errors c of
        Some err # errs \<Rightarrow> (Some err, c\<lparr>c_write_errors := errs\<rparr>)
      | None # errs \<Rightarrow> (None, c\<lparr>c_write_errors := errs, c_out := c_out c @ [b]\<rparr>)
      | [] \<Rightarrow> (None, c\<lparr>c_out := c_out c @ [b]\<rparr>))"

text \<open>The extractions of the database for the metrics, which track the database again.\<close>

definition metrics_database :: "Operation_methods \<Rightarrow> connection \<Rightarrow> connection" where
  "metrics_database om c = (if c_metrics c then snd (connection_extractDatabaseName om c) else c)"

definition handleMessage ::
    "('g, 'd, 'n) proxy_env \<Rightarrow> connection \<Rightarrow> ('g, 'd, 'n) world \<Rightarrow> (unit, 'g, 'd, 'n) result option" where
  "handleMessage E c W =
     (case readWireMessage c of
        (Fail err, c) \<Rightarrow> Some (Fail err, c, W)
      | (Panic, c) \<Rightarrow> Some (Panic, c, W)
      | (Ok wm, c) \<Rightarrow>
          (case Decode (e_wire E) wm of
             None \<Rightarrow> None
           | Some (Inl err) \<Rightarrow> Some (Fail (ErrorString err), c, W)
           | Some (Inr op) \<Rightarrow>
               let om = methods (e_wire E) op;
                   (_, c) = connection_extractDatabaseName om c
               in case connection_roundTrip E wm op c W of
                    None \<Rightarrow> None
                  | Some (Fail err, c, W) \<Rightarrow> Some (Fail err, metrics_database om c, W)
                  | Some (Panic, c, W) \<Rightarrow> Some (Panic, c, W)
                  | Some (Ok res, c, W) \<Rightarrow>
                      if om_Unacknowledged om then Some (Ok (), c, W)
                      else case Op res of
                             None \<Rightarrow> Some (Panic, c, W)
                           | Some _ \<Rightarrow>
                               (case conn_Write (Wm res) c of
                                  (Some err, c) \<Rightarrow> Some (Fail err, c, W)
                                | (None, c) \<Rightarrow> Some (Ok (), metrics_database om c, W))))"

text \<open>The loop ends with an error of a message. \<open>n\<close> bounds the number of messages; \<open>None\<close> is
  a loop that has not ended by then.\<close>

fun processMessages ::
    "nat \<Rightarrow> ('g, 'd, 'n) proxy_env \<Rightarrow> connection \<Rightarrow> ('g, 'd, 'n) world \<Rightarrow> (unit, 'g, 'd, 'n) result option" where
  "processMessages 0 E c W = None"
| "processMessages (Suc n) E c W =
     (case handleMessage E c W of
        None \<Rightarrow> None
      | Some (Ok _, c, W) \<Rightarrow> processMessages n E c W
      | Some (Fail err, c, W) \<Rightarrow> Some (Ok (), c, W)
      | Some (Panic, c, W) \<Rightarrow> Some (Panic, c, W))"

text \<open>The connection of the source's literal: the fields that are not given are zero.\<close>

definition new_connection :: "('g, 'd, 'n) proxy_env \<Rightarrow> ('g, 'd, 'n) world \<Rightarrow> connection \<Rightarrow> connection" where
  "new_connection E W c =
     c\<lparr>clientID := address c @ ''-'' @ show_int (w_now E W), c_buffer_cap := 0, intendedDatabase := [], routeConfig := None,
       clientUsername := [], clientPassword := [], clientAuthSource := [], databaseUsed := [],
       isUsingCredentialPassthrough := False\<rparr>"

text \<open>A panic is recovered after the deferred clean-up has run.\<close>

definition handleConnection ::
    "nat \<Rightarrow> ('g, 'd, 'n) proxy_env \<Rightarrow> connection \<Rightarrow> ('g, 'd, 'n) world \<Rightarrow> (string \<times> connection \<times> ('g, 'd, 'n) world) option" where
  "handleConnection n E c W =
     (let c = new_connection E W c;
          (_, m) = RegisterClient (w_now E W) (clientID c) ''default'' ''default'' (GetDefaultMode (w_pool W)) (w_pool W)
      in case processMessages n E c (W\<lparr>w_pool := m\<rparr>) of
           None \<Rightarrow> None
         | Some (res, c, W) \<Rightarrow>
             let W = W\<lparr>w_pool := UnregisterClient (w_now E W) (clientID c) (w_pool W)\<rparr>;
                 c = (if c_metrics c \<and> intendedDatabase c \<noteq> '''' \<and> intendedDatabase c \<noteq> ''default'' then
                        c\<lparr>c_sessions_gauge := c_sessions_gauge c @ [(- 1, intendedDatabase c)]\<rparr>
                      else c)
             in Some (case res of Panic \<Rightarrow> '''' | _ \<Rightarrow> databaseUsed c, c, W))"

end
