(* ===== verification/Serving.thy ===== *)
theory Serving
  imports Connection
begin

text \<open>
  What a client connection promises: how messages are framed, which database an operation is
  routed by, what authentication checks and what it does not, which client an operation uses, and
  that the answers to the handshake can be decoded.
\<close>

section \<open>An example\<close>

text \<open>A proxy with one database, its network and its driver, for the instances below.\<close>

definition example_route :: RouteConfig where
  "example_route = \<lparr>DatabaseName = ''app'', MongoClient = Some 0, ConnectionString = ''mongodb://u:p@h:1/app'', PoolMode = [],
     MaxConnections = 0, Label = ''app'', DatabaseConfig = Some zero_client_config, CredentialClients = None\<rparr>"

definition echo_network :: "unit net_api" where
  "echo_network = \<lparr>net_now = (\<lambda>_. 0), net_Dial = (\<lambda>_ _ n. (Inr 1, n)), net_SetKeepAlive = (\<lambda>_ _ n. n),
     net_SetReadDeadline = (\<lambda>_ _ n. n), net_Write = (\<lambda>_ _ n. (None, n)),
     net_Read = (\<lambda>_ _ n. (Inr [16, 0, 0, 0, 1, 0, 0, 0, 2, 0, 0, 0, 99, 0, 0, 0], n))\<rparr>"

definition example_env :: "wire \<Rightarrow> (string \<rightharpoonup> json \<times> time, unit, unit) proxy_env" where
  "example_env w = \<lparr>e_wire = w, e_group = map_group, e_driver = example_driver, e_net = echo_network, e_regexp = (\<lambda>_ _. None),
     e_url = (\<lambda>_. Inl (ErrorString ''bad'')), e_unescape = Some, e_Marshal = (\<lambda>_. Inr [5, 0, 0, 0, 0]), e_ObjectID = (\<lambda>_. []),
     e_ApplyURI = (\<lambda>_. \<lparr>co_MaxPoolSize = None, co_MinPoolSize = None, co_MaxConnIdleTime = None, co_ServerSelectionTimeout = None,
      co_ConnectTimeout = None, co_SocketTimeout = None, co_HeartbeatInterval = None, co_RetryWrites = None\<rparr>)\<rparr>"

definition example_world :: "(string \<rightharpoonup> json \<times> time, unit, unit) world" where
  "example_world = \<lparr>w_router = AddRoute ''app'' 0 NewDatabaseRouter, w_routes = (\<lambda>_. example_route),
     w_mongos = (\<lambda>_. rt_mongo (example_state NewSessionManager)), w_options = (\<lambda>_. e_ApplyURI (example_env std_wire) []), w_next = 1,
     w_pool = NewManager ''session'' 1 10 100, w_sm = (NewSessionManager, None), w_drv = (), w_trace = [], w_clients = Map.empty,
     w_forwarder = None, w_net = ()\<rparr>"

definition example_connection :: connection where
  "example_connection = \<lparr>address = ''a'', c_in = [], c_end = EOF, c_out = [], c_write_errors = [], c_buffer_cap = 0, clientID = ''a-0'',
     intendedDatabase = [], routeConfig = None, clientUsername = [], clientPassword = [], clientAuthSource = [], authEnabled = True,
     regexCredentialPassthrough = True, mongodbDefaults = zero_client_config, databaseUsed = [], isUsingCredentialPassthrough = False,
     c_metrics = False, c_sessions_gauge = []\<rparr>"

section \<open>Reading messages\<close>

lemma io_ReadFull_enough:
  "n \<le> length (c_in c) \<Longrightarrow> io_ReadFull n c = (Inr (take n (c_in c)), c\<lparr>c_in := drop n (c_in c)\<rparr>)"
  by (simp add: io_ReadFull_def)

lemma io_ReadFull_short: "length (c_in c) < n \<Longrightarrow> \<exists>err. io_ReadFull n c = (Inl err, c\<lparr>c_in := []\<rparr>)"
  by (simp add: io_ReadFull_def)

text \<open>
  C21. Framing. With at least four bytes to come, the first four are the size of the message,
  signed and little-endian. A size the input has bytes for gives exactly these bytes and leaves
  the rest; a larger size is an error; a size below four, negative ones included, is a panic.
\<close>

theorem readWireMessage_frames:
  assumes "4 \<le> length (c_in c)"
  shows "let size = sint (wire_size (take 4 (c_in c))); (r, c') = readWireMessage c
     in if size < 4 then r = Panic
        else if size \<le> int (length (c_in c)) then r = Ok (take (nat size) (c_in c)) \<and> c_in c' = drop (nat size) (c_in c)
        else \<exists>err. r = Fail err"
proof -
  define size where "size = sint (wire_size (take 4 (c_in c)))"
  define cap where "cap = (if size > c_buffer_cap c then size else c_buffer_cap c)"
  define c1 where "c1 = c\<lparr>c_in := drop 4 (c_in c), c_buffer_cap := cap\<rparr>"
  have run: "readWireMessage c =
     (if size < 4 then (Panic, c1)
      else case io_ReadFull (nat size - 4) c1 of
             (Inl err, c) \<Rightarrow> (Fail err, c)
           | (Inr rest, c') \<Rightarrow> (Ok (take 4 (c_in c) @ rest), c'))"
    using assms by (simp add: readWireMessage_def io_ReadFull_enough size_def [symmetric] cap_def c1_def Let_def)
  show ?thesis
  proof (cases "size < 4 \<or> int (length (c_in c)) < size")
    case True
    have "\<exists>err. readWireMessage c = (Fail err, c1\<lparr>c_in := []\<rparr>)" if "\<not> size < 4"
    proof -
      have "length (c_in c1) < nat size - 4" using True that assms by (simp add: c1_def)
      then obtain err where "io_ReadFull (nat size - 4) c1 = (Inl err, c1\<lparr>c_in := []\<rparr>)" using io_ReadFull_short by blast
      then show ?thesis using that by (simp add: run)
    qed
    with True run show ?thesis by (auto simp: size_def [symmetric] Let_def)
  next
    case False
    then have n: "nat size = 4 + (nat size - 4)" and le: "nat size - 4 \<le> length (c_in c1)"
      using assms by (auto simp: c1_def)
    have "take (nat size) (c_in c) = take 4 (c_in c) @ take (nat size - 4) (drop 4 (c_in c))"
      by (subst n) (rule take_add)
    moreover have "drop (nat size) (c_in c) = drop (nat size - 4) (drop 4 (c_in c))"
      using n by simp
    moreover have "readWireMessage c = (Ok (take 4 (c_in c) @ take (nat size - 4) (c_in c1)), c1\<lparr>c_in := drop (nat size - 4) (c_in c1)\<rparr>)"
      using False by (simp add: run io_ReadFull_enough [OF le])
    ultimately show ?thesis
      using False by (simp add: size_def [symmetric] c1_def Let_def)
  qed
qed

theorem readWireMessage_frames_witness:
  "\<exists>c c'. c_in c = [6, 0, 0, 0, 1, 2, 3] \<and> readWireMessage c = (Ok [6, 0, 0, 0, 1, 2], c') \<and> c_in c' = [3]"
proof -
  define c :: connection where "c = undefined\<lparr>c_in := [6, 0, 0, 0, 1, 2, 3]\<rparr>"
  have "sint (wire_size (take 4 (c_in c))) = 6" by (simp add: c_def wire_size_def)
  moreover obtain r c' where "readWireMessage c = (r, c')" by fastforce
  ultimately show ?thesis using readWireMessage_frames [of c]
    by (intro exI [of _ c] exI [of _ c']) (simp add: c_def)
qed

section \<open>The database of a message\<close>

text \<open>
  The database of an \<open>OP_MSG\<close> is in its \<open>$db\<close> field, and the collection stands alone. Yet a
  collection whose name has a dot, such as \<open>fs.files\<close> of GridFS, is taken for a qualified name:
  what stands before the dot is the database the operation is routed by, whatever \<open>$db\<close> says.
\<close>

theorem dotted_collection_misroutes:
  assumes "snd (om_CommandAndCollection (methods w (Op_Msg m))) = p @ ''.'' @ q" and "p \<noteq> ''''" and "CHR ''.'' \<notin> set p"
  shows "fst (connection_extractDatabaseName (methods w (Op_Msg m)) c) = ToLower p"
proof -
  have "ToLower p \<noteq> ''''" using assms(2) by simp
  moreover have "CI_Database (ParseCollectionName (p @ CHR ''.'' # q)) = ToLower p"
    using assms(3) by (simp add: ParseCollectionName_def NormalizeDatabaseName_def SplitN2_single Let_def)
  ultimately show ?thesis
    using assms(1) by (simp add: connection_extractDatabaseName_def extracted_database_def NormalizeDatabaseName_def Let_def)
qed

definition gridfs_wire :: wire where
  "gridfs_wire = std_wire\<lparr>Lookup := \<lambda>doc path. if path = [''find''] then VString ''fs.files''
     else if path = [''$db''] then VString ''app'' else VMissing\<rparr>"

definition gridfs_find :: opMsg where
  "gridfs_find = \<lparr>m_reqID = 1, m_flags = 0, m_sections = [opMsgSectionSingle [5, 0, 0, 0, 0]], m_checksum = 0\<rparr>"

theorem dotted_collection_misroutes_witness:
  "om_DatabaseName (methods gridfs_wire (Op_Msg gridfs_find)) = ''app'' \<and>
   (\<exists>c. fst (connection_extractDatabaseName (methods gridfs_wire (Op_Msg gridfs_find)) c) = ''fs'')"
proof
  show "om_DatabaseName (methods gridfs_wire (Op_Msg gridfs_find)) = ''app''"
    by (simp add: opMsg_methods_def gridfs_find_def gridfs_wire_def)
  have "snd (om_CommandAndCollection (methods gridfs_wire (Op_Msg gridfs_find))) = ''fs'' @ ''.'' @ ''files''"
    by (simp add: opMsg_methods_def gridfs_find_def gridfs_wire_def doc_CommandAndCollection_def collectionCommands_def)
  from dotted_collection_misroutes [OF this]
  have "fst (connection_extractDatabaseName (methods gridfs_wire (Op_Msg gridfs_find)) undefined) = ToLower ''fs''" by simp
  moreover have "ToLower ''fs'' = ''fs''" by code_simp
  ultimately show "\<exists>c. fst (connection_extractDatabaseName (methods gridfs_wire (Op_Msg gridfs_find)) c) = ''fs''" by metis
qed

section \<open>Forwarded requests\<close>

text \<open>
  The answer to a request that was forwarded to another instance does not reach the client:
  it is decoded to a message without bytes, and what is written to the client is empty.
\<close>

theorem forwarded_response_is_lost:
  assumes "forward E (methods (e_wire E) op) W = Some (Some (Inr res), W')"
  shows "roundTripWithPool E wm op db a c W = Some (Ok res, W') \<and> concat (c_out (snd (conn_Write (Wm res) c))) = concat (c_out c)"
proof -
  have "Wm res = []"
    using assms by (auto simp: forward_def Let_def split: option.splits if_splits sum.splits prod.splits)
  then show ?thesis
    using assms by (simp add: roundTripWithPool_def conn_Write_def Let_def split: list.split option.split)
qed

text \<open>The example with the location of the session in the shared cache.\<close>

definition shared_world :: "(string \<rightharpoonup> json \<times> time, unit, unit) world" where
  "shared_world = example_world\<lparr>w_forwarder := Some (NewRequestForwarder example_config),
     w_sm := (NewSessionManager, snd (rf_StoreSessionLocation map_group 0 ''07'' ''p'' 1 (Some example_dc)))\<rparr>"

lemma shared_world_forwards:
  "\<exists>res W'. forward (example_env example_wire) (methods example_wire (example_op 0 False)) shared_world = Some (Some (Inr res), W')"
proof -
  let ?dc = "snd (rf_StoreSessionLocation map_group 0 ''07'' ''p'' 1 (Some example_dc))"
  have a: "dc_active (Some example_dc)" "sessionLocationGroup (the (Some example_dc)) = Some Map.empty"
    by (simp_all add: dc_active_def IsEnabled_def example_dc_def)
  have "set_get_law map_group" using map_group_laws by (simp add: group_laws_def)
  from active_location [OF this a, of "''07''" "''p''" 1 0 0]
  have loc: "fst (getSessionLocation map_group 0 ''07'' ?dc) = Some (''p'', 1)" by (simp add: map_group_def example_dc_def)
  have td: "om_TransactionDetails (methods example_wire (example_op 0 False)) = Some (example_td False)"
    by (simp add: example_methods)
  have id: "hex_encode (LsID (example_td False)) = ''07''"
    by (simp add: example_td_def hex_encode_def hex_digit_def char_of_def bit_Suc_0_iff)
  let ?req = "om_Encode (methods example_wire (example_op 0 False)) (om_RequestID (methods example_wire (example_op 0 False)))"
  have "fst (forwardToPod echo_network ?req ''p'' 1 (NewRequestForwarder example_config) ()) =
      Inr [16, 0, 0, 0, 1, 0, 0, 0, 2, 0, 0, 0, 99, 0, 0, 0]"
    by (simp add: forwardToPod_def getPodConnection_def healthy_entry_def createConnection_def NewRequestForwarder_def
        example_config_def echo_network_def Let_def)
  with loc have "fst (ForwardRequest map_group echo_network ''07'' ?req (NewRequestForwarder example_config, ?dc, ())) =
      Inr (Some [16, 0, 0, 0, 1, 0, 0, 0, 2, 0, 0, 0, 99, 0, 0, 0])"
    by (auto simp: ForwardRequest_def hasLocalSession_def echo_network_def split: prod.splits)
  moreover have "\<exists>op. Decode example_wire [16, 0, 0, 0, 1, 0, 0, 0, 2, 0, 0, 0, 99, 0, 0, 0] = Some (Inr op)"
    by (simp add: Decode_def example_wire_def std_wire_def std_read_def readi32_def Let_def)
  ultimately show ?thesis
    using td id by (auto simp: forward_def shared_world_def example_env_def example_world_def Let_def split: prod.splits)
qed

theorem forwarded_response_is_lost_witness:
  "\<exists>res W'. roundTripWithPool (example_env example_wire) [] (example_op 0 False) ''app'' 0 example_connection shared_world = Some (Ok res, W') \<and>
     concat (c_out (snd (conn_Write (Wm res) example_connection))) = []"
proof -
  obtain res W' where "forward (example_env example_wire) (methods example_wire (example_op 0 False)) shared_world = Some (Some (Inr res), W')"
    using shared_world_forwards by blast
  then have "forward (example_env example_wire) (methods (e_wire (example_env example_wire)) (example_op 0 False)) shared_world = Some (Some (Inr res), W')"
    by (simp add: example_env_def)
  from forwarded_response_is_lost [OF this, of "[]" "''app''" 0 example_connection] show ?thesis
    by (intro exI [of _ res] exI [of _ W']) (simp add: example_connection_def)
qed

section \<open>The pool's client\<close>

lemma forward_pool: "forward E om W = Some (r, W') \<Longrightarrow> w_pool W' = w_pool W"
  by (auto simp: forward_def Let_def split: option.splits if_splits sum.splits prod.splits)

lemma UnregisterClient_pools [simp]: "pools (UnregisterClient now cid m) = pools m"
  by (simp add: UnregisterClient_def return_held_def ReturnOwn_def Return_def Let_def split: option.split)

lemma RegisterClient_pools [simp]: "pools (snd (RegisterClient now cid user db mode m)) = pools m"
  by (simp add: RegisterClient_def Let_def split: option.split)

lemma reregister_pools [simp]: "pools (w_pool (snd (reregister E db c W))) = pools (w_pool W)"
  by (simp add: reregister_def Let_def case_prod_beta split: option.split)

lemma GetConnection_same_pool:
  assumes "pools m db = Some p"
  shows "GetConnection now cid db mc isTxn txn m = GetConnection now cid db mc' isTxn txn m"
  using assms by (simp add: GetConnection_def GetPool_def set_client_def Let_def split: option.split)

text \<open>
  Once a database has a pool, its operations go through the client the pool was made with:
  which client the route has by then makes no difference. After a connection error the
  route's client is dropped and made anew, but the pool goes on with the one that failed.
\<close>

theorem pool_keeps_first_client:
  assumes "pools (w_pool W) (if db = '''' then ''default'' else db) = Some p"
  shows "roundTripWithPool E wm op db a c W = roundTripWithPool E wm op db b c W"
proof -
  let ?db = "if db = '''' then ''default'' else db"
  have "GetConnection now cid ?db (Some a) isTxn txn (w_pool W2) = GetConnection now cid ?db (Some b) isTxn txn (w_pool W2)"
    if "forward E (methods (e_wire E) op) W = Some (f, W1)" "reregister E ?db c W1 = (r, W2)" for f W1 r W2 now cid isTxn txn
  proof -
    have "pools (w_pool W2) ?db = Some p"
      using assms forward_pool [OF that(1)] reregister_pools [of E ?db c W1] that(2) by simp
    from GetConnection_same_pool [OF this] show ?thesis by blast
  qed
  note same = this
  show ?thesis
  proof (cases "forward E (methods (e_wire E) op) W")
    case (Some fw)
    obtain f W1 where f: "forward E (methods (e_wire E) op) W = Some (f, W1)" using Some by (cases fw) auto
    obtain r W2 where r: "reregister E ?db c W1 = (r, W2)" by fastforce
    show ?thesis
      using f r same [OF f r] by (cases "db = []"; cases r; cases f) (simp_all add: roundTripWithPool_def Let_def)
  qed (simp add: roundTripWithPool_def)
qed

theorem pool_keeps_first_client_witness:
  "roundTripWithPool (example_env gridfs_wire) [] (Op_Msg gridfs_find) ''app'' 1 example_connection
     (example_world\<lparr>w_pool := snd (GetPool 0 ''app'' (Some 0) [] (w_pool example_world))\<rparr>) =
   roundTripWithPool (example_env gridfs_wire) [] (Op_Msg gridfs_find) ''app'' 2 example_connection
     (example_world\<lparr>w_pool := snd (GetPool 0 ''app'' (Some 0) [] (w_pool example_world))\<rparr>)"
  by (rule pool_keeps_first_client [where p = 0]) (simp add: GetPool_def example_world_def NewManager_def Let_def)

section \<open>Authentication\<close>

lemma GetRoute_snd:
  "snd (GetRoute ext now db r) =
     (case fst (GetRoute_cached now db r) of
        Some _ \<Rightarrow> snd (GetRoute_cached now db r)
      | None \<Rightarrow> snd (GetRoute_resolve ext now db (snd (GetRoute_cached now db r))))"
  by (simp add: GetRoute_def split: prod.split option.split)

lemma GetRoute_resolve_frame [simp]:
  "GetRoute_uncached ext n (snd (GetRoute_resolve ext now x r)) = GetRoute_uncached ext n r"
  by (simp add: GetRoute_resolve_def GetRoute_uncached_def Let_def split: option.split)

lemma router_GetRoute_coherent:
  assumes "cache_coherent (e_regexp E) (w_router W)" and "router_GetRoute E db W = (r, W')"
  shows "r = (case GetRoute_uncached (e_regexp E) (ToLower db) (w_router W) of
      None \<Rightarrow> Inl (''no route found for database: '' @ db) | Some x \<Rightarrow> Inr x)"
    and "cache_coherent (e_regexp E) (w_router W')"
    and "GetRoute_uncached (e_regexp E) n (w_router W') = GetRoute_uncached (e_regexp E) n (w_router W)"
    and "w_routes W' = w_routes W"
proof -
  obtain router where g: "GetRoute (e_regexp E) (w_now E W) db (w_router W) = (r, router)" and W': "W' = W\<lparr>w_router := router\<rparr>"
    using assms(2) by (auto simp: router_GetRoute_def split: prod.splits)
  show "r = (case GetRoute_uncached (e_regexp E) (ToLower db) (w_router W) of
      None \<Rightarrow> Inl (''no route found for database: '' @ db) | Some x \<Rightarrow> Inr x)"
    using GetRoute_coherent [OF assms(1), of "w_now E W" db] g by simp
  have W'': "w_router W' = snd (GetRoute (e_regexp E) (w_now E W) db (w_router W))" using g by (simp add: W')
  show "cache_coherent (e_regexp E) (w_router W')"
    unfolding W'' GetRoute_snd
    by (simp add: coherent_cached [OF assms(1)] coherent_resolve split: option.split)
  show "GetRoute_uncached (e_regexp E) n (w_router W') = GetRoute_uncached (e_regexp E) n (w_router W)"
    unfolding W'' GetRoute_snd by (simp split: option.split)
  show "w_routes W' = w_routes W" by (simp add: W')
qed

lemma extract_keeps:
  assumes "connection_extractDatabaseName om c = (db, c')"
  shows "authEnabled c' = authEnabled c" "clientUsername c' = clientUsername c" "clientPassword c' = clientPassword c"
    "regexCredentialPassthrough c' = regexCredentialPassthrough c" "clientID c' = clientID c" "c_in c' = c_in c" "c_out c' = c_out c"
  using assms by (auto simp: connection_extractDatabaseName_def Let_def split: if_splits)

text \<open>
  C6. With authentication, a handshake on a connection that has no credentials yet is only
  answered when the application name carries credentials and a database that has a route,
  and either the route is a pattern, or these are the credentials in its connection string.
  The credentials are then those of the connection.
\<close>

theorem handshake_requires_credentials:
  assumes "connection_roundTrip E wm op c W = Some (Ok m, c', W')" and "is_handshake (methods (e_wire E) op)"
    and "authEnabled c" and "clientUsername c = ''''" and "cache_coherent (e_regexp E) (w_router W)"
  shows "\<exists>db u p a r. parseAppNameCredentials (extractAppNameFromMessage (om_String (methods (e_wire E) op))) = Inr (db, u, p, a) \<and>
     GetRoute_uncached (e_regexp E) (ToLower db) (w_router W) = Some r \<and> clientUsername c' = u \<and> clientPassword c' = p \<and>
     (isWildcardOrRegexMatch db (w_routes W r) \<or> extractCredentialsFromConnectionString E (ConnectionString (w_routes W r)) = Inr (u, p))"
proof -
  let ?om = "methods (e_wire E) op"
  obtain dbn c1 where x: "connection_extractDatabaseName ?om c = (dbn, c1)" by fastforce
  note k = extract_keeps [OF x]
  from assms(1,2) x have "handshake E ?om c1 W = (Ok m, c', W')" by (simp add: connection_roundTrip_def Let_def)
  then obtain t where auth: "authenticate E ?om c1 W = (Ok t, c', W')"
    using assms(3,4) k by (auto simp: handshake_def split: outcome.splits prod.splits sum.splits)
  then obtain db u p a where creds: "parseAppNameCredentials (extractAppNameFromMessage (om_String ?om)) = Inr (db, u, p, a)"
    by (auto simp: authenticate_def Let_def split: if_splits sum.splits)
  from auth creds obtain r W1 where r: "router_GetRoute E db W = (Inr r, W1)"
    by (auto simp: authenticate_def Let_def split: if_splits sum.splits prod.splits)
  note co = router_GetRoute_coherent [OF assms(5) r]
  have un: "GetRoute_uncached (e_regexp E) (ToLower db) (w_router W) = Some r"
    using co(1) by (auto split: option.splits)
  show ?thesis
  proof (cases "DatabaseName (w_routes W1 r) = db")
    case False
    then have "isWildcardOrRegexMatch db (w_routes W r)" using co(4) by (simp add: isWildcardOrRegexMatch_def Let_def)
    moreover have "clientUsername c' = u \<and> clientPassword c' = p"
      using auth creds r False by (auto simp: authenticate_def Let_def split: if_splits option.splits)
    ultimately show ?thesis using creds un by blast
  next
    case True
    have v: "\<exists>t. validateCredentialsAgainstDatabase E u p db db c1 W1 = (None, c', W')"
      using auth creds r True by (auto simp: authenticate_def Let_def split: if_splits option.splits prod.splits)
    obtain r2 W2 where r2: "router_GetRoute E db W1 = (Inr r2, W2)"
      using v by (auto simp: validateCredentialsAgainstDatabase_def split: prod.splits sum.splits)
    note co2 = router_GetRoute_coherent [OF co(2) r2]
    have "r2 = r" using co2(1) co(3) un by simp
    then have "clientUsername c' = u \<and> clientPassword c' = p \<and>
        (isWildcardOrRegexMatch db (w_routes W r) \<or> extractCredentialsFromConnectionString E (ConnectionString (w_routes W r)) = Inr (u, p))"
      using v r2 co(4) co2(4) by (auto simp: validateCredentialsAgainstDatabase_def Let_def split: if_splits sum.splits prod.splits)
    then show ?thesis using creds un by blast
  qed
qed

text \<open>The functions on the way of an operation that is not a handshake do not look at the flag.\<close>

lemma auth_blind [simp]:
  "credentialKey (c\<lparr>authEnabled := b\<rparr>) = credentialKey c"
  "new_client E (c\<lparr>authEnabled := b\<rparr>) = new_client E c"
  "createLazyMongoClient E (c\<lparr>authEnabled := b\<rparr>) = createLazyMongoClient E c"
  "credential_connection_string E (c\<lparr>authEnabled := b\<rparr>) = credential_connection_string E c"
  "cached_credential_client E (c\<lparr>authEnabled := b\<rparr>) = cached_credential_client E c"
  "createMongoClientWithCredentials E (c\<lparr>authEnabled := b\<rparr>) = createMongoClientWithCredentials E c"
  "getOrCreateCredentialClient E (c\<lparr>authEnabled := b\<rparr>) = getOrCreateCredentialClient E c"
  "use_passthrough E db route (c\<lparr>authEnabled := b\<rparr>) = use_passthrough E db route c"
  "reregister E db (c\<lparr>authEnabled := b\<rparr>) = reregister E db c"
  "roundTripWithPool E wm op db a (c\<lparr>authEnabled := b\<rparr>) = roundTripWithPool E wm op db a c"
proof -
  have sel: "clientID (c\<lparr>authEnabled := b\<rparr>) = clientID c" "clientUsername (c\<lparr>authEnabled := b\<rparr>) = clientUsername c" by simp_all
  show k: "credentialKey (c\<lparr>authEnabled := b\<rparr>) = credentialKey c" by (simp add: credentialKey_def)
  show n: "new_client E (c\<lparr>authEnabled := b\<rparr>) = new_client E c" by (simp add: new_client_def fun_eq_iff Let_def)
  show "createLazyMongoClient E (c\<lparr>authEnabled := b\<rparr>) = createLazyMongoClient E c"
    by (intro ext) (unfold createLazyMongoClient_def n, rule refl)
  show s: "credential_connection_string E (c\<lparr>authEnabled := b\<rparr>) = credential_connection_string E c"
    by (simp add: credential_connection_string_def fun_eq_iff Let_def)
  show d: "cached_credential_client E (c\<lparr>authEnabled := b\<rparr>) = cached_credential_client E c"
    by (intro ext) (unfold cached_credential_client_def k, rule refl)
  show m: "createMongoClientWithCredentials E (c\<lparr>authEnabled := b\<rparr>) = createMongoClientWithCredentials E c"
    by (intro ext) (unfold createMongoClientWithCredentials_def k n s d, rule refl)
  show "getOrCreateCredentialClient E (c\<lparr>authEnabled := b\<rparr>) = getOrCreateCredentialClient E c"
    by (intro ext) (unfold getOrCreateCredentialClient_def d m, rule refl)
  show "use_passthrough E db route (c\<lparr>authEnabled := b\<rparr>) = use_passthrough E db route c"
    by (simp add: use_passthrough_def Let_def)
  have r: "reregister E d (c\<lparr>authEnabled := b\<rparr>) = reregister E d c" for d
    by (intro ext) (unfold reregister_def sel, rule refl)
  show "reregister E db (c\<lparr>authEnabled := b\<rparr>) = reregister E db c" by (rule r)
  show "roundTripWithPool E wm op db a (c\<lparr>authEnabled := b\<rparr>) = roundTripWithPool E wm op db a c"
    by (intro ext) (unfold roundTripWithPool_def r sel, rule refl)
qed

lemma extract_blind:
  "connection_extractDatabaseName om (c\<lparr>authEnabled := b\<rparr>) =
     map_prod id (\<lambda>c. c\<lparr>authEnabled := b\<rparr>) (connection_extractDatabaseName om c)"
  by (simp add: connection_extractDatabaseName_def Let_def)

lemma route_blind:
  "route_operation E db (c\<lparr>authEnabled := b\<rparr>) W =
     (case route_operation E db c W of (res, c', W') \<Rightarrow> (res, c'\<lparr>authEnabled := b\<rparr>, W'))"
proof -
  have move: "c\<lparr>authEnabled := b, routeConfig := x, intendedDatabase := y\<rparr> = c\<lparr>routeConfig := x, intendedDatabase := y, authEnabled := b\<rparr>"
    "c\<lparr>routeConfig := x, intendedDatabase := y, authEnabled := b, isUsingCredentialPassthrough := z\<rparr> =
     c\<lparr>routeConfig := x, intendedDatabase := y, isUsingCredentialPassthrough := z, authEnabled := b\<rparr>" for x y z by simp_all
  show ?thesis
    unfolding route_operation_def Let_def move auth_blind
    by (simp split: prod.split sum.split outcome.split option.split del: connection.update_convs)
qed

text \<open>
  C27. Only handshake commands are authenticated: a connection with authentication treats every
  other operation exactly as one without does, also when the client never sent a handshake.
\<close>

theorem operations_are_not_authenticated:
  assumes "\<not> is_handshake (methods (e_wire E) op)"
  shows "connection_roundTrip E wm op (c\<lparr>authEnabled := True\<rparr>) W =
     map_option (\<lambda>(res, c', W'). (res, c'\<lparr>authEnabled := True\<rparr>, W')) (connection_roundTrip E wm op (c\<lparr>authEnabled := False\<rparr>) W)"
proof -
  let ?om = "methods (e_wire E) op"
  obtain db c1 where x: "connection_extractDatabaseName ?om c = (db, c1)" by fastforce
  obtain res c2 W2 where r: "route_operation E db c1 W = (res, c2, W2)" by (metis prod_cases3)
  show ?thesis
    using assms x r by (cases res) (auto simp: connection_roundTrip_def Let_def extract_blind route_blind split: option.split)
qed

theorem operations_are_not_authenticated_witness:
  "connection_roundTrip (example_env gridfs_wire) [] (Op_Msg gridfs_find) (example_connection\<lparr>authEnabled := True\<rparr>) example_world =
   map_option (\<lambda>(res, c', W'). (res, c'\<lparr>authEnabled := True\<rparr>, W'))
     (connection_roundTrip (example_env gridfs_wire) [] (Op_Msg gridfs_find) (example_connection\<lparr>authEnabled := False\<rparr>) example_world)"
proof (rule operations_are_not_authenticated)
  show "\<not> is_handshake (methods (e_wire (example_env gridfs_wire)) (Op_Msg gridfs_find))"
    by (simp add: is_handshake_def example_env_def opMsg_methods_def gridfs_find_def gridfs_wire_def doc_CommandAndCollection_def
        collectionCommands_def)
qed

definition quoted :: "string \<Rightarrow> string" where
  "quoted s = [CHR 0x22] @ s @ [CHR 0x22]"

definition hello_wire :: wire where
  "hello_wire = std_wire\<lparr>Lookup := \<lambda>doc path. if path = [''isMaster''] then VBoolean True
     else if path = [''$db''] then VString ''admin'' else VMissing,
     docString := \<lambda>_. ''application '' @ quoted ''name'' @ '': '' @ quoted ''app:u:p''\<rparr>"

lemma hello_text:
  "extractAppNameFromMessage (om_String (methods hello_wire (Op_Msg gridfs_find))) = ''app:u:p''"
proof -
  have "om_String (methods hello_wire (Op_Msg gridfs_find)) =
      ''{ OpMsg flags: 0, sections: [{ SectionSingle msg: application '' @ quoted ''name'' @ '': '' @ quoted ''app:u:p'' @ '' }], checksum: 0 }''"
    by (simp add: opMsg_methods_def gridfs_find_def hello_wire_def comma_separated_def show_nat.simps digit_char_def char_of_def bit_Suc_0_iff)
  then show ?thesis by (simp add: extractAppNameFromMessage_def quoted_def Contains_def HasPrefix_def)
qed

lemma hello_credentials: "parseAppNameCredentials ''app:u:p'' = Inr (''app'', ''u'', ''p'', ''admin'')"
  by code_simp

lemma hello_route: "GetRoute_uncached ext ''app'' (AddRoute ''app'' 0 NewDatabaseRouter) = Some 0"
  by (simp add: GetRoute_uncached_def AddRoute_def NewDatabaseRouter_def NormalizeDatabaseName_def ToLower_def lower_char_def Let_def)

lemma example_route_credentials: "extractCredentialsFromConnectionString E (ConnectionString example_route) = Inr (''u'', ''p'')"
  by (simp add: extractCredentialsFromConnectionString_def example_route_def url_Parse_def HasPrefix_def TrimPrefix_def cut_def
      plain_query_def url_plain_def plain_user_def plain_host_def)

lemma hello_methods:
  "om_IsIsMaster (methods hello_wire (Op_Msg gridfs_find))" "is_handshake (methods hello_wire (Op_Msg gridfs_find))"
proof -
  show "om_IsIsMaster (methods hello_wire (Op_Msg gridfs_find))"
    by (simp add: opMsg_methods_def gridfs_find_def hello_wire_def IsIsMasterDoc_def IsIsMasterValueTruthy_def)
  then show "is_handshake (methods hello_wire (Op_Msg gridfs_find))" by (simp add: is_handshake_def split: prod.split)
qed

lemma example_router: "cache_coherent ext (w_router example_world)"
  by (simp add: example_world_def coherent_AddRoute)

lemma example_GetRoute:
  assumes "cache_coherent (e_regexp (example_env w)) (w_router W)" and "w_routes W = (\<lambda>_. example_route)"
    and "GetRoute_uncached (e_regexp (example_env w)) ''app'' (w_router W) = Some 0"
  shows "\<exists>W'. router_GetRoute (example_env w) ''app'' W = (Inr 0, W') \<and> cache_coherent (e_regexp (example_env w)) (w_router W') \<and>
    w_routes W' = (\<lambda>_. example_route) \<and> GetRoute_uncached (e_regexp (example_env w)) ''app'' (w_router W') = Some 0"
proof -
  obtain r W' where r: "router_GetRoute (example_env w) ''app'' W = (r, W')" by fastforce
  have "ToLower ''app'' = ''app''" by code_simp
  with router_GetRoute_coherent [OF assms(1) r] r assms show ?thesis by (intro exI [of _ W']) simp
qed

lemma hello_answered:
  "\<exists>m c' W'. connection_roundTrip (example_env hello_wire) [] (Op_Msg gridfs_find) example_connection example_world = Some (Ok m, c', W')"
proof -
  let ?E = "example_env hello_wire" and ?om = "methods hello_wire (Op_Msg gridfs_find)"
  obtain db c1 where x: "connection_extractDatabaseName ?om example_connection = (db, c1)" by fastforce
  note k = extract_keeps [OF x]
  have c1: "authEnabled c1" "clientUsername c1 = []" using k by (simp_all add: example_connection_def)
  obtain W1 where W1: "router_GetRoute ?E ''app'' example_world = (Inr 0, W1)" "cache_coherent (e_regexp ?E) (w_router W1)"
      "w_routes W1 = (\<lambda>_. example_route)" "GetRoute_uncached (e_regexp ?E) ''app'' (w_router W1) = Some 0"
    using example_GetRoute [OF example_router] hello_route by (auto simp: example_world_def)
  obtain W2 where W2: "router_GetRoute ?E ''app'' W1 = (Inr 0, W2)" "w_routes W2 = (\<lambda>_. example_route)"
    using example_GetRoute [OF W1(2-4)] by blast
  have "isWildcardOrRegexMatch ''app'' example_route = False" by (simp add: isWildcardOrRegexMatch_def example_route_def)
  then have "\<exists>c2. validateCredentialsAgainstDatabase ?E ''u'' ''p'' ''app'' ''app'' c1 W1 = (None, c2, W2)"
    using W2 example_route_credentials [of ?E] by (simp add: validateCredentialsAgainstDatabase_def)
  then obtain c2 where c2: "validateCredentialsAgainstDatabase ?E ''u'' ''p'' ''app'' ''app'' c1 W1 = (None, c2, W2)" by blast
  have "DatabaseName example_route = ''app''" "DatabaseConfig example_route = Some zero_client_config"
      "Topology zero_client_config = None"
    by (simp_all add: example_route_def zero_client_config_def)
  with c2 W1 have auth: "authenticate ?E ?om c1 example_world = (Ok Sharded, c2, W2)"
    by (simp add: authenticate_def hello_text hello_credentials del: methods.simps)
  have "\<exists>m. handshake_response ?E ?om Sharded W2 = Inr m"
    by (simp del: methods.simps add: handshake_response_def hello_methods IsMasterResponse_def isMasterDocument_def example_env_def Let_def split: prod.split)
  then obtain m where "handshake_response ?E ?om Sharded W2 = Inr m" by blast
  with auth c1 have "handshake ?E ?om c1 example_world = (Ok m, c2, W2)" by (simp add: handshake_def)
  moreover have "methods (e_wire ?E) (Op_Msg gridfs_find) = ?om" by (simp add: example_env_def)
  ultimately show ?thesis using x hello_methods(2) by (simp add: connection_roundTrip_def Let_def del: methods.simps)
qed

theorem handshake_requires_credentials_witness:
  "\<exists>m c' W'. connection_roundTrip (example_env hello_wire) [] (Op_Msg gridfs_find) example_connection example_world = Some (Ok m, c', W') \<and>
     clientUsername c' = ''u'' \<and> clientPassword c' = ''p''"
proof -
  let ?E = "example_env hello_wire"
  have w: "e_wire ?E = hello_wire" by (simp add: example_env_def)
  obtain m c' W' where run: "connection_roundTrip ?E [] (Op_Msg gridfs_find) example_connection example_world = Some (Ok m, c', W')"
    using hello_answered by blast
  have "is_handshake (methods (e_wire ?E) (Op_Msg gridfs_find))" "authEnabled example_connection" "clientUsername example_connection = []"
    using hello_methods by (simp_all add: w example_connection_def del: methods.simps)
  from handshake_requires_credentials [OF run this example_router] run show ?thesis
    by (auto simp: w hello_text hello_credentials simp del: methods.simps)
qed

section \<open>The answers to the handshake\<close>

text \<open>What the proxy relies on: \<^verbatim>\<open>bson.Marshal\<close> makes documents.\<close>

definition marshals_documents :: "wire \<Rightarrow> marshal \<Rightarrow> bool" where
  "marshals_documents w Marshal \<longleftrightarrow> (\<forall>d doc. Marshal d = Inr doc \<longrightarrow> is_document w doc)"

text \<open>
  C29. Whatever handshake command is answered, and with whatever topology, the bytes of the
  answer decode to the reply they were made of, which has one document; an
  \<^verbatim>\<open>isMaster\<close> is only answered with one of the three topologies a configuration can name.
\<close>

theorem handshake_answers_decode:
  assumes "wire_laws (e_wire E)" and "marshals_documents (e_wire E) (e_Marshal E)" and "handshake_response E om topology W = Inr m"
    and "length (Wm m) < 2 ^ 31"
  shows "\<exists>r. Op m = Some (Op_Reply r) \<and> length (r_documents r) = 1 \<and> Decode (e_wire E) (Wm m) = Some (Inr (Op_Reply r)) \<and>
    (om_IsIsMaster om \<longrightarrow> topology \<in> {Single, Sharded, LoadBalanced})"
proof -
  obtain flags doc d where m: "m = reply_message (e_wire E) flags (om_RequestID om) doc" and d: "e_Marshal E d = Inr doc"
    using assms(3)
    by (auto simp: handshake_response_def IsMasterResponse_def isMasterDocument_def BuildInfoResponse_def ErrorResponse_def GetParameterResponse_def
        EmptyCursorResponse_def Let_def split: prod.splits if_splits sum.splits TopologyKind.splits)
  have "is_document (e_wire E) doc" using assms(2) d by (auto simp: marshals_documents_def)
  from reply_message_decodes [OF assms(1) this] assms(4) m have
    "\<exists>r. Op m = Some (Op_Reply r) \<and> length (r_documents r) = 1 \<and> Decode (e_wire E) (Wm m) = Some (Inr (Op_Reply r))" by fastforce
  moreover have "topology \<in> {Single, Sharded, LoadBalanced}" if "om_IsIsMaster om"
    using that assms(3) by (cases topology) (auto simp: handshake_response_def IsMasterResponse_def isMasterDocument_def Let_def split: prod.splits)
  ultimately show ?thesis by blast
qed

theorem handshake_answers_decode_witness:
  "\<exists>om m r. om_IsIsMaster om \<and> handshake_response (example_env std_wire) om Sharded example_world = Inr m \<and>
     Decode std_wire (Wm m) = Some (Inr (Op_Reply r))"
proof -
  let ?E = "example_env std_wire"
  obtain om :: Operation_methods where om: "om_IsIsMaster om" by (meson Operation_methods.select_convs)
  obtain m where m: "handshake_response ?E om Sharded example_world = Inr m" "length (Wm m) = 41"
    using om by (auto simp: handshake_response_def IsMasterResponse_def isMasterDocument_def example_env_def reply_message_def opReply_Encode_def
        std_wire_def std_append_def setLength_def appendi32_def appendi64_def Let_def split: prod.split)
  have "marshals_documents (e_wire ?E) (e_Marshal ?E)"
    by (simp add: marshals_documents_def example_env_def is_document_std read_document_def readi32_def)
  from handshake_answers_decode [OF _ this m(1)] m om std_wire_laws show ?thesis by (auto simp: example_env_def)
qed

end
