(* ===== verification/Passthrough.thy ===== *)
theory Passthrough
  imports Serving
begin

text \<open>
  The clients that are made with the credentials of the users, shared by all connections
  through the cache of a route: whatever messages the connections exchange, in any
  interleaving of whole messages, a connection only gets a client with its own credentials.
\<close>

section \<open>The connection string of a client does not change\<close>

abbreviation uri :: "('g, 'd) rt_state \<Rightarrow> string" where
  "uri st \<equiv> mg_uri (rt_mongo st)"

lemma uri_simple [simp]:
  "uri (trace e st) = uri st" "uri (put_cache_dc dc st) = uri st" "uri (processError da err s cn st) = uri st"
  "uri (wait da k st) = uri st" "uri (close_conn da cn st) = uri st" "uri (with_sm f st) = uri st"
  by (simp_all add: trace_def put_cache_dc_def processError_def wait_def close_conn_def with_sm_def Let_def)

lemma uri_run_deferred [simp]: "uri (run_deferred da d st) = uri st"
  by (cases d) (simp_all split: option.split)

lemma uri_run_deferreds [simp]: "uri (fold (run_deferred da) ds st) = uri st"
  by (induction ds arbitrary: st) simp_all

lemma uri_CheckHealth [simp]: "uri (snd (CheckHealth da st)) = uri st"
  by (simp add: CheckHealth_def Let_def split: option.split prod.split)

lemma uri_record [simp]:
  "uri (record_cursor api da rq r s st) = uri st" "uri (record_transaction api da rq s st) = uri st"
  by (simp_all add: record_cursor_def record_transaction_def Let_def split: option.split prod.split)

lemma uri_retry: "retry da k err st = (r, st') \<Longrightarrow> uri st' = uri st"
  by (auto simp: retry_def split: if_splits)

lemma uri_selectServer: "selectServer api da i col td st = (r, st') \<Longrightarrow> uri st' = uri st"
  by (auto simp: selectServer_def Let_def split: option.splits prod.splits if_splits)

lemma uri_attempt_server: "attempt_server api da k rq session st = (r, st') \<Longrightarrow> uri st' = uri st"
  by (auto simp: attempt_server_def split: option.splits prod.splits sum.splits dest!: uri_selectServer uri_retry)

lemma uri_checkoutConnection: "checkoutConnection da s db session st = (r, st') \<Longrightarrow> uri st' = uri st"
  by (auto simp: checkoutConnection_def split: option.splits prod.splits sum.splits)

lemma uri_roundTrip: "roundTrip da cn req ua st = (r, st') \<Longrightarrow> uri st' = uri st"
  by (auto simp: roundTrip_def Let_def split: option.splits prod.splits sum.splits if_splits)

lemma uri_transaction_control: "transaction_control api da rq session s cn st = (r, st') \<Longrightarrow> uri st' = uri st"
  by (auto simp: transaction_control_def Let_def split: option.splits prod.splits if_splits)

lemma uri_attempt_exchange:
  assumes "attempt_exchange w api da k rq s cn st = (r, st')"
  shows "uri st' = uri st"
proof -
  obtain x st1 where t: "roundTrip da cn (rq_wm rq) (rq_unacknowledged rq) st = (x, st1)" by fastforce
  from assms t uri_roundTrip [OF t] show ?thesis
    by (auto simp: attempt_exchange_def Let_def split: if_splits sum.splits option.splits dest: uri_retry)
qed

lemma uri_attempt:
  assumes "RoundTrip_attempt w api da k rq session ds st = (r, ds', st')"
  shows "uri st' = uri st"
proof -
  obtain x st1 where a: "attempt_server api da k rq session st = (x, st1)" by fastforce
  note u1 = uri_attempt_server [OF a]
  show ?thesis
  proof (cases "\<exists>s. x = Inr (Some s)")
    case True
    then obtain s where s: "x = Inr (Some s)" by blast
    obtain y st2 where b: "checkoutConnection da (Some s) (request_database rq) session st1 = (y, st2)" by fastforce
    note u2 = uri_checkoutConnection [OF b]
    show ?thesis
    proof (cases y)
      case (Inl err)
      with assms a s b u1 u2 show ?thesis by (auto simp: RoundTrip_attempt_def split: prod.splits dest: uri_retry)
    next
      case (Inr cn)
      obtain z st3 where c: "transaction_control api da rq session s cn st2 = (z, st3)" by fastforce
      with assms a s b Inr u1 u2 uri_transaction_control [OF c] show ?thesis
        by (auto simp: RoundTrip_attempt_def Let_def split: sum.splits prod.splits dest: uri_attempt_exchange)
    qed
  next
    case False
    with assms a u1 show ?thesis by (auto simp: RoundTrip_attempt_def split: sum.splits option.splits)
  qed
qed

lemma uri_find_session: "find_session api da rq st = (r, st') \<Longrightarrow> uri st' = uri st"
  by (auto simp: find_session_def Let_def split: option.splits prod.splits)

lemma uri_RoundTrip:
  assumes "RoundTrip w api da wm op st = Some (r, st')"
  shows "uri st' = uri st"
  using assms
proof (cases rule: RoundTrip_cases)
  case (loop session st1 ds st2)
  have "uri st2 = uri st1"
    by (rule RoundTrip_loop_inv [OF loop(3), where J = "\<lambda>_ s. uri s = uri st1"]) (auto simp: uri_attempt)
  moreover have "uri st1 = uri st"
    using uri_find_session [OF loop(2)] by (simp add: checked_def)
  ultimately show ?thesis using loop(4) by simp
qed auto

section \<open>The clients of the caches\<close>

text \<open>A client that was made with the user and the password of a key of the cache.\<close>

definition own_client :: "('g, 'd, 'n) world \<Rightarrow> string \<Rightarrow> mongo_ref \<Rightarrow> bool" where
  "own_client W k a \<longleftrightarrow> a < w_next W \<and> HasPrefix (mg_uri (w_mongos W a)) (''mongodb://'' @ k @ ''@'')"

definition credentials_kept :: "('g, 'd, 'n) world \<Rightarrow> bool" where
  "credentials_kept W \<longleftrightarrow> (\<forall>r ch. CredentialClients (w_routes W r) = Some ch \<longrightarrow> lru.holds (own_client W) ch)"

definition extends :: "('g, 'd, 'n) world \<Rightarrow> ('g, 'd, 'n) world \<Rightarrow> bool" where
  "extends W W' \<longleftrightarrow> w_next W \<le> w_next W' \<and> (\<forall>a < w_next W. mg_uri (w_mongos W' a) = mg_uri (w_mongos W a))"

definition keeps :: "('g, 'd, 'n) world \<Rightarrow> ('g, 'd, 'n) world \<Rightarrow> bool" where
  "keeps W W' \<longleftrightarrow> extends W W' \<and> (credentials_kept W \<longrightarrow> credentials_kept W')"

lemma own_client_extends: "extends W W' \<Longrightarrow> own_client W k a \<Longrightarrow> own_client W' k a"
  by (auto simp: own_client_def extends_def)

lemma holds_extends: "extends W W' \<Longrightarrow> lru.holds (own_client W) ch \<Longrightarrow> lru.holds (own_client W') ch"
  unfolding lru.holds_def using own_client_extends by blast

lemma extends_trans: "extends W W' \<Longrightarrow> extends W' W'' \<Longrightarrow> extends W W''"
  by (auto simp: extends_def)

lemma keeps_trans: "keeps W W' \<Longrightarrow> keeps W' W'' \<Longrightarrow> keeps W W''"
  unfolding keeps_def using extends_trans by blast

lemma keeps_same:
  assumes "extends W W'" and "\<And>r. CredentialClients (w_routes W' r) = CredentialClients (w_routes W r)"
  shows "keeps W W'"
  using assms holds_extends [OF assms(1)] unfolding keeps_def credentials_kept_def by metis

lemma keeps_frame [simp]:
  "keeps W W" "keeps W (W\<lparr>w_router := x\<rparr>)" "keeps W (W\<lparr>w_pool := m\<rparr>)" "keeps W (W\<lparr>w_drv := d\<rparr>)"
  "keeps W (RegisterMongoClient db a W)"
  "keeps W (W\<lparr>w_forwarder := f, w_sm := sm, w_net := n\<rparr>)"
  by (rule keeps_same; simp add: extends_def RegisterMongoClient_def)+

lemma keeps_set_route:
  "CredentialClients route = CredentialClients (w_routes W r) \<Longrightarrow> keeps W (set_route r route W)"
  by (rule keeps_same) (auto simp: extends_def set_route_def)

lemma keeps_set_cache:
  assumes "credentials_kept W \<Longrightarrow> lru.holds (own_client W) ch"
  shows "keeps W (set_route r (route\<lparr>CredentialClients := Some ch\<rparr>) W)"
proof -
  have e: "extends W (set_route r (route\<lparr>CredentialClients := Some ch\<rparr>) W)" by (simp add: extends_def set_route_def)
  moreover have "credentials_kept (set_route r (route\<lparr>CredentialClients := Some ch\<rparr>) W)" if "credentials_kept W"
    using that assms [OF that] holds_extends [OF e] by (auto simp: credentials_kept_def set_route_def split: if_splits)
  ultimately show ?thesis by (simp add: keeps_def)
qed

lemma router_keeps: "router_GetRoute E db W = (r, W') \<Longrightarrow> keeps W W'"
  by (auto simp: router_GetRoute_def split: prod.splits)

lemma new_client_keeps:
  assumes "new_client E c str route W = (r, W')"
  shows "keeps W W'" and "w_routes W' = w_routes W"
    and "\<And>a. r = Inr a \<Longrightarrow> a = w_next W \<and> w_next W' = Suc a \<and> mg_uri (w_mongos W' a) = str"
proof -
  obtain x d where k: "ConnectWithSessionManager (e_driver E) str (c_metrics c) False (Some (fst (w_sm W))) (w_drv W) = (x, d)" by fastforce
  have u: "mg_uri m = str" if "x = Inr (m, sm)" for m sm
    using k that by (auto simp: ConnectWithSessionManager_def ConnectWithDistributedCache_def Let_def split: prod.splits option.splits)
  show "keeps W W'"
    using assms k by (auto simp: new_client_def Let_def split: sum.splits intro!: keeps_same simp: extends_def)
  show "w_routes W' = w_routes W"
    using assms k by (auto simp: new_client_def Let_def split: sum.splits)
  show "a = w_next W \<and> w_next W' = Suc a \<and> mg_uri (w_mongos W' a) = str" if "r = Inr a" for a
    using assms k u that by (auto simp: new_client_def Let_def split: sum.splits)
qed

lemma createLazyMongoClient_keeps:
  assumes "createLazyMongoClient E c r db W = (x, W')"
  shows "keeps W W'"
proof (cases "MongoClient (w_routes W r)")
  case None
  obtain y W1 where n: "new_client E c (ConnectionString (w_routes W r)) (w_routes W r) W = (y, W1)" by fastforce
  note k = new_client_keeps [OF n]
  have "keeps W1 (RegisterMongoClient db a (set_route r ((w_routes W r)\<lparr>MongoClient := Some a\<rparr>) W1))" for a
    using k(2) by (intro keeps_trans [OF keeps_set_route keeps_frame(5)]) simp
  with k(1) have "keeps W (RegisterMongoClient db a (set_route r ((w_routes W r)\<lparr>MongoClient := Some a\<rparr>) W1))" for a
    using keeps_trans by blast
  with k(1) show ?thesis using assms None n by (auto simp: createLazyMongoClient_def Let_def split: sum.splits)
qed (use assms in \<open>simp add: createLazyMongoClient_def Let_def\<close>)

lemma holds_init:
  assumes "credentials_kept W"
  shows "lru.holds (own_client W) (the (CredentialClients (InitCredentialClientsCache (w_routes W r))))"
  using assms
  by (auto simp: InitCredentialClientsCache_def credentials_kept_def lru.holds_def Cache_wf_New split: option.split)
    (simp add: Cache_peek_def New_def)

lemma cached_credential_client_keeps:
  assumes "cached_credential_client E c r W = (x, W')"
  shows "keeps W W'" and "\<And>a. x = Some a \<Longrightarrow> credentials_kept W \<Longrightarrow> own_client W' (credentialKey c) a"
    and "CredentialClients (w_routes W' r) \<noteq> None"
proof -
  let ?ch = "the (CredentialClients (InitCredentialClientsCache (w_routes W r)))"
  obtain y ch where g: "Cache_get (w_now E W) ?ch (credentialKey c) = (y, ch)" by fastforce
  have W': "W' = set_route r ((InitCredentialClientsCache (w_routes W r))\<lparr>CredentialClients := Some ch\<rparr>) W" "x = y"
    using assms g by (simp_all add: cached_credential_client_def Let_def)
  show "keeps W W'" unfolding W'
    using lru.holds_get [OF holds_init, of W "w_now E W" r "credentialKey c"] g by (intro keeps_set_cache) simp
  then have e: "extends W W'" by (simp add: keeps_def)
  show "own_client W' (credentialKey c) a" if "x = Some a" "credentials_kept W" for a
    using own_client_extends [OF e] lru.holds_get_value [OF holds_init [OF that(2)]] g that(1) W'(2) by (metis fst_conv)
  show "CredentialClients (w_routes W' r) \<noteq> None" by (simp add: W' set_route_def)
qed

lemma query_string_prefix: "\<exists>t. query_string s a q = s @ t"
proof -
  have 1: "\<exists>t. fold (\<lambda>v s. s @ (if Contains s ''?'' then ''&'' else ''?'') @ key @ ''='' @ v) vs s = s @ t" for key vs s
  proof (induction vs arbitrary: s)
    case (Cons v vs)
    define s1 where "s1 = s @ (if Contains s ''?'' then ''&'' else ''?'') @ key @ ''='' @ v"
    obtain t where "fold (\<lambda>v s. s @ (if Contains s ''?'' then ''&'' else ''?'') @ key @ ''='' @ v) vs s1 = s1 @ t" using Cons.IH by blast
    then show ?case by (simp add: s1_def)
  qed simp
  have "\<exists>t. fold (\<lambda>(key, values) s. if key \<noteq> ''authSource'' then
               fold (\<lambda>v s. s @ (if Contains s ''?'' then ''&'' else ''?'') @ key @ ''='' @ v) values s else s) q s = s @ t" for s
  proof (induction q arbitrary: s)
    case (Cons kv q)
    obtain key vs where kv: "kv = (key, vs)" by (cases kv)
    define s1 where "s1 = (if key \<noteq> ''authSource'' then fold (\<lambda>v s. s @ (if Contains s ''?'' then ''&'' else ''?'') @ key @ ''='' @ v) vs s else s)"
    have "\<exists>t1. s1 = s @ t1"
    proof (cases "key = ''authSource''")
      case False
      then have "s1 = fold (\<lambda>v s. s @ (if Contains s ''?'' then ''&'' else ''?'') @ key @ ''='' @ v) vs s"
        unfolding s1_def by (simp only: not_False_eq_True if_True)
      with 1 show ?thesis by metis
    qed (simp add: s1_def)
    then obtain t1 where "s1 = s @ t1" by blast
    moreover obtain t2 where "fold (\<lambda>(key, values) s. if key \<noteq> ''authSource'' then
               fold (\<lambda>v s. s @ (if Contains s ''?'' then ''&'' else ''?'') @ key @ ''='' @ v) values s else s) q s1 = s1 @ t2"
      using Cons.IH by blast
    ultimately show ?case by (simp add: kv s1_def [symmetric])
  qed simp
  then show ?thesis unfolding query_string_def by (metis append.assoc)
qed

lemma credential_connection_string_prefix:
  assumes "clientUsername c \<noteq> []" and "clientPassword c \<noteq> []"
  shows "HasPrefix (credential_connection_string E c host port u) (''mongodb://'' @ credentialKey c @ ''@'')"
proof -
  let ?s = "''mongodb://'' @ clientUsername c @ '':'' @ clientPassword c @ ''@'' @ host @ '':'' @ port @ ''/'' @ intendedDatabase c"
  obtain t where "query_string ?s (clientAuthSource c) (url_Query (e_unescape E) (u_RawQuery u)) = ?s @ t"
    using query_string_prefix by blast
  then show ?thesis
    using assms by (simp add: credential_connection_string_def credentialKey_def HasPrefix_iff)
qed

text \<open>The credentials of a connection: a user comes with a password.\<close>

definition credentials_complete :: "connection \<Rightarrow> bool" where
  "credentials_complete c \<longleftrightarrow> (clientUsername c \<noteq> [] \<longrightarrow> clientPassword c \<noteq> [])"

lemma createMongoClientWithCredentials_cases:
  assumes "createMongoClientWithCredentials E c r W = (x, W')" and "cached_credential_client E c r W = (None, W1)"
  obtains (failed) "\<And>a. x \<noteq> Ok a" "keeps W1 W'"
  | (made) host port u a W2 where
      "new_client E c (credential_connection_string E c host port u) (w_routes W1 r) W1 = (Inr a, W2)" "x = Ok a"
      "W' = RegisterMongoClient (credentialKey c) a (set_route r ((w_routes W2 r)\<lparr>CredentialClients :=
         Some (Cache_add (w_now E W2) (the (CredentialClients (w_routes W2 r))) (credentialKey c) a)\<rparr>) W2)"
proof -
  obtain host port where hp: "extractHostFromRoute (ConnectionString (w_routes W1 r)) = (host, port)" by fastforce
  show ?thesis
  proof (cases "host = [] \<or> port = []")
    case True
    with assms hp show ?thesis by (intro failed) (auto simp: createMongoClientWithCredentials_def Let_def)
  next
    case ok: False
    show ?thesis
    proof (cases "url_Parse (e_url E) (ConnectionString (w_routes W1 r))")
      case (Inl err)
      with assms hp ok show ?thesis by (intro failed) (auto simp: createMongoClientWithCredentials_def Let_def)
    next
      case (Inr u)
      let ?s = "credential_connection_string E c host port u"
      show ?thesis
      proof (cases "sanitizeConnectionString ?s")
        case (Inl q)
        with assms hp ok Inr show ?thesis by (intro failed) (auto simp: createMongoClientWithCredentials_def Let_def)
      next
        case san: (Inr q)
        obtain z W2 where n: "new_client E c ?s (w_routes W1 r) W1 = (z, W2)" by fastforce
        show ?thesis
        proof (cases z)
          case (Inl err)
          with assms hp ok Inr san n new_client_keeps(1) [OF n] show ?thesis
            by (intro failed) (auto simp: createMongoClientWithCredentials_def Let_def)
        next
          case z: (Inr a)
          with assms hp ok Inr san n show ?thesis
            by (intro made [of host port u a W2]) (auto simp: createMongoClientWithCredentials_def Let_def)
        qed
      qed
    qed
  qed
qed

lemma createMongoClientWithCredentials_keeps:
  assumes "createMongoClientWithCredentials E c r W = (x, W')" and u: "clientUsername c \<noteq> []" and p: "clientPassword c \<noteq> []"
  shows "keeps W W' \<and> (\<forall>a. x = Ok a \<longrightarrow> credentials_kept W \<longrightarrow> own_client W' (credentialKey c) a)"
proof -
  obtain y W1 where k: "cached_credential_client E c r W = (y, W1)" by fastforce
  note k1 = cached_credential_client_keeps [OF k]
  show ?thesis
  proof (cases y)
    case (Some b)
    then show ?thesis using assms(1) k k1(1,2) by (auto simp: createMongoClientWithCredentials_def)
  next
    case None
    show ?thesis
      using assms(1) k [unfolded None]
    proof (cases rule: createMongoClientWithCredentials_cases)
      case failed
      with keeps_trans [OF k1(1)] show ?thesis by blast
    next
      case (made host port u' a W2)
      note nk = new_client_keeps [OF made(1)]
      have own: "own_client W2 (credentialKey c) a"
        using nk(3) [OF refl] credential_connection_string_prefix [OF u p, of E host port u'] unfolding own_client_def by auto
      obtain ch where ch: "CredentialClients (w_routes W2 r) = Some ch" using k1(3) nk(2) by auto
      have "lru.holds (own_client W2) (Cache_add (w_now E W2) ch (credentialKey c) a)" if "credentials_kept W2"
        using that ch own by (auto simp: credentials_kept_def intro: lru.holds_add)
      then have "keeps W2 W'"
        unfolding made(3) ch option.sel by (intro keeps_trans [OF keeps_set_cache keeps_frame(5)])
      moreover from this have "own_client W' (credentialKey c) a" using own own_client_extends by (auto simp: keeps_def)
      ultimately show ?thesis using keeps_trans [OF keeps_trans [OF k1(1) nk(1)]] made(2) by auto
    qed
  qed
qed

lemma getOrCreateCredentialClient_keeps:
  assumes "getOrCreateCredentialClient E c r W = (x, W')" and u: "clientUsername c \<noteq> []" and p: "clientPassword c \<noteq> []"
  shows "keeps W W' \<and> (\<forall>a. x = Ok a \<longrightarrow> credentials_kept W \<longrightarrow> own_client W' (credentialKey c) a)"
proof -
  obtain y W1 where k: "cached_credential_client E c r W = (y, W1)" by fastforce
  note k1 = cached_credential_client_keeps [OF k]
  show ?thesis
  proof (cases y)
    case (Some b)
    then show ?thesis using assms(1) k k1(1,2) by (auto simp: getOrCreateCredentialClient_def)
  next
    case None
    obtain z W2 where n: "createMongoClientWithCredentials E c r W1 = (z, W2)" by fastforce
    note nk = createMongoClientWithCredentials_keeps [OF n u p]
    have "W' = W2" and "\<And>a. x = Ok a \<Longrightarrow> z = Ok a"
      using assms(1) k None n by (auto simp: getOrCreateCredentialClient_def split: outcome.splits)
    with nk keeps_trans [OF k1(1)] k1(1) show ?thesis by (auto simp: keeps_def)
  qed
qed

lemma route_operation_keeps:
  assumes "route_operation E db c W = (x, c', W')" and "credentials_complete c"
  shows "keeps W W'" and "credentials_complete c'" and "clientUsername c' = clientUsername c" and "clientPassword c' = clientPassword c"
    and "\<And>r a. x = Ok (r, a) \<Longrightarrow> isUsingCredentialPassthrough c' \<Longrightarrow> credentials_kept W \<Longrightarrow> own_client W' (credentialKey c) a"
proof -
  obtain r W1 where ro: "router_GetRoute E db W = (r, W1)" by fastforce
  note r1 = router_keeps [OF ro]
  have "keeps W W' \<and> credentials_complete c' \<and> clientUsername c' = clientUsername c \<and> clientPassword c' = clientPassword c \<and>
      (\<forall>r a. x = Ok (r, a) \<longrightarrow> isUsingCredentialPassthrough c' \<longrightarrow> credentials_kept W \<longrightarrow> own_client W' (credentialKey c) a)"
  proof (cases r)
    case (Inl err)
    with assms ro r1 show ?thesis by (auto simp: route_operation_def)
  next
    case (Inr q)
    define c1 where "c1 = c\<lparr>routeConfig := Some q, intendedDatabase := db\<rparr>"
    define c2 where "c2 = c1\<lparr>isUsingCredentialPassthrough := use_passthrough E db (w_routes W1 q) c1\<rparr>"
    have c2: "clientUsername c2 = clientUsername c" "clientPassword c2 = clientPassword c" "credentials_complete c2" "credentialKey c2 = credentialKey c"
      using assms(2) by (simp_all add: c2_def c1_def credentials_complete_def credentialKey_def)
    have run: "route_operation E db c W =
        (if isUsingCredentialPassthrough c2 then
           (case getOrCreateCredentialClient E c2 q W1 of (Ok a, W) \<Rightarrow> (Ok (q, a), c2, W) | (Fail err, W) \<Rightarrow> (Fail err, c2, W) | (Panic, W) \<Rightarrow> (Panic, c2, W))
         else case MongoClient (w_routes W1 q) of
                None \<Rightarrow> (case createLazyMongoClient E c2 q db W1 of
                    (Inl err, W) \<Rightarrow> (Fail (ErrorString (''failed to create MongoDB client: '' @ error_text (e_driver E) err)), c2, W)
                  | (Inr a, W) \<Rightarrow> (Ok (q, a), c2, W))
              | Some a \<Rightarrow> (Ok (q, a), c2, W1))"
      unfolding route_operation_def ro Inr prod.case sum.case Let_def c1_def [symmetric] c2_def [symmetric] by (rule refl)
    show ?thesis
    proof (cases "isUsingCredentialPassthrough c2")
      case True
      then have "clientUsername c2 \<noteq> []" by (auto simp: c2_def c1_def use_passthrough_def split: if_splits)
      moreover from this have "clientPassword c2 \<noteq> []" using c2(3) by (simp add: credentials_complete_def)
      moreover obtain y W2 where g: "getOrCreateCredentialClient E c2 q W1 = (y, W2)" by fastforce
      ultimately have gk: "keeps W1 W2 \<and> (\<forall>a. y = Ok a \<longrightarrow> credentials_kept W1 \<longrightarrow> own_client W2 (credentialKey c) a)"
        using getOrCreateCredentialClient_keeps [OF g] c2(4) by simp
      have "W' = W2 \<and> c' = c2 \<and> (\<forall>r a. x = Ok (r, a) \<longrightarrow> y = Ok a)"
        using assms(1) g True unfolding run by (auto split: outcome.splits)
      with gk r1 keeps_trans [OF r1] c2 show ?thesis by (auto simp: keeps_def)
    next
      case False
      obtain y W2 where l: "createLazyMongoClient E c2 q db W1 = (y, W2)" by fastforce
      have "(W' = W1 \<or> W' = W2) \<and> c' = c2"
        using assms(1) l False unfolding run by (auto split: option.splits sum.splits)
      with r1 keeps_trans [OF r1 createLazyMongoClient_keeps [OF l]] c2 False show ?thesis by auto
    qed
  qed
  then show "keeps W W'" and "credentials_complete c'" and "clientUsername c' = clientUsername c" and "clientPassword c' = clientPassword c"
    and "\<And>r a. x = Ok (r, a) \<Longrightarrow> isUsingCredentialPassthrough c' \<Longrightarrow> credentials_kept W \<Longrightarrow> own_client W' (credentialKey c) a"
    by auto
qed

section \<open>Messages\<close>

lemma validate_keeps:
  assumes "validateCredentialsAgainstDatabase E u p db adb c W = (x, c', W')" and "credentials_complete c" and "p \<noteq> []"
  shows "keeps W W' \<and> credentials_complete c'"
proof -
  obtain r W1 where ro: "router_GetRoute E db W = (r, W1)" by fastforce
  from assms ro router_keeps [OF ro] show ?thesis
    by (auto simp: validateCredentialsAgainstDatabase_def credentials_complete_def Let_def split: sum.splits if_splits)
qed

lemma parse_password: "parseAppNameCredentials s = Inr (db, u, p, a) \<Longrightarrow> p \<noteq> []"
  by (auto simp: parseAppNameCredentials_def Let_def split: if_splits)

lemma authenticate_keeps:
  assumes "authenticate E om c W = (x, c', W')" and "credentials_complete c"
  shows "keeps W W' \<and> credentials_complete c'"
proof (cases "parseAppNameCredentials (extractAppNameFromMessage (om_String om))")
  case (Inl err)
  with assms show ?thesis by (auto simp: authenticate_def Let_def split: if_splits)
next
  case (Inr y)
  obtain db u p a where y: "y = (db, u, p, a)" by (cases y)
  note pw = parse_password [OF Inr [unfolded y]]
  obtain r W1 where ro: "router_GetRoute E db W = (r, W1)" by fastforce
  obtain e c2 W2 where v: "validateCredentialsAgainstDatabase E u p db db c W1 = (e, c2, W2)" by (metis prod_cases3)
  have "(W' = W \<or> W' = W1 \<or> W' = W2) \<and> (c' = c \<or> c' = c2 \<or> clientPassword c' = p)"
    using assms(1) Inr y ro v by (auto simp: authenticate_def Let_def split: if_splits sum.splits option.splits)
  with validate_keeps [OF v assms(2) pw] router_keeps [OF ro] keeps_trans assms(2) pw show ?thesis
    by (auto simp: credentials_complete_def)
qed

lemma handshake_keeps:
  assumes "handshake E om c W = (x, c', W')" and "credentials_complete c"
  shows "keeps W W' \<and> credentials_complete c'"
proof -
  obtain e c2 W2 where a: "authenticate E om c W = (e, c2, W2)" by (metis prod_cases3)
  from assms a authenticate_keeps [OF a assms(2)] show ?thesis
    by (auto simp: handshake_def split: if_splits outcome.splits sum.splits)
qed

lemma client_RoundTrip_keeps:
  assumes "client_RoundTrip E a wm op W = Some (x, W')"
  shows "keeps W W'"
proof (rule keeps_same)
  from assms obtain st where rt: "RoundTrip (e_wire E) (e_group E) (e_driver E) wm op
      \<lparr>rt_mongo = w_mongos W a, rt_sm = w_sm W, rt_drv = w_drv W, rt_trace = w_trace W\<rparr> = Some (x, st)"
    and W': "W' = W\<lparr>w_mongos := (w_mongos W)(a := rt_mongo st), w_sm := rt_sm st, w_drv := rt_drv st, w_trace := rt_trace st\<rparr>"
    by (auto simp: client_RoundTrip_def split: option.splits)
  show "extends W W'" using uri_RoundTrip [OF rt] by (simp add: W' extends_def)
  show "\<And>r. CredentialClients (w_routes W' r) = CredentialClients (w_routes W r)" by (simp add: W')
qed

lemma forward_keeps: "forward E om W = Some (x, W') \<Longrightarrow> keeps W W'"
  by (auto simp: forward_def Let_def split: option.splits if_splits sum.splits prod.splits)

lemma reregister_keeps: "reregister E db c W = (x, W') \<Longrightarrow> keeps W W'"
  by (auto simp: reregister_def Let_def split: if_splits prod.splits)

lemma roundTripWithPool_keeps:
  assumes "roundTripWithPool E wm op db a c W = Some (x, W')"
  shows "keeps W W'"
proof -
  let ?om = "methods (e_wire E) op" and ?db = "if db = [] then ''default'' else db"
  obtain f W1 where f: "forward E ?om W = Some (f, W1)"
    using assms by (cases "forward E ?om W") (auto simp: roundTripWithPool_def)
  note k1 = forward_keeps [OF f]
  show ?thesis
  proof (cases f)
    case (Some y)
    with assms f k1 show ?thesis by (auto simp: roundTripWithPool_def split: sum.splits)
  next
    case None
    obtain e W2 where e: "reregister E ?db c W1 = (e, W2)" by fastforce
    note k2 = keeps_trans [OF k1 reregister_keeps [OF e]]
    show ?thesis
    proof (cases e)
      case (Some err)
      then have "W' = W2" using assms f None e by (simp add: roundTripWithPool_def Let_def split: if_splits)
      with k2 show ?thesis by simp
    next
      case n: None
      have step: "keeps W2 (W3\<lparr>w_pool := m'\<rparr>)" if "client_RoundTrip E b wm op (W2\<lparr>w_pool := m\<rparr>) = Some (y, W3)" for b y W3 m m'
        using keeps_trans [OF keeps_trans [OF keeps_frame(3) client_RoundTrip_keeps [OF that]] keeps_frame(3)] .
      have "keeps W2 W'"
        using assms f None e n
        by (cases "db = []") (auto simp: roundTripWithPool_def Let_def split: prod.splits sum.splits option.splits intro: step)
      with k2 show ?thesis by (rule keeps_trans)
    qed
  qed
qed

lemma drop_failed_client_keeps: "keeps W (drop_failed_client E r x W)"
  by (auto simp: drop_failed_client_def intro: keeps_set_route split: outcome.split)

lemma connection_roundTrip_keeps:
  assumes "connection_roundTrip E wm op c W = Some (x, c', W')" and "credentials_complete c"
  shows "keeps W W' \<and> credentials_complete c'"
proof -
  let ?om = "methods (e_wire E) op"
  obtain db c1 where ex: "connection_extractDatabaseName ?om c = (db, c1)" by fastforce
  have c1: "credentials_complete c1" using extract_keeps [OF ex] assms(2) by (simp add: credentials_complete_def)
  obtain y c2 W2 where ro: "route_operation E db c1 W = (y, c2, W2)" by (metis prod_cases3)
  note k = route_operation_keeps [OF ro c1]
  show ?thesis
  proof (cases "is_handshake ?om")
    case True
    then have "handshake E ?om c1 W = (x, c', W')" using assms(1) ex by (simp add: connection_roundTrip_def Let_def)
    from handshake_keeps [OF this c1] show ?thesis .
  next
    case False
    have step: "keeps W (drop_failed_client E r z W3)" if "keeps W2 W3" for r W3 and z :: "Message outcome"
      using keeps_trans [OF keeps_trans [OF k(1) that] drop_failed_client_keeps] .
    show ?thesis
      using assms(1) ex ro False k(1,2)
      by (auto simp: connection_roundTrip_def Let_def split: outcome.splits option.splits if_splits
          intro!: step dest: roundTripWithPool_keeps client_RoundTrip_keeps)
  qed
qed

lemma metrics_complete: "credentials_complete (metrics_database om c) = credentials_complete c"
  using extract_keeps [of om c] by (cases "connection_extractDatabaseName om c") (auto simp: metrics_database_def credentials_complete_def)

lemma readWireMessage_credentials: "readWireMessage c = (x, c') \<Longrightarrow> credentials_complete c' = credentials_complete c"
  by (auto simp: readWireMessage_def io_ReadFull_def credentials_complete_def Let_def split: if_splits sum.splits prod.splits)

lemma conn_Write_credentials: "conn_Write b c = (x, c') \<Longrightarrow> credentials_complete c' = credentials_complete c"
  by (auto simp: conn_Write_def credentials_complete_def split: list.splits option.splits)

lemma handleMessage_keeps:
  assumes "handleMessage E c W = Some (x, c', W')" and "credentials_complete c"
  shows "keeps W W' \<and> credentials_complete c'"
proof -
  obtain y c1 where rd: "readWireMessage c = (y, c1)" by fastforce
  have c1: "credentials_complete c1" using readWireMessage_credentials [OF rd] assms(2) by simp
  show ?thesis
  proof (cases y)
    case (Ok wm)
    show ?thesis
    proof (cases "\<exists>op. Decode (e_wire E) wm = Some (Inr op)")
      case False
      with assms(1) rd Ok c1 show ?thesis by (auto simp: handleMessage_def split: option.splits sum.splits)
    next
      case True
      then obtain op where op: "Decode (e_wire E) wm = Some (Inr op)" by blast
      obtain db c2 where ex: "connection_extractDatabaseName (methods (e_wire E) op) c1 = (db, c2)" by fastforce
      have c2: "credentials_complete c2" using extract_keeps [OF ex] c1 by (simp add: credentials_complete_def)
      from assms(1) rd Ok op ex obtain z c3 where rt: "connection_roundTrip E wm op c2 W = Some (z, c3, W')"
        by (auto simp: handleMessage_def Let_def split: option.splits outcome.splits prod.splits if_splits)
      note k = connection_roundTrip_keeps [OF rt c2]
      have "credentials_complete c'"
        using assms(1) rd Ok op ex rt k
        by (auto simp: handleMessage_def Let_def metrics_complete split: option.splits outcome.splits prod.splits if_splits
            dest: conn_Write_credentials)
      with k show ?thesis by blast
    qed
  qed (use assms(1) rd c1 in \<open>auto simp: handleMessage_def\<close>)
qed

section \<open>The proxy\<close>

text \<open>
  The connections of the proxy and the world they share: a connection is opened, handles
  a message, or is closed. Messages of different connections may come in any order.
\<close>

inductive Proxy_step ::
    "('g, 'd, 'n) proxy_env \<Rightarrow> (nat \<rightharpoonup> connection) \<times> ('g, 'd, 'n) world \<Rightarrow> (nat \<rightharpoonup> connection) \<times> ('g, 'd, 'n) world \<Rightarrow> bool"
  for E where
  opens: "cs i = None \<Longrightarrow> c' = new_connection E W c \<Longrightarrow>
    Proxy_step E (cs, W) (cs(i \<mapsto> c'), W\<lparr>w_pool := snd (RegisterClient (w_now E W) (clientID c') ''default'' ''default''
      (GetDefaultMode (w_pool W)) (w_pool W))\<rparr>)"
| message: "cs i = Some c \<Longrightarrow> handleMessage E c W = Some (x, c', W') \<Longrightarrow> Proxy_step E (cs, W) (cs(i \<mapsto> c'), W')"
| closes: "cs i = Some c \<Longrightarrow>
    Proxy_step E (cs, W) (cs(i := None), W\<lparr>w_pool := UnregisterClient (w_now E W) (clientID c) (w_pool W)\<rparr>)"

inductive Proxy_run ::
    "('g, 'd, 'n) proxy_env \<Rightarrow> ('g, 'd, 'n) world \<Rightarrow> (nat \<rightharpoonup> connection) \<times> ('g, 'd, 'n) world \<Rightarrow> bool"
  for E W where
  starts: "Proxy_run E W (Map.empty, W)"
| goes: "Proxy_run E W s \<Longrightarrow> Proxy_step E s s' \<Longrightarrow> Proxy_run E W s'"

definition proxy_safe :: "(nat \<rightharpoonup> connection) \<times> ('g, 'd, 'n) world \<Rightarrow> bool" where
  "proxy_safe s \<longleftrightarrow> credentials_kept (snd s) \<and> (\<forall>i c. fst s i = Some c \<longrightarrow> credentials_complete c)"

lemma proxy_safe_step:
  assumes "Proxy_step E s s'" and "proxy_safe s"
  shows "proxy_safe s'"
  using assms(1)
proof (cases rule: Proxy_step.cases)
  case (opens cs i c' W c)
  then show ?thesis using assms(2) keeps_frame(3)
    by (auto simp: proxy_safe_def new_connection_def credentials_complete_def keeps_def)
next
  case (message cs i c W x c' W')
  then have "credentials_complete c" using assms(2) by (auto simp: proxy_safe_def)
  from handleMessage_keeps [OF message(4) this] message assms(2) show ?thesis by (auto simp: proxy_safe_def keeps_def)
next
  case (closes cs i c W)
  then show ?thesis using assms(2) keeps_frame(3) by (auto simp: proxy_safe_def keeps_def split: if_splits)
qed

lemma proxy_safe_run:
  assumes "Proxy_run E W s" and "\<And>r. CredentialClients (w_routes W r) = None"
  shows "proxy_safe s"
  using assms(1)
proof induction
  case starts
  then show ?case using assms(2) by (simp add: proxy_safe_def credentials_kept_def)
qed (rule proxy_safe_step)

text \<open>
  In every execution that starts without cached clients, when a connection's operation is routed
  with the credentials of the client, the MongoDB client it gets was made with a connection
  string that begins with this user and password.
\<close>

lemma run_uses_own_credentials:
  assumes "Proxy_run E W0 (cs, W)" and "\<And>r. CredentialClients (w_routes W0 r) = None"
    and "cs i = Some c" and "route_operation E db c W = (Ok (r, a), c', W')" and "isUsingCredentialPassthrough c'"
  shows "HasPrefix (mg_uri (w_mongos W' a)) (''mongodb://'' @ clientUsername c @ '':'' @ clientPassword c @ ''@'')"
proof -
  have safe: "credentials_kept W" "credentials_complete c"
    using proxy_safe_run [OF assms(1,2)] assms(3) by (auto simp: proxy_safe_def)
  from route_operation_keeps(5) [OF assms(4) safe(2) refl assms(5) safe(1)] show ?thesis
    by (simp add: own_client_def credentialKey_def)
qed

text \<open>The example with a wildcard route, and a client that says hello as user \<open>u\<close>.\<close>

definition wildcard_route :: RouteConfig where
  "wildcard_route = example_route\<lparr>DatabaseName := ''*'', ConnectionString := ''mongodb://h:1/x'', Label := ''*''\<rparr>"

definition hello_bytes :: bytes where
  "hello_bytes = [26, 0, 0, 0, 1, 0, 0, 0, 0, 0, 0, 0, 221, 7, 0, 0, 0, 0, 0, 0, 0, 5, 0, 0, 0, 0]"

lemma hello_decoded: "Decode hello_wire hello_bytes = Some (Inr (Op_Msg gridfs_find))"
proof -
  have wr: "wr hello_wire = std_read" by (simp add: hello_wire_def std_wire_def)
  have fin: "decodeMsg_loop hello_wire False [] m = Some (Inr m)" for m by (simp add: decodeMsg_loop.simps)
  have "decodeMsg_loop hello_wire False [0, 5, 0, 0, 0, 0] \<lparr>m_reqID = 1, m_flags = 0, m_sections = [], m_checksum = 0\<rparr> = Some (Inr gridfs_find)"
    by (subst decodeMsg_loop.simps) (simp add: wr fin std_read_def read_document_def readi32_def gridfs_find_def)
  then show ?thesis
    by (simp add: Decode_def hello_bytes_def wr std_read_def readi32_def decodeMsg_def ChecksumPresent_def Let_def)
qed

lemma hello_read:
  "readWireMessage (example_connection\<lparr>c_in := hello_bytes\<rparr>) = (Ok hello_bytes, example_connection\<lparr>c_in := [], c_buffer_cap := 26\<rparr>)"
  by (simp add: readWireMessage_def io_ReadFull_def hello_bytes_def wire_size_def example_connection_def)

definition wildcard_routed :: "(string \<rightharpoonup> json \<times> time, unit, unit) world \<Rightarrow> bool" where
  "wildcard_routed W \<longleftrightarrow> w_routes W 0 = wildcard_route \<and> cache_coherent (\<lambda>_ _. None) (w_router W) \<and>
     (\<forall>n. GetRoute_uncached (\<lambda>_ _. None) n (w_router W) = Some 0)"

lemma wildcard_GetRoute:
  assumes "wildcard_routed W"
  shows "\<exists>W'. router_GetRoute (example_env w) db W = (Inr 0, W') \<and> wildcard_routed W'"
proof -
  obtain r W' where r: "router_GetRoute (example_env w) db W = (r, W')" by fastforce
  have co: "cache_coherent (e_regexp (example_env w)) (w_router W)" using assms by (simp add: wildcard_routed_def example_env_def)
  note k = router_GetRoute_coherent [OF co r]
  have "r = Inr 0" using k(1) assms by (simp add: wildcard_routed_def example_env_def)
  moreover have "wildcard_routed W'" using k(2-4) assms by (simp add: wildcard_routed_def example_env_def)
  ultimately show ?thesis using r by blast
qed

lemma hello_handled:
  assumes "wildcard_routed W" and "readWireMessage c = (Ok hello_bytes, c1)" and "authEnabled c1" and "clientUsername c1 = []"
    and "regexCredentialPassthrough c1"
  shows "\<exists>x c' W'. handleMessage (example_env hello_wire) c W = Some (x, c', W') \<and> wildcard_routed W' \<and>
    clientUsername c' = ''u'' \<and> clientPassword c' = ''p'' \<and> clientAuthSource c' = ''admin'' \<and> regexCredentialPassthrough c'"
proof -
  let ?E = "example_env hello_wire" and ?om = "methods hello_wire (Op_Msg gridfs_find)"
  have w: "e_wire ?E = hello_wire" by (simp add: example_env_def)
  obtain db1 c2 where x1: "connection_extractDatabaseName ?om c1 = (db1, c2)" by fastforce
  obtain db2 c3 where x2: "connection_extractDatabaseName ?om c2 = (db2, c3)" by fastforce
  note k = extract_keeps [OF x1] extract_keeps [OF x2]
  obtain W1 where W1: "router_GetRoute ?E ''app'' W = (Inr 0, W1)" "wildcard_routed W1" using wildcard_GetRoute [OF assms(1)] by blast
  have rt: "w_routes W1 0 = wildcard_route" using W1(2) by (simp add: wildcard_routed_def)
  define c4 where "c4 = c3\<lparr>clientUsername := ''u'', clientPassword := ''p'', clientAuthSource := ''admin''\<rparr>"
  have "DatabaseName wildcard_route \<noteq> ''app''" "DatabaseConfig wildcard_route = Some zero_client_config" "Topology zero_client_config = None"
    by (simp_all add: wildcard_route_def example_route_def zero_client_config_def)
  then have auth: "authenticate ?E ?om c3 W = (Ok Sharded, c4, W1)"
    using W1 rt by (simp add: authenticate_def hello_text hello_credentials c4_def del: methods.simps)
  have "\<exists>m. handshake_response ?E ?om Sharded W1 = Inr m"
    by (simp del: methods.simps add: handshake_response_def hello_methods IsMasterResponse_def isMasterDocument_def example_env_def Let_def split: prod.split)
  then obtain m where "handshake_response ?E ?om Sharded W1 = Inr m" by blast
  with auth k assms(3,4) have "handshake ?E ?om c3 W = (Ok m, c4, W1)" by (simp add: handshake_def)
  then have trip: "connection_roundTrip ?E hello_bytes (Op_Msg gridfs_find) c2 W = Some (Ok m, c4, W1)"
    using x2 hello_methods(2) by (simp add: connection_roundTrip_def w Let_def del: methods.simps)
  obtain e c5 where wr: "conn_Write (Wm m) c4 = (e, c5)" by fastforce
  have c5: "clientUsername c5 = ''u''" "clientPassword c5 = ''p''" "clientAuthSource c5 = ''admin''" "regexCredentialPassthrough c5"
    using wr k assms(5) by (auto simp: conn_Write_def c4_def split: list.splits option.splits)
  obtain db6 c6 where x6: "connection_extractDatabaseName ?om c5 = (db6, c6)" by fastforce
  have src: "clientAuthSource c6 = clientAuthSource c5"
    using x6 by (auto simp: connection_extractDatabaseName_def extracted_database_def Let_def simp del: methods.simps split: if_splits)
  have md: "metrics_database ?om c5 = (if c_metrics c5 then c6 else c5)" using x6 by (simp add: metrics_database_def)
  have "Some (x, c', W') = handleMessage ?E c W \<Longrightarrow> W' = W1 \<and> c' \<in> {c4, c5, c6}" for x c' W'
    using assms(2) hello_decoded x1 trip wr md
    by (simp add: handleMessage_def w Let_def del: methods.simps split: if_splits option.splits)
  moreover have "handleMessage ?E c W \<noteq> None"
    using assms(2) hello_decoded x1 trip by (simp add: handleMessage_def w Let_def del: methods.simps not_None_eq split: option.split prod.split)
  ultimately show ?thesis
    using c5 src extract_keeps [OF x6] W1(2) k assms(5) c4_def by (cases "handleMessage ?E c W") fastforce+
qed

lemma cached_string:
  "cached_credential_client E c r W = (y, W') \<Longrightarrow> ConnectionString (w_routes W' r) = ConnectionString (w_routes W r)"
  by (auto simp: cached_credential_client_def set_route_def Let_def InitCredentialClientsCache_def split: prod.splits option.splits)

lemma sanitized_example:
  "sanitizeConnectionString ''mongodb://u:p@h:1/app?authSource=admin'' = Inr ''mongodb://u:***@h:1/app?authSource=admin''"
  by code_simp

lemma wildcard_connects:
  assumes "ConnectionString (w_routes W 0) = ''mongodb://h:1/x''" and "clientUsername c = ''u''" and "clientPassword c = ''p''"
    and "clientAuthSource c = ''admin''" and "intendedDatabase c = ''app''"
  shows "\<exists>a W'. createMongoClientWithCredentials (example_env hello_wire) c 0 W = (Ok a, W')"
proof -
  let ?E = "example_env hello_wire"
  obtain y W1 where k: "cached_credential_client ?E c 0 W = (y, W1)" by fastforce
  show ?thesis
  proof (cases y)
    case None
    have rt: "ConnectionString (w_routes W1 0) = ''mongodb://h:1/x''" using k assms(1) by (simp add: cached_string)
    have host: "extractHostFromRoute ''mongodb://h:1/x'' = (''h'', ''1'')"
      by (simp add: extractHostFromRoute_def extractHostAndPort_def HasPrefix_def TrimPrefix_def LastIndex_def)
    have url: "url_Parse (e_url ?E) ''mongodb://h:1/x'' = Inr \<lparr>u_User = None, u_RawQuery = []\<rparr>"
      by (simp add: url_Parse_def HasPrefix_def TrimPrefix_def cut_def plain_query_def url_plain_def plain_host_def)
    have str: "credential_connection_string ?E c ''h'' ''1'' \<lparr>u_User = None, u_RawQuery = []\<rparr> = ''mongodb://u:p@h:1/app?authSource=admin''"
      using assms by (simp add: credential_connection_string_def query_string_def url_Query_def Split.simps map_filter_simps)
    have san: "\<exists>q. sanitizeConnectionString ''mongodb://u:p@h:1/app?authSource=admin'' = Inr q"
      using sanitized_example by blast
    have "\<exists>a W2. new_client ?E c s route W1 = (Inr a, W2)" for s route
      by (simp add: new_client_def ConnectWithSessionManager_def ConnectWithDistributedCache_def example_env_def example_driver_def Let_def)
    then obtain a W2 where "new_client ?E c ''mongodb://u:p@h:1/app?authSource=admin'' (w_routes W1 0) W1 = (Inr a, W2)" by blast
    with k None rt host url str san show ?thesis by (auto simp: createMongoClientWithCredentials_def Let_def)
  qed (use k in \<open>auto simp: createMongoClientWithCredentials_def\<close>)
qed

lemma wildcard_passthrough:
  assumes "wildcard_routed W" and "clientUsername c = ''u''" and "clientPassword c = ''p''" and "clientAuthSource c = ''admin''"
    and "regexCredentialPassthrough c"
  shows "\<exists>a c' W'. route_operation (example_env hello_wire) ''app'' c W = (Ok (0, a), c', W') \<and> isUsingCredentialPassthrough c'"
proof -
  let ?E = "example_env hello_wire"
  define c2 where "c2 = c\<lparr>routeConfig := Some 0, intendedDatabase := ''app'', isUsingCredentialPassthrough := True\<rparr>"
  obtain W1 where W1: "router_GetRoute ?E ''app'' W = (Inr 0, W1)" "wildcard_routed W1" using wildcard_GetRoute [OF assms(1)] by blast
  have rt: "w_routes W1 0 = wildcard_route" using W1(2) by (simp add: wildcard_routed_def)
  have use: "use_passthrough ?E ''app'' wildcard_route (c\<lparr>routeConfig := Some 0, intendedDatabase := ''app''\<rparr>)"
    using assms by (simp add: use_passthrough_def isWildcardOrRegexMatch_def wildcard_route_def)
  obtain y W2 where k: "cached_credential_client ?E c2 0 W1 = (y, W2)" by fastforce
  then have "ConnectionString (w_routes W2 0) = ''mongodb://h:1/x''" using rt by (simp add: cached_string wildcard_route_def)
  from wildcard_connects [OF this, of c2] assms
  have "\<exists>a W'. createMongoClientWithCredentials ?E c2 0 W2 = (Ok a, W')" by (simp add: c2_def)
  then have "\<exists>a W'. getOrCreateCredentialClient ?E c2 0 W1 = (Ok a, W')"
    using k by (cases y) (auto simp: getOrCreateCredentialClient_def)
  then show ?thesis using W1 rt use assms by (auto simp: route_operation_def Let_def c2_def)
qed

end
