(* ===== verification/Lifecycle.thy ===== *)
theory Lifecycle
  imports Serving
begin

text \<open>
  A client connection from its beginning to its end: it ends after finitely many messages,
  and it uses the pool manager as the manager's contract asks for, so that the properties of
  the executions of the manager apply to what the connections do.
\<close>

section \<open>What a message changes of the connection\<close>

definition same_stream :: "connection \<Rightarrow> connection \<Rightarrow> bool" where
  "same_stream c c' \<longleftrightarrow> clientID c' = clientID c \<and> c_in c' = c_in c"

lemma same_stream_trans: "same_stream c c' \<Longrightarrow> same_stream c' c'' \<Longrightarrow> same_stream c c''"
  by (simp add: same_stream_def)

lemma extract_stream: "connection_extractDatabaseName om c = (db, c') \<Longrightarrow> same_stream c c'"
  using extract_keeps [of om c db c'] by (simp add: same_stream_def)

lemma validate_stream:
  "validateCredentialsAgainstDatabase E u p db adb c W = (r, c', W') \<Longrightarrow> same_stream c c'"
  by (auto simp: validateCredentialsAgainstDatabase_def same_stream_def Let_def split: prod.splits sum.splits if_splits)

lemma authenticate_stream: "authenticate E om c W = (r, c', W') \<Longrightarrow> same_stream c c'"
  using validate_stream [of E]
  by (auto simp: authenticate_def Let_def same_stream_def split: prod.splits sum.splits if_splits option.splits)

lemma handshake_stream: "handshake E om c W = (r, c', W') \<Longrightarrow> same_stream c c'"
  using authenticate_stream [of E om c W]
  by (auto simp: handshake_def same_stream_def split: prod.splits sum.splits if_splits outcome.splits)

lemma route_stream: "route_operation E db c W = (r, c', W') \<Longrightarrow> same_stream c c'"
  by (auto simp: route_operation_def same_stream_def Let_def split: prod.splits sum.splits if_splits outcome.splits option.splits)

lemma roundTrip_stream:
  assumes "connection_roundTrip E wm op c W = Some (r, c', W')"
  shows "same_stream c c'"
proof -
  obtain db c1 where x: "connection_extractDatabaseName (methods (e_wire E) op) c = (db, c1)" by fastforce
  obtain res c2 W2 where ro: "route_operation E db c1 W = (res, c2, W2)" by (metis prod_cases3)
  have "same_stream c1 c'"
    using assms x ro handshake_stream [of E "methods (e_wire E) op" c1 W] route_stream [OF ro]
    by (auto simp: connection_roundTrip_def Let_def split: if_splits outcome.splits option.splits)
  with extract_stream [OF x] show ?thesis by (rule same_stream_trans)
qed

lemma metrics_stream: "same_stream c (metrics_database om c)"
  using extract_stream [of om c] by (cases "connection_extractDatabaseName om c") (auto simp: metrics_database_def same_stream_def)

lemma conn_Write_stream: "conn_Write b c = (r, c') \<Longrightarrow> same_stream c c'"
  by (auto simp: conn_Write_def same_stream_def split: list.splits option.splits)

text \<open>What handling a message does, by its result.\<close>

lemma handleMessage_cases:
  assumes "handleMessage E c W = Some (r, c', W')"
  obtains (unread) "W' = W" "r = Panic \<or> (\<exists>err. r = Fail err)" "clientID c' = clientID c"
  | (trip) wm c1 op db c2 res c3 where "readWireMessage c = (Ok wm, c1)" "Decode (e_wire E) wm = Some (Inr op)"
      "connection_extractDatabaseName (methods (e_wire E) op) c1 = (db, c2)"
      "connection_roundTrip E wm op c2 W = Some (res, c3, W')" "same_stream c1 c'"
proof -
  have id: "clientID c1 = clientID c" if "readWireMessage c = (x, c1)" for x c1
    using that by (auto simp: readWireMessage_def io_ReadFull_def Let_def split: if_splits sum.splits prod.splits)
  obtain x c1 where rd: "readWireMessage c = (x, c1)" by fastforce
  show ?thesis
  proof (cases x)
    case (Ok wm)
    show ?thesis
    proof (cases "\<exists>op. Decode (e_wire E) wm = Some (Inr op)")
      case True
      then obtain op where op: "Decode (e_wire E) wm = Some (Inr op)" by blast
      obtain db c2 where ex: "connection_extractDatabaseName (methods (e_wire E) op) c1 = (db, c2)" by fastforce
      from assms rd Ok op ex obtain res c3 where rt: "connection_roundTrip E wm op c2 W = Some (res, c3, W')"
        by (auto simp: handleMessage_def Let_def split: option.splits outcome.splits prod.splits if_splits)
      have s: "same_stream c1 c3" using extract_stream [OF ex] roundTrip_stream [OF rt] by (rule same_stream_trans)
      have "same_stream c3 c'"
        using assms rd Ok op ex rt metrics_stream conn_Write_stream
        by (auto simp: handleMessage_def Let_def split: option.splits outcome.splits prod.splits if_splits)
          (auto simp: same_stream_def metrics_stream [unfolded same_stream_def])
      with s have "same_stream c1 c'" by (rule same_stream_trans)
      with rd Ok op ex rt show ?thesis by (intro trip) auto
    next
      case False
      with assms rd Ok id [OF rd] show ?thesis
        by (intro unread) (auto simp: handleMessage_def Let_def split: option.splits sum.splits)
    qed
  qed (use assms rd id [OF rd] in \<open>auto simp: handleMessage_def intro: unread\<close>)
qed

section \<open>A connection ends\<close>

lemma forward_total:
  assumes "readers_consume (e_wire E)"
  shows "forward E om W \<noteq> None"
proof (cases "w_forwarder W")
  case (Some rf)
  define sid where "sid = (case om_TransactionDetails om of Some td \<Rightarrow> hex_encode (LsID td) | None \<Rightarrow> [])"
  obtain res rf' dc n where f: "ForwardRequest (e_group E) (e_net E) sid (om_Encode om (om_RequestID om)) (rf, snd (w_sm W), w_net W) = (res, (rf', dc, n))"
    by (metis prod_cases4)
  have d: "Decode (e_wire E) b \<noteq> None" for b using Decode_total [OF assms, of b] by auto
  from Some f show ?thesis
    by (cases "sid = []") (auto simp: d forward_def sid_def [symmetric] Let_def split: sum.split option.split)
qed (simp add: forward_def)

lemma client_RoundTrip_total:
  assumes "readers_consume (e_wire E)"
  shows "client_RoundTrip E a wm op W \<noteq> None"
proof -
  obtain res st' where "RoundTrip (e_wire E) (e_group E) (e_driver E) wm op
      \<lparr>rt_mongo = w_mongos W a, rt_sm = w_sm W, rt_drv = w_drv W, rt_trace = w_trace W\<rparr> = Some (res, st')"
    using RoundTrip_total [OF assms] by blast
  then show ?thesis by (simp add: client_RoundTrip_def)
qed

lemma roundTripWithPool_total:
  assumes "readers_consume (e_wire E)"
  shows "roundTripWithPool E wm op db a c W \<noteq> None"
  by (auto simp: roundTripWithPool_def forward_total [OF assms] client_RoundTrip_total [OF assms] Let_def split: option.split sum.split prod.split)

lemma connection_roundTrip_total:
  assumes "readers_consume (e_wire E)"
  shows "connection_roundTrip E wm op c W \<noteq> None"
  by (simp del: not_None_eq add: connection_roundTrip_def roundTripWithPool_total [OF assms] client_RoundTrip_total [OF assms]
      Let_def split: option.split outcome.split prod.split)

lemma handleMessage_total:
  assumes "readers_consume (e_wire E)"
  shows "handleMessage E c W \<noteq> None"
proof -
  have d: "Decode (e_wire E) b \<noteq> None" for b using Decode_total [OF assms, of b] by auto
  show ?thesis
    by (auto simp: handleMessage_def d connection_roundTrip_total [OF assms] Let_def
        split: option.split outcome.split prod.split sum.split)
qed

text \<open>Every message takes at least four bytes from the input.\<close>

lemma readWireMessage_consumes:
  "readWireMessage c = (Ok wm, c') \<Longrightarrow> length (c_in c') + 4 \<le> length (c_in c)"
  by (auto simp: readWireMessage_def io_ReadFull_def Let_def split: if_splits sum.splits prod.splits)

lemma handleMessage_consumes:
  assumes "handleMessage E c W = Some (Ok x, c', W')"
  shows "length (c_in c') + 4 \<le> length (c_in c)"
  using assms
proof (cases rule: handleMessage_cases)
  case (trip wm c1 op db c2 res c3)
  then show ?thesis using readWireMessage_consumes by (fastforce simp: same_stream_def)
qed auto

lemma processMessages_total:
  assumes "readers_consume (e_wire E)"
  shows "length (c_in c) < 4 * n \<Longrightarrow> processMessages n E c W \<noteq> None"
proof (induction n arbitrary: c W)
  case (Suc n)
  obtain r c' W' where h: "handleMessage E c W = Some (r, c', W')"
    using handleMessage_total [OF assms, of c W] by (metis not_None_eq prod_cases3)
  show ?case
  proof (cases r)
    case (Ok x)
    with handleMessage_consumes h have "length (c_in c') + 4 \<le> length (c_in c)" by blast
    with Suc Ok h show ?thesis by simp
  qed (use h in simp_all)
qed simp

text \<open>
  C7. A connection ends: when the driver's readers consume bytes, handling a connection
  returns after at most one message for every four bytes of the input.
\<close>

theorem handleConnection_returns:
  assumes "readers_consume (e_wire E)" and "length (c_in c) < 4 * n"
  shows "\<exists>db c' W'. handleConnection n E c W = Some (db, c', W')"
proof -
  have "length (c_in (new_connection E W c)) < 4 * n" using assms(2) by (simp add: new_connection_def)
  note t = processMessages_total [OF assms(1) this]
  have "handleConnection n E c W \<noteq> None"
    by (simp del: not_None_eq add: handleConnection_def t Let_def split: option.split prod.split)
  then show ?thesis by auto
qed

theorem handleConnection_returns_witness:
  "\<exists>db c' W'. handleConnection 2 (example_env std_wire) (example_connection\<lparr>c_in := [4, 0, 0, 0, 1]\<rparr>) example_world = Some (db, c', W')"
  by (rule handleConnection_returns) (simp_all add: example_env_def std_wire_consumes)

section \<open>A connection and the pool manager\<close>

text \<open>Every pool, and every connection a client holds, has a MongoDB client.\<close>

definition pool_clients :: "Manager \<Rightarrow> bool" where
  "pool_clients m \<longleftrightarrow>
     (\<forall>db p. pools m db = Some p \<longrightarrow> p_mongoClient (pool_heap m p) \<noteq> None) \<and>
     (\<forall>cid cl x. activeClients m cid = Some cl \<longrightarrow> AssignedConn cl = Some x \<longrightarrow> pc_MongoClient (conn_heap m x) \<noteq> None) \<and>
     (\<forall>cid cl x. activeClients m cid = Some cl \<longrightarrow> TransactionConn cl = Some x \<longrightarrow> pc_MongoClient (conn_heap m x) \<noteq> None)"

lemma update_stats_client [simp]: "p_mongoClient (pool_heap (update_stats p f m) q) = p_mongoClient (pool_heap m q)"
  by (simp add: update_stats_def)

lemma Return_client [simp]:
  "p_mongoClient (pool_heap (Return now p c m) q) = p_mongoClient (pool_heap m q)"
  "pc_MongoClient (conn_heap (Return now p c m) x) = pc_MongoClient (conn_heap m x)"
  "p_mongoClient (pool_heap (ReturnOwn now c m) q) = p_mongoClient (pool_heap m q)"
  "pc_MongoClient (conn_heap (ReturnOwn now c m) x) = pc_MongoClient (conn_heap m x)"
  "defaultMode (ReturnOwn now c m) = defaultMode m" "defaultMode (Return now p c m) = defaultMode m"
  by (simp_all add: ReturnOwn_def Return_def Let_def update_stats_def)

lemma Checkout_client:
  assumes "Checkout now p cid m = (c, m')"
  shows "p_mongoClient (pool_heap m' q) = p_mongoClient (pool_heap m q)"
    "pc_MongoClient (conn_heap m' x) = (if x = c then p_mongoClient (pool_heap m p) else pc_MongoClient (conn_heap m x))"
    "pools m' = pools m" "activeClients m' = activeClients m" "defaultMode m' = defaultMode m"
  using assms by (auto simp: Checkout_def Let_def update_stats_def)

lemma GetPool_client:
  assumes "GetPool now db (Some mc) mode m = (p, m')" and "pool_clients m"
  shows "pool_clients m'" and "p_mongoClient (pool_heap m' p) \<noteq> None" and "defaultMode m' = defaultMode m"
  using assms by (auto simp: GetPool_def pool_clients_def Let_def split: option.splits if_splits)

lemma pool_clients_Checkout:
  assumes "Checkout now p cid m = (c, m')" and "pool_clients m" and "p_mongoClient (pool_heap m p) \<noteq> None"
  shows "pool_clients m'" and "pc_MongoClient (conn_heap m' c) \<noteq> None"
  using Checkout_client [OF assms(1)] assms(2,3) by (auto simp: pool_clients_def)

lemma pool_clients_set_client:
  assumes "pool_clients m" and "\<And>x. AssignedConn cl = Some x \<or> TransactionConn cl = Some x \<Longrightarrow> pc_MongoClient (conn_heap m x) \<noteq> None"
  shows "pool_clients (set_client cid cl m)"
  using assms by (auto simp: pool_clients_def set_client_def)

lemma pool_clients_held:
  assumes "pool_clients m" and "activeClients m cid = Some cl" and "AssignedConn cl = Some x \<or> TransactionConn cl = Some x"
  shows "pc_MongoClient (conn_heap m x) \<noteq> None"
  using assms unfolding pool_clients_def by blast

lemma pool_clients_Return [simp]:
  "pool_clients m \<Longrightarrow> pool_clients (Return now p c m)" "pool_clients m \<Longrightarrow> pool_clients (ReturnOwn now c m)"
  by (simp_all add: pool_clients_def)

lemma GetPool_active:
  assumes "pool_clients m" and "activeClients m cid = Some cl"
    and "GetPool now db (Some mc) mode (set_client cid (cl\<lparr>cl_LastActivity := now\<rparr>) m) = (p, m1)"
  shows "pool_clients m1" and "p_mongoClient (pool_heap m1 p) \<noteq> None" and "defaultMode m1 = defaultMode m" and "conn_heap m1 = conn_heap m"
    and "\<And>x. AssignedConn cl = Some x \<or> TransactionConn cl = Some x \<Longrightarrow> pc_MongoClient (conn_heap m1 x) \<noteq> None"
proof -
  have "pool_clients (set_client cid (cl\<lparr>cl_LastActivity := now\<rparr>) m)"
    using pool_clients_held [OF assms(1,2)] assms(1) by (intro pool_clients_set_client) auto
  from GetPool_client [OF assms(3) this]
  show "pool_clients m1" and "p_mongoClient (pool_heap m1 p) \<noteq> None" and "defaultMode m1 = defaultMode m"
    by (simp_all add: set_client_def)
  show c: "conn_heap m1 = conn_heap m" using GetPool_frame(2) [OF assms(3)] by simp
  show "\<And>x. AssignedConn cl = Some x \<or> TransactionConn cl = Some x \<Longrightarrow> pc_MongoClient (conn_heap m1 x) \<noteq> None"
    unfolding c using pool_clients_held [OF assms(1,2)] by blast
qed

lemma GetConnection_client:
  assumes "GetConnection now cid db (Some mc) isTxn txn m = (Inr conn, m')" and "pool_clients m"
  shows "pool_clients m'" and "pc_MongoClient (conn_heap m' conn) \<noteq> None" and "defaultMode m' = defaultMode m"
proof -
  have "pool_clients m' \<and> pc_MongoClient (conn_heap m' conn) \<noteq> None \<and> defaultMode m' = defaultMode m"
    using assms(1)
  proof (cases rule: GetConnection_cases)
    case (known cl p m1)
    note g = GetPool_active [OF assms(2) known(1,2)]
    show ?thesis using g(1,3) g(5) [of conn] known(3,4) by blast
  next
    case (session cl p m1 m2)
    note g = GetPool_active [OF assms(2) session(1,2)]
    note k = pool_clients_Checkout [OF session(5) g(1,2)] and c = Checkout_client [OF session(5)]
    have "pool_clients m'"
      unfolding session(6) using k g(5) c(2) session(4) by (intro pool_clients_set_client) (auto split: if_splits)
    then show ?thesis using k g(3) c(5) session(6) by (simp add: set_client_def)
  next
    case (switch cl p m1 m2)
    note g = GetPool_active [OF assms(2) switch(1,2)]
    define m3 where "m3 = (case TransactionConn cl of None \<Rightarrow> m1 | Some c \<Rightarrow> Return now p c m1)"
    have m3: "pool_clients m3" "p_mongoClient (pool_heap m3 p) \<noteq> None" "defaultMode m3 = defaultMode m"
        "pc_MongoClient (conn_heap m3 x) = pc_MongoClient (conn_heap m1 x)" for x
      using g(1-3) by (auto simp: m3_def split: option.split)
    note co = switch(4) [folded m3_def]
    note k = pool_clients_Checkout [OF co m3(1,2)] and c = Checkout_client [OF co]
    let ?m = "m2\<lparr>conn_heap := (conn_heap m2)(conn := (conn_heap m2 conn)\<lparr>TransactionID := txn\<rparr>)\<rparr>"
    have "pool_clients ?m" using k(1) by (auto simp: pool_clients_def)
    moreover have "pc_MongoClient (conn_heap ?m x) = pc_MongoClient (conn_heap m2 x)" for x by simp
    ultimately have "pool_clients m'"
      unfolding switch(5) using k(2) g(5) c(2) m3(4) by (intro pool_clients_set_client) (auto split: if_splits)
    then show ?thesis using k(2) m3(3) c(5) switch(5) by (simp add: set_client_def)
  next
    case (fresh cl p m1)
    note g = GetPool_active [OF assms(2) fresh(1,2)]
    from pool_clients_Checkout [OF fresh(4) g(1,2)] Checkout_client(5) [OF fresh(4)] g(3) show ?thesis by simp
  qed
  then show "pool_clients m'" and "pc_MongoClient (conn_heap m' conn) \<noteq> None" and "defaultMode m' = defaultMode m" by auto
qed

lemma GetConnection_error_client:
  assumes "GetConnection now cid db (Some mc) isTxn txn m = (Inl err, m')" and "pool_clients m"
  shows "pool_clients m'" and "defaultMode m' = defaultMode m"
proof -
  have "pool_clients m' \<and> defaultMode m' = defaultMode m"
  proof (cases "activeClients m cid")
    case None
    then show ?thesis using assms by (simp add: GetConnection_def)
  next
    case (Some cl)
    obtain p m1 where p: "GetPool now db (Some mc) (cl_PoolMode cl) (set_client cid (cl\<lparr>cl_LastActivity := now\<rparr>) m) = (p, m1)" by fastforce
    have "m' = m1"
      using assms(1) Some p by (auto simp: GetConnection_def Let_def map_prod_def split: if_splits option.splits prod.splits)
    then show ?thesis using GetPool_active [OF assms(2) Some p] by simp
  qed
  then show "pool_clients m'" and "defaultMode m' = defaultMode m" by auto
qed

lemma ReturnConnection_client [simp]:
  assumes "pool_clients m"
  shows "pool_clients (ReturnConnection now cid conn isEnd m)" and "defaultMode (ReturnConnection now cid conn isEnd m) = defaultMode m"
proof -
  show "defaultMode (ReturnConnection now cid conn isEnd m) = defaultMode m"
    by (simp add: ReturnConnection_def set_client_def split: option.split)
  show "pool_clients (ReturnConnection now cid conn isEnd m)"
  proof (cases "activeClients m cid")
    case None
    then show ?thesis using assms by (simp add: ReturnConnection_def)
  next
    case (Some cl)
    have "pool_clients (set_client cid (cl\<lparr>TransactionConn := None\<rparr>) (ReturnOwn now conn m))"
      using assms pool_clients_held [OF assms Some] by (intro pool_clients_set_client) auto
    with Some assms show ?thesis by (simp add: ReturnConnection_def)
  qed
qed

lemma RegisterClient_client [simp]:
  assumes "pool_clients m"
  shows "pool_clients (snd (RegisterClient now cid user db mode m))" "defaultMode (snd (RegisterClient now cid user db mode m)) = defaultMode m"
  using assms by (auto simp: RegisterClient_def pool_clients_def Let_def split: option.split)

lemma UnregisterClient_client [simp]:
  assumes "pool_clients m"
  shows "pool_clients (UnregisterClient now cid m)" "defaultMode (UnregisterClient now cid m) = defaultMode m"
proof -
  have held: "pool_clients (return_held now x m') \<and> defaultMode (return_held now x m') = defaultMode m'" if "pool_clients m'" for x m'
    using that by (simp add: return_held_def split: option.split)
  have drop: "pool_clients (m'\<lparr>activeClients := (activeClients m')(cid := None)\<rparr>)" if "pool_clients m'" for m'
    using that by (auto simp: pool_clients_def split: if_splits)
  show "pool_clients (UnregisterClient now cid m)" "defaultMode (UnregisterClient now cid m) = defaultMode m"
    using assms held drop by (simp_all add: UnregisterClient_def Let_def split: option.split del: return_held_frame) 
qed

text \<open>Everything but the round trip with the pool leaves the manager as it is.\<close>

lemma router_GetRoute_pool [simp]: "w_pool (snd (router_GetRoute E db W)) = w_pool W"
  by (simp add: router_GetRoute_def split: prod.split)

lemma set_route_pool [simp]: "w_pool (set_route r x W) = w_pool W"
  by (simp add: set_route_def)

lemma RegisterMongoClient_pool [simp]: "w_pool (RegisterMongoClient db a W) = w_pool W"
  by (simp add: RegisterMongoClient_def)

lemma new_client_pool [simp]: "w_pool (snd (new_client E c s route W)) = w_pool W"
  by (simp add: new_client_def Let_def split: prod.split sum.split)

lemma createLazyMongoClient_pool [simp]: "w_pool (snd (createLazyMongoClient E c r db W)) = w_pool W"
proof (cases "MongoClient (w_routes W r)")
  case None
  let ?n = "new_client E c (ConnectionString (w_routes W r)) (w_routes W r) W"
  obtain x W1 where n: "?n = (x, W1)" by fastforce
  then have "w_pool W1 = w_pool W" using new_client_pool [of E c "ConnectionString (w_routes W r)" "w_routes W r" W] by simp
  with None n show ?thesis by (simp add: createLazyMongoClient_def Let_def split: sum.split)
qed (simp add: createLazyMongoClient_def Let_def)

lemma cached_credential_client_pool [simp]: "w_pool (snd (cached_credential_client E c r W)) = w_pool W"
  by (simp add: cached_credential_client_def Let_def split: prod.split)

lemma createMongoClientWithCredentials_pool [simp]: "w_pool (snd (createMongoClientWithCredentials E c r W)) = w_pool W"
proof -
  obtain x W1 where k: "cached_credential_client E c r W = (x, W1)" by fastforce
  then have "w_pool W1 = w_pool W" using cached_credential_client_pool [of E c r W] by simp
  moreover have "w_pool W2 = w_pool W1" if "new_client E c s route W1 = (y, W2)" for s route y W2
    using new_client_pool [of E c s route W1] that by simp
  ultimately show ?thesis
    using k by (auto simp: createMongoClientWithCredentials_def Let_def split: prod.split sum.split option.split)
qed

lemma getOrCreateCredentialClient_pool [simp]: "w_pool (snd (getOrCreateCredentialClient E c r W)) = w_pool W"
proof -
  obtain x W1 where k: "cached_credential_client E c r W = (x, W1)" by fastforce
  then have "w_pool W1 = w_pool W" using cached_credential_client_pool [of E c r W] by simp
  moreover obtain y W2 where "createMongoClientWithCredentials E c r W1 = (y, W2)" by fastforce
  moreover from this have "w_pool W2 = w_pool W1" using createMongoClientWithCredentials_pool [of E c r W1] by simp
  ultimately show ?thesis
    using k by (simp add: getOrCreateCredentialClient_def split: option.split outcome.split)
qed

lemma route_operation_pool [simp]: "w_pool (snd (snd (route_operation E db c W))) = w_pool W"
proof -
  obtain r W1 where r: "router_GetRoute E db W = (r, W1)" by fastforce
  then have "w_pool W1 = w_pool W" using router_GetRoute_pool [of E db W] by simp
  moreover have "w_pool W2 = w_pool W1" if "getOrCreateCredentialClient E d x W1 = (y, W2)" for d x y W2
    using getOrCreateCredentialClient_pool [of E d x W1] that by simp
  moreover have "w_pool W2 = w_pool W1" if "createLazyMongoClient E d x db W1 = (y, W2)" for d x y W2
    using createLazyMongoClient_pool [of E d x db W1] that by simp
  ultimately show ?thesis
    using r by (auto simp: route_operation_def Let_def split: prod.split sum.split option.split outcome.split)
qed

lemma validate_pool [simp]: "w_pool (snd (snd (validateCredentialsAgainstDatabase E u p db adb c W))) = w_pool W"
proof -
  obtain r W1 where r: "router_GetRoute E db W = (r, W1)" by fastforce
  then have "w_pool W1 = w_pool W" using router_GetRoute_pool [of E db W] by simp
  with r show ?thesis
    by (simp add: validateCredentialsAgainstDatabase_def Let_def split: prod.split sum.split)
qed

lemma authenticate_pool [simp]: "w_pool (snd (snd (authenticate E om c W))) = w_pool W"
proof (cases "parseAppNameCredentials (extractAppNameFromMessage (om_String om))")
  case (Inr x)
  obtain db u p a where x: "x = (db, u, p, a)" by (cases x)
  obtain r W1 where r: "router_GetRoute E db W = (r, W1)" by fastforce
  then have "w_pool W1 = w_pool W" using router_GetRoute_pool [of E db W] by simp
  moreover obtain e c2 W2 where v: "validateCredentialsAgainstDatabase E u p db db c W1 = (e, c2, W2)" by (metis prod_cases3)
  moreover have "w_pool W2 = w_pool W1" using validate_pool [of E u p db db c W1] v by simp
  ultimately show ?thesis
    using Inr x r by (simp add: authenticate_def Let_def split: sum.split option.split)
qed (simp add: authenticate_def Let_def)

lemma handshake_pool [simp]: "w_pool (snd (snd (handshake E om c W))) = w_pool W"
proof -
  obtain e c2 W2 where a: "authenticate E om c W = (e, c2, W2)" by (metis prod_cases3)
  then have "w_pool W2 = w_pool W" using authenticate_pool [of E om c W] by simp
  with a show ?thesis by (simp add: handshake_def split: outcome.split sum.split)
qed

lemma client_RoundTrip_pool: "client_RoundTrip E a wm op W = Some (r, W') \<Longrightarrow> w_pool W' = w_pool W"
  by (auto simp: client_RoundTrip_def split: option.splits)

lemma drop_failed_client_pool [simp]: "w_pool (drop_failed_client E r res W) = w_pool W"
  by (simp add: drop_failed_client_def split: outcome.split)

section \<open>Pool runs\<close>

lemma Pool_run_trans: "Pool_run modes s s' \<Longrightarrow> Pool_run modes s' s'' \<Longrightarrow> Pool_run modes s s''"
  by (rotate_tac, induction rule: Pool_run.induct) (auto intro: Pool_run.more)

lemma Pool_run_step: "Pool_step modes s s' \<Longrightarrow> Pool_run modes s s'"
  using Pool_run.more [OF Pool_run.idle] .

definition pool_ok :: "PoolMode set \<Rightarrow> Manager \<Rightarrow> bool" where
  "pool_ok modes m \<longleftrightarrow> pool_clients m \<and> defaultMode m \<in> modes"

definition pool_use :: "PoolMode set \<Rightarrow> (string \<rightharpoonup> pconn_ref) \<Rightarrow> Manager \<Rightarrow> Manager \<Rightarrow> bool" where
  "pool_use modes fl m m' \<longleftrightarrow> Pool_run modes (m, fl) (m', fl) \<and> pool_ok modes m'"

lemma pool_use_idle: "pool_ok modes m \<Longrightarrow> pool_use modes fl m m"
  by (simp add: pool_use_def Pool_run.idle)

lemma pool_use_trans: "pool_use modes fl m m' \<Longrightarrow> pool_use modes fl m' m'' \<Longrightarrow> pool_use modes fl m m''"
  using Pool_run_trans by (auto simp: pool_use_def)

lemma pool_use_unregister: "pool_ok modes m \<Longrightarrow> fl cid = None \<Longrightarrow> pool_use modes fl m (UnregisterClient now cid m)"
  by (auto simp: pool_use_def pool_ok_def intro!: Pool_run_step Pool_step.unregister)

lemma pool_use_register:
  "pool_ok modes m \<Longrightarrow> pool_use modes fl m (snd (RegisterClient now cid user db (defaultMode m) m))"
  by (auto simp: pool_use_def pool_ok_def intro!: Pool_run_step Pool_step.register)

lemma reregister_use:
  assumes "reregister E db c W = (r, W')" and "pool_ok modes (w_pool W)" and "fl (clientID c) = None"
  shows "pool_use modes fl (w_pool W) (w_pool W')"
proof -
  define need where "need = (case GetClient (clientID c) (w_pool W) of None \<Rightarrow> (True, w_pool W)
     | Some cl \<Rightarrow> if cl_Database cl \<noteq> db then (True, UnregisterClient (w_now E W) (clientID c) (w_pool W)) else (False, w_pool W))"
  have 1: "pool_use modes fl (w_pool W) (snd need)"
    using assms(2,3) by (auto simp: need_def split: option.split intro: pool_use_idle pool_use_unregister)
  have "pool_use modes fl (snd need) (w_pool W')"
  proof (cases "fst need")
    case True
    then have "w_pool W' = snd (RegisterClient (w_now E W) (clientID c) (if clientUsername c = [] then ''default'' else clientUsername c) db
        (defaultMode (snd need)) (snd need))"
      using assms(1) by (auto simp: reregister_def need_def [symmetric] GetDefaultMode_def Let_def split: prod.splits)
    with 1 show ?thesis by (simp add: pool_use_register pool_use_def [of _ _ "w_pool W"])
  next
    case False
    then have "w_pool W' = snd need"
      using assms(1) by (auto simp: reregister_def need_def [symmetric] Let_def split: prod.splits)
    with 1 show ?thesis by (simp add: pool_use_idle pool_use_def [of _ _ "w_pool W"])
  qed
  with 1 show ?thesis by (rule pool_use_trans)
qed

lemma roundTripWithPool_cases:
  assumes "roundTripWithPool E wm op db a c W = Some (r, W')"
  obtains (forwarded) "w_pool W' = w_pool W"
  | (pooled) W1 db' e W2 where "w_pool W1 = w_pool W" "reregister E db' c W1 = (e, W2)" "w_pool W' = w_pool W2"
  | (refused) W1 db' W2 now isTxn txn err where "w_pool W1 = w_pool W" "reregister E db' c W1 = (None, W2)"
      "GetConnection now (clientID c) db' (Some a) isTxn txn (w_pool W2) = (Inl err, w_pool W')"
  | (unusable) W1 db' W2 now isTxn txn pc where "w_pool W1 = w_pool W" "reregister E db' c W1 = (None, W2)"
      "GetConnection now (clientID c) db' (Some a) isTxn txn (w_pool W2) = (Inr pc, w_pool W')" "pc_MongoClient (conn_heap (w_pool W') pc) = None"
  | (served) W1 db' W2 now isTxn txn pc m now' isEnd where "w_pool W1 = w_pool W" "reregister E db' c W1 = (None, W2)"
      "GetConnection now (clientID c) db' (Some a) isTxn txn (w_pool W2) = (Inr pc, m)" "w_pool W' = ReturnConnection now' (clientID c) pc isEnd m"
proof -
  let ?om = "methods (e_wire E) op" and ?db = "if db = [] then ''default'' else db"
  obtain f W1 where f: "forward E ?om W = Some (f, W1)"
    using assms(1) by (cases "forward E ?om W") (auto simp: roundTripWithPool_def)
  note p1 = forward_pool [OF f]
  show ?thesis
  proof (cases f)
    case (Some x)
    then have "W' = W1" using assms f by (auto simp: roundTripWithPool_def split: sum.splits)
    with p1 show ?thesis by (intro forwarded) simp
  next
    case None
    obtain e W2 where e: "reregister E ?db c W1 = (e, W2)" by fastforce
    show ?thesis
    proof (cases e)
      case (Some err)
      then have "W' = W2" using assms(1) f None e by (simp add: roundTripWithPool_def Let_def split: if_splits)
      with p1 e show ?thesis by (intro pooled) auto
    next
      case n: None
      define td where "td = om_TransactionDetails ?om"
      define isTxn where "isTxn = (case td of Some td \<Rightarrow> \<not> Autocommit td | None \<Rightarrow> False)"
      define txn where "txn = (case td of Some td \<Rightarrow> hex_encode (LsID td) @ ''-'' @ show_int (TxnNumber td) | None \<Rightarrow> [])"
      obtain g m where g: "GetConnection (w_now E W2) (clientID c) ?db (Some a) isTxn txn (w_pool W2) = (g, m)" by fastforce
      have run: "Some (r, W') = (case g of
            Inl err \<Rightarrow> Some (Fail (ErrorString err), W2\<lparr>w_pool := m\<rparr>)
          | Inr pc \<Rightarrow> (case pc_MongoClient (conn_heap m pc) of
                None \<Rightarrow> Some (Panic, W2\<lparr>w_pool := m\<rparr>)
              | Some a \<Rightarrow> (case client_RoundTrip E a wm op (W2\<lparr>w_pool := m\<rparr>) of
                    None \<Rightarrow> None
                  | Some (res, W) \<Rightarrow> Some (case res of Inl err \<Rightarrow> Fail err | Inr m \<Rightarrow> Ok m,
                      W\<lparr>w_pool := ReturnConnection (w_now E W) (clientID c) pc (isEndOfTransaction ?om) (w_pool W)\<rparr>))))"
        using assms(1) f None e n g unfolding roundTripWithPool_def td_def isTxn_def txn_def Let_def
        by (cases "db = []"; cases g) (simp_all split: if_splits)
      show ?thesis
      proof (cases g)
        case (Inl err)
        then have "w_pool W' = m" using run by simp
        with p1 e n g Inl show ?thesis by (intro refused [of W1 ?db W2 "w_now E W2" isTxn txn err]) auto
      next
        case (Inr pc)
        show ?thesis
        proof (cases "pc_MongoClient (conn_heap m pc)")
          case nm: None
          then have "w_pool W' = m" using run Inr by simp
          with p1 e n g Inr nm show ?thesis by (intro unusable [of W1 ?db W2 "w_now E W2" isTxn txn pc]) auto
        next
          case (Some b)
          then obtain res W3 where t: "client_RoundTrip E b wm op (W2\<lparr>w_pool := m\<rparr>) = Some (res, W3)"
            using run Inr by (auto split: option.splits)
          have "w_pool W3 = m" using client_RoundTrip_pool [OF t] by simp
          then have "w_pool W' = ReturnConnection (w_now E W3) (clientID c) pc (isEndOfTransaction ?om) m"
            using run Inr Some t by simp
          with p1 e n g Inr show ?thesis by (intro served [of W1 ?db W2 "w_now E W2" isTxn txn pc m]) auto
        qed
      qed
    qed
  qed
qed

lemma GetConnection_refused_use:
  assumes "GetConnection now cid db (Some a) isTxn txn m = (Inl err, m')" and "pool_ok modes m"
  shows "pool_use modes fl m m'"
proof -
  have "Pool_step modes (m, fl) (m', fl)" using assms(1) by (auto intro: Pool_step.get_error)
  then show ?thesis
    using GetConnection_error_client [OF assms(1)] assms(2) by (simp add: pool_use_def pool_ok_def Pool_run_step)
qed

lemma GetConnection_return_use:
  assumes "GetConnection now cid db (Some a) isTxn txn m = (Inr pc, m1)" and "pool_ok modes m" and "fl cid = None"
    and "m' = ReturnConnection now' cid pc isEnd m1"
  shows "pool_use modes fl m m'"
proof -
  have "pool_clients m" using assms(2) by (simp add: pool_ok_def)
  note cl = GetConnection_client [OF assms(1) this]
  have "Pool_step modes (m, fl) (m1, fl(cid \<mapsto> pc))" using assms(1,3) by (auto intro: Pool_step.get)
  moreover have "Pool_step modes (m1, fl(cid \<mapsto> pc)) (m', (fl(cid \<mapsto> pc))(cid := None))"
    unfolding assms(4) by (rule Pool_step.return) simp
  moreover have "(fl(cid \<mapsto> pc))(cid := None) = fl" using assms(3) by auto
  ultimately have "Pool_run modes (m, fl) (m', fl)" using Pool_run_step Pool_run.more by metis
  then show ?thesis using assms(2,4) cl(1,3) by (simp add: pool_use_def pool_ok_def)
qed

lemma roundTripWithPool_use:
  assumes "roundTripWithPool E wm op db a c W = Some (r, W')" and "pool_ok modes (w_pool W)" and free: "fl (clientID c) = None"
  shows "pool_use modes fl (w_pool W) (w_pool W')"
proof -
  have re: "pool_use modes fl (w_pool W) (w_pool W2) \<and> pool_ok modes (w_pool W2)"
    if "w_pool W1 = w_pool W" "reregister E db' c W1 = (e, W2)" for W1 db' e W2
    using reregister_use [OF that(2), of modes fl] that(1) assms(2) free by (simp add: pool_use_def)
  from assms(1) show ?thesis
  proof (cases rule: roundTripWithPool_cases)
    case forwarded
    then show ?thesis using assms(2) by (simp add: pool_use_idle)
  next
    case (pooled W1 db' e W2)
    then show ?thesis using re [OF pooled(1,2)] by simp
  next
    case (refused W1 db' W2 now isTxn txn err)
    note u = re [OF refused(1,2)]
    from GetConnection_refused_use [OF refused(3), of modes fl] u show ?thesis using pool_use_trans by blast
  next
    case (unusable W1 db' W2 now isTxn txn pc)
    from re [OF unusable(1,2)] have "pool_clients (w_pool W2)" by (simp add: pool_ok_def)
    from GetConnection_client(2) [OF unusable(3) this] unusable(4) show ?thesis by simp
  next
    case (served W1 db' W2 now isTxn txn pc m now' isEnd)
    note u = re [OF served(1,2)]
    from GetConnection_return_use [OF served(3), where fl = fl, OF _ free served(4)] u show ?thesis using pool_use_trans by blast
  qed
qed

lemma connection_roundTrip_use:
  assumes "connection_roundTrip E wm op c W = Some (r, c', W')" and "pool_ok modes (w_pool W)" and "fl (clientID c) = None"
  shows "pool_use modes fl (w_pool W) (w_pool W')"
proof -
  let ?om = "methods (e_wire E) op"
  obtain db c1 where x: "connection_extractDatabaseName ?om c = (db, c1)" by fastforce
  obtain res c2 W2 where ro: "route_operation E db c1 W = (res, c2, W2)" by (metis prod_cases3)
  have p2: "w_pool W2 = w_pool W" using route_operation_pool [of E db c1 W] ro by simp
  have free: "fl (clientID c2) = None"
    using assms(3) extract_stream [OF x] route_stream [OF ro] by (simp add: same_stream_def)
  show ?thesis
  proof (cases "is_handshake ?om")
    case True
    then have "w_pool W' = w_pool W" using assms(1) x handshake_pool [of E ?om c1 W] by (simp add: connection_roundTrip_def Let_def)
    with assms(2) show ?thesis by (simp add: pool_use_idle)
  next
    case False
    show ?thesis
    proof (cases res)
      case (Ok y)
      obtain ro' a where y: "y = (ro', a)" by (cases y)
      show ?thesis
      proof (cases "isUsingCredentialPassthrough c2")
        case True
        with assms(1) x ro False Ok y obtain z W3 where "client_RoundTrip E a wm op W2 = Some (z, W3)" "w_pool W' = w_pool W3"
          by (auto simp: connection_roundTrip_def Let_def split: option.splits)
        with p2 client_RoundTrip_pool assms(2) show ?thesis by (metis pool_use_idle)
      next
        case pooled: False
        with assms(1) x ro False Ok y obtain z W3 where "roundTripWithPool E wm op db a c2 W2 = Some (z, W3)" "w_pool W' = w_pool W3"
          by (auto simp: connection_roundTrip_def Let_def split: option.splits)
        with roundTripWithPool_use [of E wm op db a c2 W2 z W3 modes fl] free p2 assms(2) show ?thesis by metis
      qed
    qed (use assms(1,2) x ro False p2 in \<open>auto simp: connection_roundTrip_def Let_def pool_use_idle\<close>)
  qed
qed

lemma handleMessage_use:
  assumes "handleMessage E c W = Some (r, c', W')" and "pool_ok modes (w_pool W)" and "fl (clientID c) = None"
  shows "pool_use modes fl (w_pool W) (w_pool W') \<and> clientID c' = clientID c"
  using assms(1)
proof (cases rule: handleMessage_cases)
  case unread
  then show ?thesis using assms(2) by (simp add: pool_use_idle)
next
  case (trip wm c1 op db c2 res c3)
  have "clientID c1 = clientID c"
    using trip(1) by (auto simp: readWireMessage_def io_ReadFull_def Let_def split: if_splits sum.splits prod.splits)
  moreover have "clientID c2 = clientID c1" using extract_stream [OF trip(3)] by (simp add: same_stream_def)
  ultimately show ?thesis
    using connection_roundTrip_use [OF trip(4) assms(2), of fl] assms(3) trip(5) by (simp add: same_stream_def)
qed

lemma processMessages_use:
  assumes "processMessages n E c W = Some (r, c', W')" and "pool_ok modes (w_pool W)" and "fl (clientID c) = None"
  shows "pool_use modes fl (w_pool W) (w_pool W') \<and> clientID c' = clientID c"
  using assms
proof (induction n arbitrary: c W)
  case (Suc n)
  obtain x c1 W1 where h: "handleMessage E c W = Some (x, c1, W1)"
    using Suc.prems(1) by (cases "handleMessage E c W") auto
  note u = handleMessage_use [OF h Suc.prems(2), of fl, OF Suc.prems(3)]
  show ?case
  proof (cases x)
    case (Ok y)
    then have "processMessages n E c1 W1 = Some (r, c', W')" using Suc.prems(1) h by simp
    from Suc.IH [OF this] u Suc.prems(3) have "pool_use modes fl (w_pool W1) (w_pool W') \<and> clientID c' = clientID c" by (simp add: pool_use_def)
    with u show ?thesis using pool_use_trans by blast
  qed (use Suc.prems(1) h u in auto)
qed simp

text \<open>
  C5. A connection uses the pool manager as its contract asks for, whatever the client sends and
  however the connection ends, a panic included: from registering to unregistering it is an
  execution of the manager in which every connection it got is given back, in the pool mode of
  the manager, next to the requests in flight of other clients. Its client is not registered any more.
\<close>

theorem handleConnection_is_pool_run:
  assumes "handleConnection n E c W = Some (db, c', W')" and "pool_clients (w_pool W)"
    and "fl (address c @ ''-'' @ show_int (w_now E W)) = None"
  shows "Pool_run {defaultMode (w_pool W)} (w_pool W, fl) (w_pool W', fl) \<and>
    activeClients (w_pool W') (address c @ ''-'' @ show_int (w_now E W)) = None"
proof -
  let ?modes = "{defaultMode (w_pool W)}" and ?c = "new_connection E W c"
  have id: "clientID ?c = address c @ ''-'' @ show_int (w_now E W)" by (simp add: new_connection_def)
  have ok: "pool_ok ?modes (w_pool W)" using assms(2) by (simp add: pool_ok_def)
  define m where "m = snd (RegisterClient (w_now E W) (clientID ?c) ''default'' ''default'' (defaultMode (w_pool W)) (w_pool W))"
  have u1: "pool_use ?modes fl (w_pool W) m" unfolding m_def by (rule pool_use_register [OF ok])
  obtain res c1 W1 where p: "processMessages n E ?c (W\<lparr>w_pool := m\<rparr>) = Some (res, c1, W1)"
      and W': "w_pool W' = UnregisterClient (w_now E W1) (clientID c1) (w_pool W1)"
    using assms(1) by (auto simp: handleConnection_def m_def GetDefaultMode_def Let_def split: prod.splits option.splits)
  have u2: "pool_use ?modes fl m (w_pool W1) \<and> clientID c1 = clientID ?c"
    using processMessages_use [OF p, of ?modes fl] u1 assms(3) id by (simp add: pool_use_def)
  have "pool_use ?modes fl (w_pool W1) (w_pool W')"
    unfolding W' using u2 assms(3) id by (intro pool_use_unregister) (auto simp: pool_use_def)
  with u1 u2 have "pool_use ?modes fl (w_pool W) (w_pool W')" using pool_use_trans by blast
  moreover have "activeClients (w_pool W') (clientID ?c) = None"
    unfolding W' using u2 by (simp add: UnregisterClient_def Let_def split: option.split)
  ultimately show ?thesis by (simp add: pool_use_def id)
qed

theorem handleConnection_is_pool_run_witness:
  "\<exists>db c' W'. handleConnection 2 (example_env std_wire) (example_connection\<lparr>c_in := [4, 0, 0, 0, 1]\<rparr>) example_world = Some (db, c', W') \<and>
     Pool_run {''session''} (w_pool example_world, Map.empty) (w_pool W', Map.empty) \<and> activeClients (w_pool W') ''a-0'' = None"
proof -
  let ?E = "example_env std_wire" and ?c = "example_connection\<lparr>c_in := [4, 0, 0, 0, 1]\<rparr>"
  have "readers_consume (e_wire ?E)" by (simp add: example_env_def std_wire_consumes)
  from processMessages_total [OF this] have "handleConnection 2 ?E ?c example_world \<noteq> None"
    by (simp del: not_None_eq processMessages.simps add: handleConnection_def new_connection_def Let_def split: option.split prod.split)
  then obtain db c' W' where h: "handleConnection 2 ?E ?c example_world = Some (db, c', W')" by auto
  have "pool_clients (w_pool example_world)" by (simp add: pool_clients_def example_world_def NewManager_def)
  moreover have "address ?c @ ''-'' @ show_int (w_now ?E example_world) = ''a-0''"
    by (simp add: example_connection_def w_now_def example_env_def example_driver_def show_int_def show_nat.simps digit_char_def char_of_def bit_Suc_0_iff)
  moreover have "defaultMode (w_pool example_world) = ''session''" by (simp add: example_world_def NewManager_def)
  ultimately show ?thesis
    using handleConnection_is_pool_run [OF h, where fl = Map.empty] h by auto
qed

end
