(* ===== verification/Metrics.thy ===== *)
theory Metrics
  imports Prelude Complex_Main
begin

text \<open>
  The metrics, \<^verbatim>\<open>src/util/metrics.go\<close> and \<^verbatim>\<open>src/util/batched_metrics.go\<close>. The Prometheus library
  is seen through the calls that are made of it: a client makes a list of calls on the
  metrics that are declared. A \<^verbatim>\<open>float64\<close> is a real number here: only counts, sizes and durations
  in seconds occur. Shown here: every call has the labels its metric declares; batching does
  not change what a metric receives, nor in which order; the background gauge never
  shows too few connections, but may show too many for ever.
\<close>

type_synonym float64 = real

section \<open>The declared metrics\<close>

datatype metric =
    openConnections | connectionOpenedTotal | connectionClosedTotal | mongobouncerUp
  | messageHandleDuration | roundTripDuration | requestSizeBytes | responseSizeBytes
  | cursorsActive | cursorsOpenedTotal | cursorsClosedTotal
  | transactionsActive | transactionsCommittedTotal | transactionsAbortedTotal
  | serverSelectionDuration | checkoutConnectionDuration | poolEventCounters | requestsTotal | errorsTotal
  | poolActiveConnections | poolTotalConnections | poolMaxConnections | poolUtilizationRatio
  | poolCheckoutTotal | poolCheckinTotal | poolCheckoutFailuresTotal | poolConnectionCheckoutDuration
  | sessionsActive | ismasterCommandsTotal | serverSelectionTotal | maxClientConnections | clientWaitTime

datatype metric_kind = KCounter | KGauge | KHistogram

text \<open>Kind, name and label names; the help texts and the buckets of the histograms are left out.\<close>

fun metric_opts :: "metric \<Rightarrow> metric_kind \<times> string \<times> string list" where
  "metric_opts openConnections = (KGauge, ''mongobouncer_open_connections_total'', [''type''])"
| "metric_opts connectionOpenedTotal = (KCounter, ''mongobouncer_connections_opened_total'', [])"
| "metric_opts connectionClosedTotal = (KCounter, ''mongobouncer_connections_closed_total'', [])"
| "metric_opts mongobouncerUp = (KGauge, ''mongobouncer_up'', [])"
| "metric_opts messageHandleDuration = (KHistogram, ''mongobouncer_message_handle_duration_seconds'', [''success''])"
| "metric_opts roundTripDuration = (KHistogram, ''mongobouncer_round_trip_duration_seconds'', [''database''])"
| "metric_opts requestSizeBytes = (KHistogram, ''mongobouncer_request_size_bytes'', [''database''])"
| "metric_opts responseSizeBytes = (KHistogram, ''mongobouncer_response_size_bytes'', [''database''])"
| "metric_opts cursorsActive = (KGauge, ''mongobouncer_cursors_active_total'', [''database''])"
| "metric_opts cursorsOpenedTotal = (KCounter, ''mongobouncer_cursors_opened_total'', [''database''])"
| "metric_opts cursorsClosedTotal = (KCounter, ''mongobouncer_cursors_closed_total'', [''database''])"
| "metric_opts transactionsActive = (KGauge, ''mongobouncer_transactions_active_total'', [''database''])"
| "metric_opts transactionsCommittedTotal = (KCounter, ''mongobouncer_transactions_committed_total'', [''database''])"
| "metric_opts transactionsAbortedTotal = (KCounter, ''mongobouncer_transactions_aborted_total'', [''database''])"
| "metric_opts serverSelectionDuration = (KHistogram, ''mongobouncer_server_selection_duration_seconds'', [''database''])"
| "metric_opts checkoutConnectionDuration = (KHistogram, ''mongobouncer_checkout_connection_duration_seconds'', [''database''])"
| "metric_opts poolEventCounters = (KCounter, ''mongobouncer_pool_events_total'', [''event_type''])"
| "metric_opts requestsTotal = (KCounter, ''mongobouncer_requests_total'', [''database'', ''operation''])"
| "metric_opts errorsTotal = (KCounter, ''mongobouncer_errors_total'', [''database'', ''error_type''])"
| "metric_opts poolActiveConnections = (KGauge, ''mongobouncer_pool_active_connections'', [''database''])"
| "metric_opts poolTotalConnections = (KGauge, ''mongobouncer_pool_total_connections'', [''database''])"
| "metric_opts poolMaxConnections = (KGauge, ''mongobouncer_pool_max_connections'', [''database''])"
| "metric_opts poolUtilizationRatio = (KGauge, ''mongobouncer_pool_utilization_ratio'', [''database''])"
| "metric_opts poolCheckoutTotal = (KGauge, ''mongobouncer_pool_checkout_total'', [''database''])"
| "metric_opts poolCheckinTotal = (KGauge, ''mongobouncer_pool_checkin_total'', [''database''])"
| "metric_opts poolCheckoutFailuresTotal = (KGauge, ''mongobouncer_pool_checkout_failures_total'', [''database''])"
| "metric_opts poolConnectionCheckoutDuration = (KHistogram, ''mongobouncer_pool_checkout_duration_seconds'', [''database''])"
| "metric_opts sessionsActive = (KGauge, ''mongobouncer_sessions_active_total'', [''database''])"
| "metric_opts ismasterCommandsTotal = (KCounter, ''mongobouncer_ismaster_commands_total'', [])"
| "metric_opts serverSelectionTotal = (KCounter, ''mongobouncer_server_selections_total'', [''database''])"
| "metric_opts maxClientConnections = (KGauge, ''mongobouncer_max_client_connections_total'', [])"
| "metric_opts clientWaitTime = (KHistogram, ''mongobouncer_client_wait_duration_seconds'', [''database''])"

text \<open>The calls \<^verbatim>\<open>WithLabelValues(labels)\<close> followed by \<^verbatim>\<open>Inc\<close>, \<^verbatim>\<open>Set\<close>, \<^verbatim>\<open>Add\<close> or \<^verbatim>\<open>Observe\<close>.\<close>

datatype prom_call = Inc metric "string list" | SetTo metric "string list" float64
  | AddTo metric "string list" float64 | Observe metric "string list" float64

fun call_metric :: "prom_call \<Rightarrow> metric" where
  "call_metric (Inc m _) = m" | "call_metric (SetTo m _ _) = m"
| "call_metric (AddTo m _ _) = m" | "call_metric (Observe m _ _) = m"

text \<open>The library panics on a wrong number of labels, and a metric has the methods of its kind.\<close>

fun call_ok :: "prom_call \<Rightarrow> bool" where
  "call_ok (Inc m ls) = (fst (metric_opts m) = KCounter \<and> length ls = length (snd (snd (metric_opts m))))"
| "call_ok (SetTo m ls _) = (fst (metric_opts m) = KGauge \<and> length ls = length (snd (snd (metric_opts m))))"
| "call_ok (AddTo m ls _) = (fst (metric_opts m) = KGauge \<and> length ls = length (snd (snd (metric_opts m))))"
| "call_ok (Observe m ls _) = (fst (metric_opts m) = KHistogram \<and> length ls = length (snd (snd (metric_opts m))))"

section \<open>The tags\<close>

text \<open>The loop of the tag parsers: what follows the prefix in the first tag that has it.\<close>

definition first_tag :: "string \<Rightarrow> string \<Rightarrow> string list \<Rightarrow> string" where
  "first_tag p other tags = (case List.find (\<lambda>tag. HasPrefix tag p) tags of Some tag \<Rightarrow> drop (length p) tag | None \<Rightarrow> other)"

definition parseSuccessTag :: "string list \<Rightarrow> string" where
  "parseSuccessTag tags = first_tag ''success:'' ''true'' tags"

definition parseDatabaseTag :: "string list \<Rightarrow> string" where
  "parseDatabaseTag tags = first_tag ''database:'' ''default'' tags"

definition parseErrorTag :: "string list \<Rightarrow> string" where
  "parseErrorTag tags = first_tag ''error_type:'' ''unknown'' tags"

definition parseStateTag :: "string list \<Rightarrow> string" where
  "parseStateTag tags = first_tag ''state:'' ''unknown'' tags"

definition parseUserTag :: "string list \<Rightarrow> string" where
  "parseUserTag tags = first_tag ''user:'' ''default'' tags"

definition parseRequestTags :: "string list \<Rightarrow> string \<times> string" where
  "parseRequestTags tags =
     fold (\<lambda>tag (database, operation).
             if HasPrefix tag ''database:'' then (drop 9 tag, operation)
             else if HasPrefix tag ''operation:'' then (database, drop 10 tag)
             else (database, operation))
       tags (''default'', ''unknown'')"

definition parseTagsToLabels :: "string list \<Rightarrow> string list" where
  "parseTagsToLabels tags =
     (let labels = map (\<lambda>tag. case Index tag '':'' of Some idx \<Rightarrow> drop (idx + 1) tag | None \<Rightarrow> tag) tags
      in if labels = [] then [''default''] else labels)"

section \<open>The Prometheus client\<close>

definition seconds :: "duration \<Rightarrow> float64" where
  "seconds d = of_int d / 1000000000"

definition MetricsClient_Timing :: "string \<Rightarrow> duration \<Rightarrow> string list \<Rightarrow> float64 \<Rightarrow> prom_call list" where
  "MetricsClient_Timing name d tags rate =
     (let success = parseSuccessTag tags; database = parseDatabaseTag tags
      in if name = ''handle_message'' then [Observe messageHandleDuration [success] (seconds d)]
         else if name = ''round_trip'' then [Observe roundTripDuration [database] (seconds d)]
         else if name = ''server_selection'' then [Observe serverSelectionDuration [database] (seconds d)]
         else if name = ''checkout_connection'' then [Observe checkoutConnectionDuration [database] (seconds d)]
         else if name = ''client_wait'' then [Observe clientWaitTime [database] (seconds d)]
         else [])"

definition MetricsClient_Incr :: "string \<Rightarrow> string list \<Rightarrow> float64 \<Rightarrow> prom_call list" where
  "MetricsClient_Incr name tags rate =
     (let database = parseDatabaseTag tags
      in if name = ''connection_opened'' then [Inc connectionOpenedTotal []]
         else if name = ''connection_closed'' then [Inc connectionClosedTotal []]
         else if name = ''request'' then (case parseRequestTags tags of (database, operation) \<Rightarrow> [Inc requestsTotal [database, operation]])
         else if name = ''error'' then [Inc errorsTotal [database, parseErrorTag tags]]
         else if name = ''ismaster_command'' then [Inc ismasterCommandsTotal []]
         else if name = ''server_selection'' then [Inc serverSelectionTotal [database]]
         else if name = ''cursor_opened'' then [Inc cursorsOpenedTotal [database]]
         else if name = ''cursor_closed'' then [Inc cursorsClosedTotal [database]]
         else if name = ''transaction_committed'' then [Inc transactionsCommittedTotal [database]]
         else if name = ''transaction_aborted'' then [Inc transactionsAbortedTotal [database]]
         else [Inc poolEventCounters [name]])"

definition MetricsClient_Gauge :: "string \<Rightarrow> float64 \<Rightarrow> string list \<Rightarrow> float64 \<Rightarrow> prom_call list" where
  "MetricsClient_Gauge name v tags rate =
     (let database = parseDatabaseTag tags
      in if name = ''open_connections'' then [SetTo openConnections [''client''] v]
         else if name = ''cursors'' then [SetTo cursorsActive [database] v]
         else if name = ''transactions'' then [SetTo transactionsActive [database] v]
         else if name = ''sessions_active'' then [AddTo sessionsActive [database] v]
         else if name = ''max_client_connections'' then [SetTo maxClientConnections [] v]
         else if name = ''pool_active_connections'' then [SetTo poolActiveConnections [database] v]
         else if name = ''pool_total_connections'' then [SetTo poolTotalConnections [database] v]
         else if name = ''pool_max_connections'' then [SetTo poolMaxConnections [database] v]
         else if name = ''pool_utilization_ratio'' then [SetTo poolUtilizationRatio [database] v]
         else if name = ''pool_checkout_total'' then [SetTo poolCheckoutTotal [database] v]
         else if name = ''pool_checkin_total'' then [SetTo poolCheckinTotal [database] v]
         else if name = ''pool_checkout_failures_total'' then [SetTo poolCheckoutFailuresTotal [database] v]
         else [])"

definition MetricsClient_Distribution :: "string \<Rightarrow> float64 \<Rightarrow> string list \<Rightarrow> float64 \<Rightarrow> prom_call list" where
  "MetricsClient_Distribution name v tags rate =
     (let database = parseDatabaseTag tags
      in if name = ''request_size'' then [Observe requestSizeBytes [database] v]
         else if name = ''response_size'' then [Observe responseSizeBytes [database] v]
         else if name = ''pool_checkout_duration'' then [Observe poolConnectionCheckoutDuration [database] v]
         else [])"

text \<open>The metrics of \<^verbatim>\<open>MustRegister\<close>, in the order of the source; the first call sets the gauge of the health.\<close>

definition registered :: "metric list" where
  "registered =
     [openConnections, connectionOpenedTotal, connectionClosedTotal, mongobouncerUp, messageHandleDuration, roundTripDuration,
      requestSizeBytes, responseSizeBytes, cursorsActive, cursorsOpenedTotal, cursorsClosedTotal, transactionsActive,
      transactionsCommittedTotal, transactionsAbortedTotal, serverSelectionDuration, checkoutConnectionDuration,
      requestsTotal, errorsTotal, sessionsActive, ismasterCommandsTotal, serverSelectionTotal, maxClientConnections,
      clientWaitTime, poolEventCounters, poolActiveConnections, poolTotalConnections, poolMaxConnections,
      poolUtilizationRatio, poolCheckoutTotal, poolCheckinTotal, poolCheckoutFailuresTotal, poolConnectionCheckoutDuration]"

definition MetricsClient_New :: "prom_call list" where
  "MetricsClient_New = [SetTo mongobouncerUp [] 1]"

definition MetricsClient_Shutdown :: "prom_call list" where
  "MetricsClient_Shutdown = [SetTo mongobouncerUp [] 0]"

definition MetricsClient_Flush :: "prom_call list" where
  "MetricsClient_Flush = []"

definition MetricsClient_Close :: "prom_call list" where
  "MetricsClient_Close = MetricsClient_Shutdown"

section \<open>The batched client\<close>

record TimingOperation =
  t_Name :: string
  t_Duration :: duration
  t_Tags :: "string list"
  t_Rate :: float64

record CounterOperation =
  n_Name :: string
  n_Tags :: "string list"
  n_Rate :: float64

record GaugeOperation =
  ga_Name :: string
  ga_Value :: float64
  ga_Tags :: "string list"
  ga_Rate :: float64

record DistributionOperation =
  d_Name :: string
  d_Value :: float64
  d_Tags :: "string list"
  d_Rate :: float64

text \<open>\<open>bm_calls\<close> are the calls that \<^verbatim>\<open>client\<close> has made; \<open>bm_cancelled\<close> says that the flush loop was stopped.\<close>

record BatchedMetricsClient =
  batchSize :: int
  timingBatch :: "TimingOperation list"
  counterBatch :: "CounterOperation list"
  gaugeBatch :: "GaugeOperation list"
  distributionBatch :: "DistributionOperation list"
  bm_calls :: "prom_call list"
  bm_cancelled :: bool

text \<open>\<^verbatim>\<open>make\<close> panics on a negative capacity. \<open>calls\<close> are the calls of the client so far.\<close>

definition NewBatchedMetricsClient :: "prom_call list \<Rightarrow> int \<Rightarrow> go_panic + BatchedMetricsClient" where
  "NewBatchedMetricsClient calls n =
     (if n < 0 then Inl (Explicit ''makeslice: cap out of range'')
      else Inr \<lparr>batchSize = n, timingBatch = [], counterBatch = [], gaugeBatch = [], distributionBatch = [],
                bm_calls = calls, bm_cancelled = False\<rparr>)"

definition timing_calls :: "TimingOperation \<Rightarrow> prom_call list" where
  "timing_calls op = MetricsClient_Timing (t_Name op) (t_Duration op) (t_Tags op) (t_Rate op)"

definition counter_calls :: "CounterOperation \<Rightarrow> prom_call list" where
  "counter_calls op = MetricsClient_Incr (n_Name op) (n_Tags op) (n_Rate op)"

definition gauge_calls :: "GaugeOperation \<Rightarrow> prom_call list" where
  "gauge_calls op = MetricsClient_Gauge (ga_Name op) (ga_Value op) (ga_Tags op) (ga_Rate op)"

definition distribution_calls :: "DistributionOperation \<Rightarrow> prom_call list" where
  "distribution_calls op = MetricsClient_Distribution (d_Name op) (d_Value op) (d_Tags op) (d_Rate op)"

definition flushTimingBatch :: "BatchedMetricsClient \<Rightarrow> BatchedMetricsClient" where
  "flushTimingBatch b = (if timingBatch b = [] then b
     else b\<lparr>bm_calls := bm_calls b @ concat (map timing_calls (timingBatch b)), timingBatch := []\<rparr>)"

definition flushCounterBatch :: "BatchedMetricsClient \<Rightarrow> BatchedMetricsClient" where
  "flushCounterBatch b = (if counterBatch b = [] then b
     else b\<lparr>bm_calls := bm_calls b @ concat (map counter_calls (counterBatch b)), counterBatch := []\<rparr>)"

definition flushGaugeBatch :: "BatchedMetricsClient \<Rightarrow> BatchedMetricsClient" where
  "flushGaugeBatch b = (if gaugeBatch b = [] then b
     else b\<lparr>bm_calls := bm_calls b @ concat (map gauge_calls (gaugeBatch b)), gaugeBatch := []\<rparr>)"

definition flushDistributionBatch :: "BatchedMetricsClient \<Rightarrow> BatchedMetricsClient" where
  "flushDistributionBatch b = (if distributionBatch b = [] then b
     else b\<lparr>bm_calls := bm_calls b @ concat (map distribution_calls (distributionBatch b)), distributionBatch := []\<rparr>)"

definition flushAllBatches :: "BatchedMetricsClient \<Rightarrow> BatchedMetricsClient" where
  "flushAllBatches b = flushDistributionBatch (flushGaugeBatch (flushCounterBatch (flushTimingBatch b)))"

definition Batched_Timing :: "string \<Rightarrow> duration \<Rightarrow> string list \<Rightarrow> float64 \<Rightarrow> BatchedMetricsClient \<Rightarrow> BatchedMetricsClient" where
  "Batched_Timing name d tags rate b =
     (let b = b\<lparr>timingBatch := timingBatch b @ [\<lparr>t_Name = name, t_Duration = d, t_Tags = tags, t_Rate = rate\<rparr>]\<rparr>
      in if int (length (timingBatch b)) \<ge> batchSize b then flushTimingBatch b else b)"

definition Batched_Incr :: "string \<Rightarrow> string list \<Rightarrow> float64 \<Rightarrow> BatchedMetricsClient \<Rightarrow> BatchedMetricsClient" where
  "Batched_Incr name tags rate b =
     (let b = b\<lparr>counterBatch := counterBatch b @ [\<lparr>n_Name = name, n_Tags = tags, n_Rate = rate\<rparr>]\<rparr>
      in if int (length (counterBatch b)) \<ge> batchSize b then flushCounterBatch b else b)"

definition Batched_Gauge :: "string \<Rightarrow> float64 \<Rightarrow> string list \<Rightarrow> float64 \<Rightarrow> BatchedMetricsClient \<Rightarrow> BatchedMetricsClient" where
  "Batched_Gauge name v tags rate b =
     (let b = b\<lparr>gaugeBatch := gaugeBatch b @ [\<lparr>ga_Name = name, ga_Value = v, ga_Tags = tags, ga_Rate = rate\<rparr>]\<rparr>
      in if int (length (gaugeBatch b)) \<ge> batchSize b then flushGaugeBatch b else b)"

definition Batched_Distribution :: "string \<Rightarrow> float64 \<Rightarrow> string list \<Rightarrow> float64 \<Rightarrow> BatchedMetricsClient \<Rightarrow> BatchedMetricsClient" where
  "Batched_Distribution name v tags rate b =
     (let b = b\<lparr>distributionBatch := distributionBatch b @ [\<lparr>d_Name = name, d_Value = v, d_Tags = tags, d_Rate = rate\<rparr>]\<rparr>
      in if int (length (distributionBatch b)) \<ge> batchSize b then flushDistributionBatch b else b)"

definition Batched_Flush :: "BatchedMetricsClient \<Rightarrow> BatchedMetricsClient" where
  "Batched_Flush b = flushAllBatches b"

text \<open>A tick of the flush loop, which ends once the client is cancelled.\<close>

definition flushLoop_tick :: "BatchedMetricsClient \<Rightarrow> BatchedMetricsClient" where
  "flushLoop_tick b = (if bm_cancelled b then b else Batched_Flush b)"

definition Batched_Close :: "BatchedMetricsClient \<Rightarrow> BatchedMetricsClient" where
  "Batched_Close b =
     (let b = Batched_Flush (b\<lparr>bm_cancelled := True\<rparr>)
      in b\<lparr>bm_calls := bm_calls b @ MetricsClient_Close\<rparr>)"

text \<open>\<^verbatim>\<open>Shutdown\<close> only stops the flush loop: it flushes nothing and does not shut down \<^verbatim>\<open>client\<close>.\<close>

definition Batched_Shutdown :: "BatchedMetricsClient \<Rightarrow> BatchedMetricsClient" where
  "Batched_Shutdown b = b\<lparr>bm_cancelled := True\<rparr>"

section \<open>Labels and registration\<close>

lemma MetricsClient_calls_ok:
  "list_all call_ok (MetricsClient_Timing name d tags rate)" "list_all call_ok (MetricsClient_Incr name tags rate)"
  "list_all call_ok (MetricsClient_Gauge name v tags rate)" "list_all call_ok (MetricsClient_Distribution name v tags rate)"
  by (simp_all add: MetricsClient_Timing_def MetricsClient_Incr_def MetricsClient_Gauge_def MetricsClient_Distribution_def Let_def
      split: prod.split)

lemma registered_all: "m \<in> set registered"
  by (cases m) (simp_all add: registered_def)

lemma registered_distinct: "distinct (map (\<lambda>m. fst (snd (metric_opts m))) registered)"
  by (simp add: registered_def)

section \<open>What a metric receives\<close>

datatype metric_op = OpTiming TimingOperation | OpIncr CounterOperation | OpGauge GaugeOperation | OpDistribution DistributionOperation

text \<open>The calls the Prometheus client makes for an operation at once.\<close>

fun direct :: "metric_op \<Rightarrow> prom_call list" where
  "direct (OpTiming op) = timing_calls op"
| "direct (OpIncr op) = counter_calls op"
| "direct (OpGauge op) = gauge_calls op"
| "direct (OpDistribution op) = distribution_calls op"

fun batched :: "metric_op \<Rightarrow> BatchedMetricsClient \<Rightarrow> BatchedMetricsClient" where
  "batched (OpTiming op) = Batched_Timing (t_Name op) (t_Duration op) (t_Tags op) (t_Rate op)"
| "batched (OpIncr op) = Batched_Incr (n_Name op) (n_Tags op) (n_Rate op)"
| "batched (OpGauge op) = Batched_Gauge (ga_Name op) (ga_Value op) (ga_Tags op) (ga_Rate op)"
| "batched (OpDistribution op) = Batched_Distribution (d_Name op) (d_Value op) (d_Tags op) (d_Rate op)"

definition received :: "metric \<Rightarrow> prom_call list \<Rightarrow> prom_call list" where
  "received m calls = filter (\<lambda>call. call_metric call = m) calls"

lemma received_append [simp]: "received m (xs @ ys) = received m xs @ received m ys" and received_Nil [simp]: "received m [] = []"
  by (simp_all add: received_def)

lemma received_concat: "received m (concat xss) = concat (map (received m) xss)"
  by (induction xss) simp_all

text \<open>
  Events at a client: an operation, or \<open>None\<close> for a flush.

  The interface of the metrics clients: what was recorded is either among the calls or still
  pending, for every metric in the order of the operations, and closing leaves nothing pending.
\<close>

fun event :: "('s \<Rightarrow> 's) \<Rightarrow> (metric_op \<Rightarrow> 's \<Rightarrow> 's) \<Rightarrow> metric_op option \<Rightarrow> 's \<Rightarrow> 's" where
  "event flush record_op None = flush"
| "event flush record_op (Some op) = record_op op"

definition recorded :: "metric_op option list \<Rightarrow> prom_call list" where
  "recorded es = concat (map direct (List.map_filter id es))"

lemma recorded_simps [simp]: "recorded [] = []" "recorded (None # es) = recorded es" "recorded (Some op # es) = direct op @ recorded es"
  by (simp_all add: recorded_def map_filter_simps)

locale metrics_client =
  fixes record_op :: "metric_op \<Rightarrow> 's \<Rightarrow> 's" and flush :: "'s \<Rightarrow> 's" and shut :: "'s \<Rightarrow> 's"
    and calls :: "'s \<Rightarrow> prom_call list" and pending :: "'s \<Rightarrow> prom_call list"
  assumes record_received: "received m (calls (record_op op s) @ pending (record_op op s)) = received m (calls s @ pending s @ direct op)"
    and flush_received: "received m (calls (flush s) @ pending (flush s)) = received m (calls s @ pending s)"
    and shut_received: "received m (calls (shut s)) = received m (calls s @ pending s @ MetricsClient_Close)"
begin

lemma run_received:
  "received m (calls (fold (event flush record_op) es s) @ pending (fold (event flush record_op) es s)) =
   received m (calls s @ pending s @ recorded es)"
proof (induction es arbitrary: s)
  case (Cons e es)
  have "received m (calls (event flush record_op e s) @ pending (event flush record_op e s)) @ received m (recorded es) =
      received m (calls s @ pending s @ recorded (e # es))"
    by (cases e) (simp_all only: event.simps flush_received record_received, simp_all)
  with Cons show ?case by simp
qed simp

lemma shut_run_received:
  "received m (calls (shut (fold (event flush record_op) es s))) = received m (calls s @ pending s @ recorded es @ MetricsClient_Close)"
  using run_received [of m es s] by (simp add: shut_received)

end

section \<open>The two clients\<close>

text \<open>The Prometheus client has nothing pending; its state is what it has called.\<close>

interpretation prometheus: metrics_client "\<lambda>op calls. calls @ direct op" "\<lambda>calls. calls @ MetricsClient_Flush"
  "\<lambda>calls. calls @ MetricsClient_Close" "\<lambda>calls. calls" "\<lambda>_. []"
  by unfold_locales (simp_all add: MetricsClient_Flush_def)

definition batch_pending :: "BatchedMetricsClient \<Rightarrow> prom_call list" where
  "batch_pending b = concat (map timing_calls (timingBatch b)) @ concat (map counter_calls (counterBatch b)) @
     concat (map gauge_calls (gaugeBatch b)) @ concat (map distribution_calls (distributionBatch b))"

text \<open>No metric gets calls from operations of two kinds, so the batches may overtake each other.\<close>

fun source_kind :: "metric \<Rightarrow> nat" where
  "source_kind m = (case fst (metric_opts m) of KCounter \<Rightarrow> 1 | KGauge \<Rightarrow> 2
    | KHistogram \<Rightarrow> if m \<in> {requestSizeBytes, responseSizeBytes, poolConnectionCheckoutDuration} then 3 else 0)"

lemma source_kind_calls:
  "list_all (\<lambda>call. source_kind (call_metric call) = 0) (timing_calls t)"
  "list_all (\<lambda>call. source_kind (call_metric call) = 1) (counter_calls n)"
  "list_all (\<lambda>call. source_kind (call_metric call) = 2) (gauge_calls g)"
  "list_all (\<lambda>call. source_kind (call_metric call) = 3) (distribution_calls d)"
  by (simp_all add: timing_calls_def MetricsClient_Timing_def counter_calls_def MetricsClient_Incr_def gauge_calls_def
      MetricsClient_Gauge_def distribution_calls_def MetricsClient_Distribution_def Let_def split: prod.split)

lemma received_other_kind: "list_all (\<lambda>call. source_kind (call_metric call) = k) calls \<Longrightarrow> source_kind m \<noteq> k \<Longrightarrow> received m calls = []"
  by (induction calls) (auto simp: received_def simp del: source_kind.simps)

lemma received_kind:
  "source_kind m \<noteq> 0 \<Longrightarrow> received m (timing_calls t) = []" "source_kind m \<noteq> 1 \<Longrightarrow> received m (counter_calls n) = []"
  "source_kind m \<noteq> 2 \<Longrightarrow> received m (gauge_calls g) = []" "source_kind m \<noteq> 3 \<Longrightarrow> received m (distribution_calls d) = []"
  by (rule received_other_kind [OF source_kind_calls(1)] received_other_kind [OF source_kind_calls(2)]
      received_other_kind [OF source_kind_calls(3)] received_other_kind [OF source_kind_calls(4)], assumption)+

lemma received_kinds:
  "source_kind m \<noteq> 0 \<Longrightarrow> received m (concat (map timing_calls ts)) = []" "source_kind m \<noteq> 1 \<Longrightarrow> received m (concat (map counter_calls ns)) = []"
  "source_kind m \<noteq> 2 \<Longrightarrow> received m (concat (map gauge_calls gs)) = []" "source_kind m \<noteq> 3 \<Longrightarrow> received m (concat (map distribution_calls ds)) = []"
  by (simp_all add: received_concat received_kind del: source_kind.simps)

lemmas flush_defs = flushTimingBatch_def flushCounterBatch_def flushGaugeBatch_def flushDistributionBatch_def

lemma flush_batches_received:
  "received m (bm_calls (flushTimingBatch b) @ batch_pending (flushTimingBatch b)) = received m (bm_calls b @ batch_pending b)"
  "received m (bm_calls (flushCounterBatch b) @ batch_pending (flushCounterBatch b)) = received m (bm_calls b @ batch_pending b)"
  "received m (bm_calls (flushGaugeBatch b) @ batch_pending (flushGaugeBatch b)) = received m (bm_calls b @ batch_pending b)"
  "received m (bm_calls (flushDistributionBatch b) @ batch_pending (flushDistributionBatch b)) = received m (bm_calls b @ batch_pending b)"
  by (cases "source_kind m = 0"; cases "source_kind m = 1"; cases "source_kind m = 2";
      simp add: flush_defs batch_pending_def received_kinds del: source_kind.simps)+

lemma flushAll_received:
  "received m (bm_calls (flushAllBatches b) @ batch_pending (flushAllBatches b)) = received m (bm_calls b @ batch_pending b)"
  by (simp only: flushAllBatches_def flush_batches_received)

lemma flushAll_empty: "batch_pending (flushAllBatches b) = []"
  by (simp add: flushAllBatches_def flush_defs batch_pending_def)

lemma batched_received:
  "received m (bm_calls (batched op b) @ batch_pending (batched op b)) = received m (bm_calls b @ batch_pending b @ direct op)"
proof -
  have add: "received m (batch_pending (b\<lparr>timingBatch := timingBatch b @ [t]\<rparr>)) = received m (batch_pending b @ timing_calls t)"
    "received m (batch_pending (b\<lparr>counterBatch := counterBatch b @ [n]\<rparr>)) = received m (batch_pending b @ counter_calls n)"
    "received m (batch_pending (b\<lparr>gaugeBatch := gaugeBatch b @ [g]\<rparr>)) = received m (batch_pending b @ gauge_calls g)"
    "received m (batch_pending (b\<lparr>distributionBatch := distributionBatch b @ [d]\<rparr>)) = received m (batch_pending b @ distribution_calls d)"
    for t n g d
    by (cases "source_kind m = 0"; cases "source_kind m = 1"; cases "source_kind m = 2";
        simp add: batch_pending_def received_kinds received_kind del: source_kind.simps)+
  show ?thesis
    by (cases op) (simp_all only: batched.simps direct.simps Batched_Timing_def Batched_Incr_def Batched_Gauge_def Batched_Distribution_def
        Let_def flush_batches_received split: if_split,
        simp_all add: add timing_calls_def counter_calls_def gauge_calls_def distribution_calls_def)
qed

lemma tick_received:
  "received m (bm_calls (flushLoop_tick b) @ batch_pending (flushLoop_tick b)) = received m (bm_calls b @ batch_pending b)"
  by (simp only: flushLoop_tick_def Batched_Flush_def flushAll_received split: if_split) simp

lemma close_received:
  "received m (bm_calls (Batched_Close b)) = received m (bm_calls b @ batch_pending b @ MetricsClient_Close)"
proof -
  have "batch_pending (b\<lparr>bm_cancelled := True\<rparr>) = batch_pending b" by (simp add: batch_pending_def)
  with flushAll_received [of m "b\<lparr>bm_cancelled := True\<rparr>"] show ?thesis
    by (simp add: Batched_Close_def Batched_Flush_def Let_def flushAll_empty)
qed

interpretation batched_client: metrics_client batched flushLoop_tick Batched_Close bm_calls batch_pending
  by unfold_locales (rule batched_received tick_received close_received)+

text \<open>
  C28. Batching loses, repeats and reorders nothing: whatever is recorded, and whenever the flush
  loop ticks in between, when the batched client is closed every metric has received the same calls, in
  the same order, as from the Prometheus client without batches.
\<close>

theorem batching_keeps_calls:
  assumes "NewBatchedMetricsClient calls n = Inr b"
  shows "received m (bm_calls (Batched_Close (fold (event flushLoop_tick batched) es b))) =
    received m (fold (event (\<lambda>calls. calls @ MetricsClient_Flush) (\<lambda>op calls. calls @ direct op)) es calls @ MetricsClient_Close)"
proof -
  have "bm_calls b = calls" "batch_pending b = []"
    using assms by (auto simp: NewBatchedMetricsClient_def batch_pending_def split: if_splits)
  then show ?thesis
    using batched_client.shut_run_received [of m es b] prometheus.shut_run_received [of m es calls] by simp
qed

text \<open>A batch is flushed as soon as it is full.\<close>

definition batches_bounded :: "BatchedMetricsClient \<Rightarrow> bool" where
  "batches_bounded b \<longleftrightarrow> int (length (timingBatch b)) < max 1 (batchSize b) \<and> int (length (counterBatch b)) < max 1 (batchSize b) \<and>
     int (length (gaugeBatch b)) < max 1 (batchSize b) \<and> int (length (distributionBatch b)) < max 1 (batchSize b)"

lemma batches_bounded_flush:
  assumes "batches_bounded b"
  shows "batches_bounded (flushTimingBatch b)" "batches_bounded (flushCounterBatch b)" "batches_bounded (flushGaugeBatch b)"
    "batches_bounded (flushDistributionBatch b)"
  using assms by (simp_all add: batches_bounded_def flush_defs)

lemma batches_bounded_tick: "batches_bounded b \<Longrightarrow> batches_bounded (flushLoop_tick b)"
  by (simp add: flushLoop_tick_def Batched_Flush_def flushAllBatches_def batches_bounded_flush)

lemma batches_bounded_op: "batches_bounded b \<Longrightarrow> batches_bounded (batched op b)"
  by (cases op)
    (auto simp: batches_bounded_def flush_defs Batched_Timing_def Batched_Incr_def Batched_Gauge_def Batched_Distribution_def
      less_max_iff_disj Let_def)

lemma batches_bounded_event: "batches_bounded b \<Longrightarrow> batches_bounded (event flushLoop_tick batched e b)"
  by (cases e) (simp_all add: batches_bounded_tick batches_bounded_op)

text \<open>
  The batches stay below their size: however many operations are recorded, no batch of the
  client grows to more than the configured size.
\<close>

theorem batches_stay_bounded:
  assumes "NewBatchedMetricsClient calls n = Inr b"
  shows "batches_bounded (fold (event flushLoop_tick batched) es b)"
proof -
  have "batches_bounded b" using assms by (auto simp: NewBatchedMetricsClient_def batches_bounded_def split: if_splits)
  then show ?thesis by (induction es arbitrary: b) (simp_all add: batches_bounded_event)
qed

text \<open>What \<^verbatim>\<open>Shutdown\<close> leaves in the batches is not sent.\<close>

lemma Shutdown_keeps_batches:
  "bm_calls (flushLoop_tick (Batched_Shutdown b)) = bm_calls b" "batch_pending (flushLoop_tick (Batched_Shutdown b)) = batch_pending b"
  by (simp_all add: flushLoop_tick_def Batched_Shutdown_def batch_pending_def)

definition example_events :: "metric_op option list" where
  "example_events =
     [Some (OpIncr \<lparr>n_Name = ''request'', n_Tags = [''database:app'', ''operation:find''], n_Rate = 1\<rparr>),
      Some (OpTiming \<lparr>t_Name = ''round_trip'', t_Duration = 5000000, t_Tags = [''database:app''], t_Rate = 1\<rparr>), None,
      Some (OpIncr \<lparr>n_Name = ''error'', n_Tags = [''database:app'', ''error_type:timeout''], n_Rate = 1\<rparr>)]"

theorem batching_keeps_calls_witness:
  "\<exists>b. NewBatchedMetricsClient [] 2 = Inr b \<and>
     received errorsTotal (bm_calls (Batched_Close (fold (event flushLoop_tick batched) example_events b))) = [Inc errorsTotal [''app'', ''timeout'']]"
proof -
  obtain b where b: "NewBatchedMetricsClient [] 2 = Inr b" by (simp add: NewBatchedMetricsClient_def)
  have "received errorsTotal (fold (event (\<lambda>calls. calls @ MetricsClient_Flush) (\<lambda>op calls. calls @ direct op)) example_events [] @ MetricsClient_Close)
      = [Inc errorsTotal [''app'', ''timeout'']]"
    by (simp add: example_events_def counter_calls_def timing_calls_def MetricsClient_Incr_def MetricsClient_Timing_def MetricsClient_Flush_def
        MetricsClient_Close_def MetricsClient_Shutdown_def parseRequestTags_def parseDatabaseTag_def parseErrorTag_def first_tag_def
        HasPrefix_def received_def Let_def)
  with batching_keeps_calls [OF b, of errorsTotal example_events] b show ?thesis by simp
qed

theorem batches_stay_bounded_witness:
  "\<exists>b. NewBatchedMetricsClient [] 2 = Inr b \<and> batches_bounded (fold (event flushLoop_tick batched) example_events b)"
proof -
  obtain b where b: "NewBatchedMetricsClient [] 2 = Inr b" by (simp add: NewBatchedMetricsClient_def)
  from batches_stay_bounded [OF b, of example_events] b show ?thesis by blast
qed

section \<open>The background gauge\<close>

text \<open>
  The two buffered channels, the counter of the background loop, and the calls made. The gauge
  of another name than \<open>open_connections\<close> is not registered, so nobody sees its values.
\<close>

record background_gauge =
  bg_metric :: "metric option"
  bg_inc :: nat
  bg_dec :: nat
  bg_count :: nat
  bg_calls :: "prom_call list"

definition BackgroundGauge :: "string \<Rightarrow> prom_call list \<Rightarrow> background_gauge" where
  "BackgroundGauge name calls =
     \<lparr>bg_metric = (if name = ''open_connections'' then Some openConnections else None), bg_inc = 0, bg_dec = 0, bg_count = 0, bg_calls = calls\<rparr>"

definition bg_increment :: "string \<Rightarrow> string list \<Rightarrow> background_gauge \<Rightarrow> background_gauge" where
  "bg_increment metricName metricTags g =
     (let g = g\<lparr>bg_calls := bg_calls g @ MetricsClient_Incr metricName metricTags 1\<rparr>
      in if bg_inc g < 100 then g\<lparr>bg_inc := bg_inc g + 1\<rparr> else g)"

definition bg_decrement :: "string \<Rightarrow> string list \<Rightarrow> background_gauge \<Rightarrow> background_gauge" where
  "bg_decrement metricName metricTags g =
     (let g = g\<lparr>bg_calls := bg_calls g @ MetricsClient_Incr metricName metricTags 1\<rparr>
      in if bg_dec g < 100 then g\<lparr>bg_dec := bg_dec g + 1\<rparr> else g)"

text \<open>The three cases of the loop's \<^verbatim>\<open>select\<close>; a receive waits for the channel to have a value.\<close>

definition bg_receive_inc :: "background_gauge \<Rightarrow> background_gauge option" where
  "bg_receive_inc g = (if bg_inc g = 0 then None else Some (g\<lparr>bg_inc := bg_inc g - 1, bg_count := bg_count g + 1\<rparr>))"

definition bg_receive_dec :: "background_gauge \<Rightarrow> background_gauge option" where
  "bg_receive_dec g = (if bg_dec g = 0 then None
     else Some (g\<lparr>bg_dec := bg_dec g - 1, bg_count := (if bg_count g > 0 then bg_count g - 1 else bg_count g)\<rparr>))"

definition bg_tick :: "background_gauge \<Rightarrow> background_gauge" where
  "bg_tick g = (case bg_metric g of Some m \<Rightarrow> g\<lparr>bg_calls := bg_calls g @ [SetTo m [''client''] (of_nat (bg_count g))]\<rparr> | None \<Rightarrow> g)"

text \<open>
  The use that \<^verbatim>\<open>Proxy.accept\<close> makes of it, in every interleaving: the numbers of connections
  opened and closed, the number of increments that found their channel full, and the number of
  decrements without effect, that found their channel full or were received at zero.
\<close>

inductive Gauge_step :: "background_gauge \<times> nat \<times> nat \<times> nat \<times> nat \<Rightarrow> background_gauge \<times> nat \<times> nat \<times> nat \<times> nat \<Rightarrow> bool" where
  opened: "Gauge_step (g, n, k, l, d) (bg_increment ''connection_opened'' [] g, Suc n, k, if bg_inc g < 100 then l else Suc l, d)"
| closed: "k < n \<Longrightarrow> Gauge_step (g, n, k, l, d) (bg_decrement ''connection_closed'' [] g, n, Suc k, l, if bg_dec g < 100 then d else Suc d)"
| inc: "bg_receive_inc g = Some g' \<Longrightarrow> Gauge_step (g, n, k, l, d) (g', n, k, l, d)"
| dec: "bg_receive_dec g = Some g' \<Longrightarrow> Gauge_step (g, n, k, l, d) (g', n, k, l, if bg_count g = 0 then Suc d else d)"
| tick: "Gauge_step (g, n, k, l, d) (bg_tick g, n, k, l, d)"

text \<open>What the counter comes to once the channels are drained, against the connections that are open.\<close>

fun gauge_balanced :: "background_gauge \<times> nat \<times> nat \<times> nat \<times> nat \<Rightarrow> bool" where
  "gauge_balanced (g, n, k, l, d) \<longleftrightarrow> k \<le> n \<and>
     int (bg_count g) + int (bg_inc g) - int (bg_dec g) = int n - int k + int d - int l"

lemmas gauge_ops = bg_increment_def bg_decrement_def bg_receive_inc_def bg_receive_dec_def bg_tick_def Let_def

lemma gauge_balanced_step: "Gauge_step s s' \<Longrightarrow> gauge_balanced s \<Longrightarrow> gauge_balanced s'"
  by (induction rule: Gauge_step.induct) (auto simp: gauge_ops of_nat_diff split: if_splits option.splits)

lemma gauge_balanced_run: "Gauge_step\<^sup>*\<^sup>* s s' \<Longrightarrow> gauge_balanced s \<Longrightarrow> gauge_balanced s'"
  by (induction rule: rtranclp_induct) (auto dest: gauge_balanced_step)

lemma gauge_losses_step: "Gauge_step (g, n, k, l, d) (g', n', k', l', d') \<Longrightarrow> l \<le> l' \<and> d \<le> d' \<and> bg_metric g' = bg_metric g"
  by (erule Gauge_step.cases) (auto simp: gauge_ops split: if_splits option.splits)

lemma gauge_losses_run:
  "Gauge_step\<^sup>*\<^sup>* (g, n, k, l, d) (g', n', k', l', d') \<Longrightarrow> l \<le> l' \<and> d \<le> d' \<and> bg_metric g' = bg_metric g"
proof (induction "(g', n', k', l', d')" arbitrary: g' n' k' l' d' rule: rtranclp_induct)
  case (step y)
  obtain g1 n1 k1 l1 d1 where y: "y = (g1, n1, k1, l1, d1)" by (cases y)
  from step.hyps(3) [OF y] gauge_losses_step [OF step.hyps(2) [unfolded y]] show ?case by auto
qed simp

text \<open>
  C38. Whenever both channels are empty, the value that the next tick gives to the gauge of open
  connections is the number of connections that are open, plus the decrements that had no effect
  (their channel was full, or the loop received them while its count was zero), minus the
  increments that found their channel full. Neither kind of loss is ever made up for: both numbers only
  grow, so a gauge that is too high comes down only by increments that are lost later.
\<close>

theorem background_gauge_drift:
  assumes "Gauge_step\<^sup>*\<^sup>* (BackgroundGauge ''open_connections'' calls, 0, 0, 0, 0) (g, n, k, l, d)"
    and "Gauge_step\<^sup>*\<^sup>* (g, n, k, l, d) (g', n', k', l', d')"
    and "bg_inc g' = 0" and "bg_dec g' = 0"
  shows "last (bg_calls (bg_tick g')) = SetTo openConnections [''client''] (of_int (int (n' - k') + int d' - int l')) \<and>
    k' \<le> n' \<and> l \<le> l' \<and> d \<le> d'"
proof -
  have run: "Gauge_step\<^sup>*\<^sup>* (BackgroundGauge ''open_connections'' calls, 0, 0, 0, 0) (g', n', k', l', d')"
    using assms(1,2) by (rule rtranclp_trans)
  have "gauge_balanced (BackgroundGauge ''open_connections'' calls, 0, 0, 0, 0)" by (simp add: BackgroundGauge_def)
  from gauge_balanced_run [OF run this] assms(3,4)
  have le: "k' \<le> n'" and c: "int (bg_count g') = int (n' - k') + int d' - int l'" by (simp_all add: of_nat_diff)
  have m: "bg_metric g' = Some openConnections" using gauge_losses_run [OF run] by (simp add: BackgroundGauge_def)
  have "last (bg_calls (bg_tick g')) = SetTo openConnections [''client''] (of_int (int (bg_count g')))"
    by (simp add: bg_tick_def m)
  with le gauge_losses_run [OF assms(2)] show ?thesis unfolding c by simp
qed

theorem background_gauge_drift_witness:
  "\<exists>g. Gauge_step\<^sup>*\<^sup>* (BackgroundGauge ''open_connections'' [], 0, 0, 0, 0) (g, 1, 1, 0, 1) \<and>
     last (bg_calls (bg_tick g)) = SetTo openConnections [''client''] 1"
proof -
  let ?g0 = "BackgroundGauge ''open_connections'' []"
  define g1 where "g1 = bg_decrement ''connection_closed'' [] (bg_increment ''connection_opened'' [] ?g0)"
  obtain g2 where g2: "bg_receive_dec g1 = Some g2"
    by (simp add: g1_def gauge_ops BackgroundGauge_def)
  obtain g where g: "bg_receive_inc g2 = Some g" "bg_inc g = 0" "bg_dec g = 0"
    using g2 by (auto simp: g1_def gauge_ops BackgroundGauge_def)
  have s1: "Gauge_step (?g0, 0, 0, 0, 0) (bg_increment ''connection_opened'' [] ?g0, 1, 0, 0, 0)"
    using opened [of ?g0 0 0 0 0] by (simp add: BackgroundGauge_def)
  have s2: "Gauge_step (bg_increment ''connection_opened'' [] ?g0, 1, 0, 0, 0) (g1, 1, 1, 0, 0)"
    using closed [of 0 1 "bg_increment ''connection_opened'' [] ?g0" 0 0] by (simp add: g1_def gauge_ops BackgroundGauge_def)
  have s3: "Gauge_step (g1, 1, 1, 0, 0) (g2, 1, 1, 0, 1)"
    using dec [OF g2, of 1 1 0 0] by (simp add: g1_def gauge_ops BackgroundGauge_def)
  have run: "Gauge_step\<^sup>*\<^sup>* (?g0, 0, 0, 0, 0) (g, 1, 1, 0, 1)"
    by (rule converse_rtranclp_into_rtranclp [where r = Gauge_step, OF s1], rule converse_rtranclp_into_rtranclp [where r = Gauge_step, OF s2],
        rule converse_rtranclp_into_rtranclp [where r = Gauge_step, OF s3], rule r_into_rtranclp [where r = Gauge_step, OF inc [OF g(1)]])
  have "Gauge_step\<^sup>*\<^sup>* (g, 1, 1, 0, 1) (g, 1, 1, 0, 1)" by simp
  from background_gauge_drift [OF run this g(2,3)] run show ?thesis by auto
qed


end
