(* ===== verification/Proxy.thy ===== *)
theory Proxy
  imports Serving Metrics
begin

text \<open>
  The proxy, \<^verbatim>\<open>src/proxy/proxy.go\<close>, and how it is put together from the configuration,
  \<^verbatim>\<open>src/config/proxies.go\<close>. The pool manager, the router, the session manager and the clients that are
  tracked for clean-up are in the \<open>world\<close> of the connections; what is left of the proxy is a
  record. A Go map is iterated in any order, which is an argument. Shown here: shutting
  down closes every tracked client once, and accepting ends after it; the world the
  configuration makes has a route for every database.
\<close>

section \<open>State\<close>

record Proxy =
  p_network :: string
  p_address :: string
  p_unlink :: bool
  p_authEnabled :: bool
  p_regexCredentialPassthrough :: bool
  p_mongodbDefaults :: MongoDBClientConfig
  p_metrics :: bool
  p_quit :: bool \<comment> \<open>whether the channel is closed\<close>
  p_kill :: bool

text \<open>The logger's label has no effect here. The table of the clients is new and empty.\<close>

definition NewProxy ::
    "bool \<Rightarrow> string \<Rightarrow> string \<Rightarrow> bool \<Rightarrow> bool \<Rightarrow> bool \<Rightarrow> MongoDBClientConfig \<Rightarrow> RequestForwarder option \<Rightarrow> ('g, 'd, 'n) world \<Rightarrow>
     Proxy \<times> ('g, 'd, 'n) world" where
  "NewProxy metrics network addr unlink auth passthrough defaults forwarder W =
     (\<lparr>p_network = network, p_address = addr, p_unlink = unlink, p_authEnabled = auth, p_regexCredentialPassthrough = passthrough,
       p_mongodbDefaults = defaults, p_metrics = metrics, p_quit = False, p_kill = False\<rparr>,
      W\<lparr>w_clients := Map.empty, w_forwarder := forwarder\<rparr>)"

section \<open>The tracked clients\<close>

definition UnregisterMongoClient :: "string \<Rightarrow> ('g, 'd, 'n) world \<Rightarrow> ('g, 'd, 'n) world" where
  "UnregisterMongoClient databaseName W = W\<lparr>w_clients := (w_clients W)(databaseName := None)\<rparr>"

definition close_client :: "('g, 'd, 'n) proxy_env \<Rightarrow> mongo_ref \<Rightarrow> ('g, 'd, 'n) world \<Rightarrow> ('g, 'd, 'n) world" where
  "close_client E a W =
     (let st = Mongo_Close (e_driver E) \<lparr>rt_mongo = w_mongos W a, rt_sm = w_sm W, rt_drv = w_drv W, rt_trace = w_trace W\<rparr>
      in W\<lparr>w_mongos := (w_mongos W)(a := rt_mongo st), w_sm := rt_sm st, w_drv := rt_drv st, w_trace := rt_trace st\<rparr>)"

text \<open>\<open>names\<close> is the order in which the map is iterated.\<close>

definition CloseAllMongoClients :: "('g, 'd, 'n) proxy_env \<Rightarrow> string list \<Rightarrow> ('g, 'd, 'n) world \<Rightarrow> ('g, 'd, 'n) world" where
  "CloseAllMongoClients E names W =
     (if names = [] then W
      else (fold (\<lambda>n W'. case w_clients W n of Some a \<Rightarrow> close_client E a W' | None \<Rightarrow> W') names W)\<lparr>w_clients := Map.empty\<rparr>)"

definition RegisterStartupMongoClients :: "('g, 'd, 'n) world \<Rightarrow> ('g, 'd, 'n) world" where
  "RegisterStartupMongoClients W =
     W\<lparr>w_clients := (\<lambda>n. case GetAllRoutes (w_router W) n of
         None \<Rightarrow> w_clients W n
       | Some r \<Rightarrow> (case MongoClient (w_routes W r) of None \<Rightarrow> w_clients W n | Some a \<Rightarrow> Some a))\<rparr>"

section \<open>Shutting down\<close>

text \<open>Closing a closed channel panics, which is recovered; the clients are closed before that.\<close>

definition Shutdown :: "('g, 'd, 'n) proxy_env \<Rightarrow> string list \<Rightarrow> Proxy \<times> ('g, 'd, 'n) world \<Rightarrow> Proxy \<times> ('g, 'd, 'n) world" where
  "Shutdown E names s = (case s of (p, W) \<Rightarrow> (p\<lparr>p_quit := True\<rparr>, CloseAllMongoClients E names W))"

definition Kill :: "('g, 'd, 'n) proxy_env \<Rightarrow> string list \<Rightarrow> Proxy \<times> ('g, 'd, 'n) world \<Rightarrow> Proxy \<times> ('g, 'd, 'n) world" where
  "Kill E names s = (case Shutdown E names s of (p, W) \<Rightarrow> (p\<lparr>p_kill := True\<rparr>, W))"

section \<open>Accepting connections\<close>

text \<open>
  What \<^verbatim>\<open>Accept\<close> returns, with whether \<^verbatim>\<open>quit\<close> is closed when an error is looked at. A connection
  is the bytes that will come, the error after them, and the errors of the writes.
\<close>

datatype accept_result = Accepted bytes go_error "go_error option list" | AcceptError bool

text \<open>The connection that \<^verbatim>\<open>handleConnection\<close> is called with; it fills in the rest itself.\<close>

definition accepted_connection :: "Proxy \<Rightarrow> bytes \<Rightarrow> go_error \<Rightarrow> go_error option list \<Rightarrow> connection" where
  "accepted_connection p input err errs =
     \<lparr>address = p_address p, c_in = input, c_end = err, c_out = [], c_write_errors = errs, c_buffer_cap = 0, clientID = '''',
      intendedDatabase = '''', routeConfig = None, clientUsername = '''', clientPassword = '''', clientAuthSource = '''',
      authEnabled = p_authEnabled p, regexCredentialPassthrough = p_regexCredentialPassthrough p,
      mongodbDefaults = p_mongodbDefaults p, databaseUsed = '''', isUsingCredentialPassthrough = False,
      c_metrics = p_metrics p, c_sessions_gauge = []\<rparr>"

text \<open>
  The loop: the connections it starts, in order, the gauge of the open connections, and whether
  the loop has returned. Each connection is handled in a goroutine of its own.
\<close>

fun accept :: "Proxy \<Rightarrow> accept_result list \<Rightarrow> background_gauge \<Rightarrow> connection list \<times> background_gauge \<times> bool" where
  "accept p [] g = ([], g, False)"
| "accept p (AcceptError quit # rs) g = (if quit then ([], g, True) else accept p rs g)"
| "accept p (Accepted input err errs # rs) g =
     (let g = (if p_metrics p then bg_increment ''connection_opened'' [] g else g);
          (cs, g, returned) = accept p rs g
      in (accepted_connection p input err errs # cs, g, returned))"

text \<open>The error of \<^verbatim>\<open>net.Listen\<close> is returned; otherwise \<^verbatim>\<open>listen\<close> returns when accepting does.\<close>

definition listen ::
    "go_error option \<Rightarrow> Proxy \<Rightarrow> accept_result list \<Rightarrow> background_gauge \<Rightarrow> go_error + connection list \<times> background_gauge \<times> bool" where
  "listen listenError p rs g = (case listenError of Some err \<Rightarrow> Inl err | None \<Rightarrow> Inr (accept p rs g))"

text \<open>What the end of a connection's goroutine reports.\<close>

definition connection_closed :: "Proxy \<Rightarrow> background_gauge \<Rightarrow> background_gauge" where
  "connection_closed p g = (if p_metrics p then bg_decrement ''connection_closed'' [] g else g)"

section \<open>From the configuration\<close>

text \<open>Durations and sizes that do not parse are replaced by their defaults; the settings of the
  request forwarder are not set.\<close>

definition shared_cache_config ::
    "(string \<Rightarrow> duration option) \<Rightarrow> (string \<Rightarrow> int option) \<Rightarrow> SharedCacheConfig \<Rightarrow> DistributedCacheConfig" where
  "shared_cache_config pd pq sc =
     \<lparr>DC_Enabled = sc_Enabled sc, ListenAddr = sc_ListenAddr sc, ListenPort = sc_ListenPort sc,
      CacheSizeBytes = (case pq (sc_CacheSizeBytes sc) of Some v \<Rightarrow> v | None \<Rightarrow> 67108864),
      SessionExpiry = (case pd (sc_SessionExpiry sc) of Some d \<Rightarrow> d | None \<Rightarrow> 30 * Minute),
      TransactionExpiry = (case pd (sc_TransactionExpiry sc) of Some d \<Rightarrow> d | None \<Rightarrow> 2 * Minute),
      CursorExpiry = (case pd (sc_CursorExpiry sc) of Some d \<Rightarrow> d | None \<Rightarrow> 24 * Hour),
      DC_Debug = sc_Debug sc, LabelSelector = sc_LabelSelector sc, PeerURLs = sc_PeerURLs sc,
      RequestForwarding = \<lparr>RF_MaxConnections = 0, RF_ConnectionTimeout = 0, RF_KeepAlive = False, RF_KeepAliveInterval = 0\<rparr>\<rparr>"

definition database_connection :: "Database \<Rightarrow> string" where
  "database_connection db =
     (if db_ConnectionString db \<noteq> '''' then db_ConnectionString db
      else ''mongodb://'' @ host_port (db_Host db) (db_Port db) @ ''/'' @ db_DBName db)"

text \<open>
  The body of the loop over the databases: the client, which stays \<^verbatim>\<open>nil\<close> after an error, and the
  route, at the next free address.
\<close>

definition start_database ::
    "('g, 'd, 'n) proxy_env \<Rightarrow> Config \<Rightarrow> 'g DistributedCache option \<Rightarrow> string \<Rightarrow> Database \<Rightarrow> route_ref \<times> ('g, 'd, 'n) world \<Rightarrow>
     route_ref \<times> ('g, 'd, 'n) world" where
  "start_database E c distributedCache dbName dbConfig s =
     (case s of (r, W) \<Rightarrow>
        let connectionString = database_connection dbConfig;
            opts = Config_ApplyMongoDBClientSettings c (e_ApplyURI E connectionString) (Some dbConfig);
            (mongoClient, W) =
              (case ConnectWithDistributedCache (e_driver E) connectionString (cfg_metrics c) False (Some (fst (w_sm W)))
                      distributedCache (w_drv W) of
                 (Inl err, d) \<Rightarrow> (None, W\<lparr>w_drv := d\<rparr>)
               | (Inr (m, _), d) \<Rightarrow>
                   let a = w_next W
                   in (Some a, W\<lparr>w_drv := d, w_mongos := (w_mongos W)(a := m), w_options := (w_options W)(a := opts), w_next := Suc a\<rparr>));
            routeConfig = \<lparr>DatabaseName = dbName, MongoClient = mongoClient, ConnectionString = connectionString, PoolMode = '''',
              MaxConnections = 0, Label = dbName, DatabaseConfig = Some (db_MongoDBConfig dbConfig), CredentialClients = None\<rparr>
        in (Suc r, W\<lparr>w_routes := (w_routes W)(r := routeConfig), w_router := AddRoute dbName r (w_router W)\<rparr>))"

definition pool_manager :: "MongobouncerConfig \<Rightarrow> Manager" where
  "pool_manager mb =
     (let mongodbMaxPoolSize = (if MaxPoolSize (mb_MongoDBConfig mb) = 0 then 20 else MaxPoolSize (mb_MongoDBConfig mb));
          mongodbMinPoolSize = (if MinPoolSize (mb_MongoDBConfig mb) = 0 then 3 else MinPoolSize (mb_MongoDBConfig mb))
      in NewManager (mb_PoolMode mb) mongodbMinPoolSize mongodbMaxPoolSize (mb_MaxClientConn mb))"

definition shared_cache :: "'g cache_env \<Rightarrow> (string \<Rightarrow> duration option) \<Rightarrow> (string \<Rightarrow> int option) \<Rightarrow> Config \<Rightarrow> 'g DistributedCache option" where
  "shared_cache env pd pq c =
     (let sharedCacheConfig = GetSharedCacheConfig c
      in if sc_Enabled sharedCacheConfig then Some (fst (NewDistributedCache env (shared_cache_config pd pq sharedCacheConfig))) else None)"

definition request_forwarder :: "'g DistributedCache option \<Rightarrow> RequestForwarder option" where
  "request_forwarder distributedCache =
     (case distributedCache of
        Some dc \<Rightarrow> if IsRequestForwardingEnabled dc then Some (NewRequestForwarder (RequestForwarding (dc_config dc))) else None
      | None \<Rightarrow> None)"

text \<open>
  The world before the databases are added: \<open>mongos\<close>, \<open>opts\<close> and \<open>routes0\<close> are what the unused
  addresses hold, \<open>d\<close> and \<open>n\<close> the driver and the network at the start.
\<close>

definition initial_world ::
    "(mongo_ref \<Rightarrow> Mongo) \<Rightarrow> (mongo_ref \<Rightarrow> ClientOptions) \<Rightarrow> (route_ref \<Rightarrow> RouteConfig) \<Rightarrow> 'd \<Rightarrow> 'n \<Rightarrow> Config \<Rightarrow>
     'g DistributedCache option \<Rightarrow> ('g, 'd, 'n) world" where
  "initial_world mongos opts routes0 d n c distributedCache =
     \<lparr>w_router = NewDatabaseRouter, w_routes = routes0, w_mongos = mongos, w_options = opts, w_next = 0,
      w_pool = pool_manager (Mongobouncer (tomlConfig c)),
      w_sm = (NewSessionManager, case distributedCache of Some dc \<Rightarrow> if IsEnabled dc then Some dc else None | None \<Rightarrow> None),
      w_drv = d, w_trace = [], w_clients = Map.empty, w_forwarder = None, w_net = n\<rparr>"

text \<open>\<open>names\<close> is the order of the databases. A failure of the databases ends the process.\<close>

definition Proxies ::
    "('g, 'd, 'n) proxy_env \<Rightarrow> 'g cache_env \<Rightarrow> (string \<Rightarrow> duration option) \<Rightarrow> (string \<Rightarrow> int option) \<Rightarrow> string list \<Rightarrow>
     (mongo_ref \<Rightarrow> Mongo) \<Rightarrow> (mongo_ref \<Rightarrow> ClientOptions) \<Rightarrow> (route_ref \<Rightarrow> RouteConfig) \<Rightarrow> 'd \<Rightarrow> 'n \<Rightarrow> Config \<Rightarrow>
     database_failure + Proxy \<times> ('g, 'd, 'n) world" where
  "Proxies E env pd pq names mongos opts routes0 d n c =
     (let mb = Mongobouncer (tomlConfig c);
          distributedCache = shared_cache env pd pq c
      in case GetDatabases pd c of
           Inl err \<Rightarrow> Inl err
         | Inr databases \<Rightarrow>
             let W = snd (fold (\<lambda>dbName s. case databases dbName of
                                  Some dbConfig \<Rightarrow> start_database E c distributedCache dbName dbConfig s
                                | None \<Rightarrow> s) names (0, initial_world mongos opts routes0 d n c distributedCache));
                 (p, W) = NewProxy (cfg_metrics c) (cfg_network c) (host_port (mb_ListenAddr mb) (mb_ListenPort mb)) (cfg_unlink c)
                   (mb_AuthEnabled mb) (mb_RegexCredentialPassthrough mb) (mb_MongoDBConfig mb) (request_forwarder distributedCache) W
             in Inr (p, RegisterStartupMongoClients W))"

section \<open>Closing the clients\<close>

definition disconnect :: "'d driver_api \<Rightarrow> 'd \<Rightarrow> 'd" where
  "disconnect da d = snd (drv_Disconnect da (drv_Cancel da d))"

lemma close_client_mongos: "w_mongos (close_client E a W) = (w_mongos W)(a := (w_mongos W a)\<lparr>mg_client := False\<rparr>)"
proof -
  have "(w_mongos W a)\<lparr>mg_client := False\<rparr> = w_mongos W a" if "\<not> mg_client (w_mongos W a)" using that by (cases "w_mongos W a") simp
  then show ?thesis by (auto simp: close_client_def Mongo_Close_def Let_def split: prod.split)
qed

lemma close_client_driver:
  "w_drv (close_client E a W) = (if mg_client (w_mongos W a) then disconnect (e_driver E) (w_drv W) else w_drv W)"
  by (simp add: close_client_def Mongo_Close_def disconnect_def Let_def split: prod.split)

lemma close_clients:
  fixes f :: "string \<Rightarrow> mongo_ref option" and E :: "('g, 'd, 'n) proxy_env"
  defines "closing \<equiv> \<lambda>n W. case f n of Some a \<Rightarrow> close_client E a W | None \<Rightarrow> W"
  shows "w_mongos (fold closing names W) = (\<lambda>a. if \<exists>n \<in> set names. f n = Some a then (w_mongos W a)\<lparr>mg_client := False\<rparr> else w_mongos W a)"
    and "w_drv (fold closing names W) =
      (disconnect (e_driver E) ^^ card {a. (\<exists>n \<in> set names. f n = Some a) \<and> mg_client (w_mongos W a)}) (w_drv W)"
proof (induction names arbitrary: W)
  case (Cons n names)
  have at: "closing n W = (case f n of Some a \<Rightarrow> close_client E a W | None \<Rightarrow> W)" for W by (simp add: closing_def)
  { case 1 show ?case by (auto simp: Cons.IH at close_client_mongos split: option.split) }
  { case 2
    show ?case
    proof (cases "f n")
      case None
      then have "{a. (\<exists>m \<in> set (n # names). f m = Some a) \<and> mg_client (w_mongos W a)} =
          {a. (\<exists>m \<in> set names. f m = Some a) \<and> mg_client (w_mongos W a)}" by auto
      then show ?thesis using None by (simp add: Cons.IH at)
    next
      case (Some a)
      let ?S = "\<lambda>W ns. {a. (\<exists>m \<in> set ns. f m = Some a) \<and> mg_client (w_mongos W a)}"
      have fin: "finite (?S W ns)" for ns
        by (rule finite_subset [where B = "(\<lambda>m. the (f m)) ` set ns"]) (auto simp: rev_image_eqI)
      have rest: "?S (close_client E a W) names = ?S W (n # names) - {a}"
        using Some by (auto simp: close_client_mongos)
      have "card (?S W (n # names)) = (if mg_client (w_mongos W a) then Suc else id) (card (?S (close_client E a W) names))"
      proof (cases "mg_client (w_mongos W a)")
        case True
        then have "a \<in> ?S W (n # names)" using Some by auto
        from card.remove [OF fin this] True rest show ?thesis by simp
      next
        case False
        then have "?S W (n # names) - {a} = ?S W (n # names)" by auto
        then show ?thesis using False rest by simp
      qed
      then show ?thesis
        using Some by (simp add: Cons.IH at close_client_driver funpow_swap1 del: funpow.simps(2)) (simp add: funpow_swap1)
    qed }
qed simp_all

text \<open>
  C25. Shutting down closes exactly the clients that are tracked, whatever order the table is iterated
  in: each of them that is still open is disconnected once, also when it is tracked under several
  names, the others are left as they are, nothing is tracked any more, and a second shutdown changes nothing.
\<close>

theorem Shutdown_closes_tracked_clients:
  assumes "set names = dom (w_clients W)" and "Shutdown E names (p, W) = (p', W')"
  shows "p_quit p' \<and> w_clients W' = Map.empty \<and>
    w_mongos W' = (\<lambda>a. if a \<in> ran (w_clients W) then (w_mongos W a)\<lparr>mg_client := False\<rparr> else w_mongos W a) \<and>
    w_drv W' = (disconnect (e_driver E) ^^ card {a \<in> ran (w_clients W). mg_client (w_mongos W a)}) (w_drv W) \<and>
    Shutdown E [] (p', W') = (p', W')"
proof -
  define W1 where "W1 = fold (\<lambda>n W'. case w_clients W n of Some a \<Rightarrow> close_client E a W' | None \<Rightarrow> W') names W"
  have ran: "(\<exists>n \<in> set names. w_clients W n = Some a) \<longleftrightarrow> a \<in> ran (w_clients W)" for a
    using assms(1) by (auto simp: ran_def)
  have W1: "w_mongos W1 = (\<lambda>a. if a \<in> ran (w_clients W) then (w_mongos W a)\<lparr>mg_client := False\<rparr> else w_mongos W a)"
    "w_drv W1 = (disconnect (e_driver E) ^^ card {a \<in> ran (w_clients W). mg_client (w_mongos W a)}) (w_drv W)"
    unfolding W1_def by (simp_all only: close_clients ran)
  have "w_clients W = Map.empty \<and> W1 = W" if "names = []" using that assms(1) by (auto simp: W1_def dom_def)
  then have "W' = W1\<lparr>w_clients := Map.empty\<rparr>" "p' = p\<lparr>p_quit := True\<rparr>"
    using assms(2) by (cases "names = []"; simp add: Shutdown_def CloseAllMongoClients_def W1_def)+
  with W1 show ?thesis by (simp add: Shutdown_def CloseAllMongoClients_def)
qed

text \<open>A client that is made anew replaces the one tracked before it, which is then never closed.\<close>

lemma recreated_client_untracked:
  assumes "createLazyMongoClient E c r db W = (Inr b, W')" and "MongoClient (w_routes W r) = None"
    and "w_clients W db = Some a" and "\<And>n. n \<noteq> db \<Longrightarrow> w_clients W n \<noteq> Some a" and "a \<noteq> w_next W"
  shows "a \<notin> ran (w_clients W')"
  using assms by (auto simp: createLazyMongoClient_def new_client_def RegisterMongoClient_def set_route_def ran_def Let_def
      split: prod.splits sum.splits if_splits)

section \<open>Accepting\<close>

text \<open>
  The proxy accepts connections until it is shut down, errors of \<^verbatim>\<open>Accept\<close> notwithstanding: the
  loop returns with the first error that comes after \<^verbatim>\<open>quit\<close> is closed, and starts a
  connection with the settings of the proxy for everything that was accepted before it.
\<close>

theorem accept_returns_after_quit:
  "accept p rs g = (cs, g', returned) \<Longrightarrow>
   returned = (AcceptError True \<in> set rs) \<and>
   cs = List.map_filter (\<lambda>r. case r of Accepted input err errs \<Rightarrow> Some (accepted_connection p input err errs) | AcceptError _ \<Rightarrow> None)
     (takeWhile (\<lambda>r. r \<noteq> AcceptError True) rs)"
  by (induction p rs g arbitrary: cs g' rule: accept.induct) (auto simp: map_filter_simps Let_def split: prod.splits if_splits)

section \<open>Starting\<close>

text \<open>The route a database gets.\<close>

definition route_of :: "string \<Rightarrow> Database \<Rightarrow> RouteConfig \<Rightarrow> bool" where
  "route_of n db route \<longleftrightarrow> DatabaseName route = n \<and> ConnectionString route = database_connection db \<and>
     DatabaseConfig route = Some (db_MongoDBConfig db) \<and> CredentialClients route = None"

lemma start_database_step:
  assumes "start_database E c dc n db (r, W) = (r', W')"
  shows "r' = Suc r" and "route_of n db (w_routes W' r)" and "q \<noteq> r \<Longrightarrow> w_routes W' q = w_routes W q"
    and "w_router W' = AddRoute n r (w_router W)" and "w_clients W' = w_clients W" and "w_pool W' = w_pool W"
  using assms by (auto simp: start_database_def route_of_def Let_def split: prod.splits sum.splits)

text \<open>Names with a star are the keys of the patterns, so exact names are looked up among the exact routes.\<close>

definition patterns_starred :: "DatabaseRouter \<Rightarrow> bool" where
  "patterns_starred R \<longleftrightarrow> (\<forall>pr \<in> set (patternRoutes R). CHR ''*'' \<in> set (route_key pr))"

lemma starred_AddRoute: "patterns_starred R \<Longrightarrow> patterns_starred (AddRoute n r R)"
  by (auto simp: patterns_starred_def AddRoute_def Let_def newPatternRoute_def route_key_def Contains_single split: if_splits)

lemma GetAllRoutes_exact:
  assumes "patterns_starred R" and "CHR ''*'' \<notin> set n"
  shows "GetAllRoutes R n = routes R n"
proof -
  have "fold (\<lambda>pr m. m(route_key pr \<mapsto> PR_RouteConfig pr)) prs m n = m n" if "\<forall>pr \<in> set prs. CHR ''*'' \<in> set (route_key pr)" for prs m
    using that assms(2) by (induction prs arbitrary: m) auto
  with assms show ?thesis by (auto simp: GetAllRoutes_def patterns_starred_def Let_def split: option.split)
qed

lemma routes_AddRoute:
  assumes "ToLower n = n"
  shows "routes (AddRoute n r R) m = (if m = n \<and> CHR ''*'' \<notin> set n then Some r else routes R m)"
  using assms by (auto simp: AddRoute_def NormalizeDatabaseName_def Contains_single Let_def)

lemma start_databases:
  assumes "fold (\<lambda>n s. case dbs n of Some db \<Rightarrow> start_database E c dc n db s | None \<Rightarrow> s) names (r0, W0) = (r1, W1)"
    and "distinct names" and "set names \<subseteq> dom dbs" and "\<forall>n \<in> set names. ToLower n = n"
  shows "r0 \<le> r1 \<and> (\<forall>r < r0. w_routes W1 r = w_routes W0 r) \<and> (\<forall>m. m \<notin> set names \<longrightarrow> routes (w_router W1) m = routes (w_router W0) m) \<and>
    w_clients W1 = w_clients W0 \<and> w_pool W1 = w_pool W0 \<and> (patterns_starred (w_router W0) \<longrightarrow> patterns_starred (w_router W1)) \<and>
    (cache_coherent ext (w_router W0) \<longrightarrow> cache_coherent ext (w_router W1)) \<and>
    ((\<forall>r. CredentialClients (w_routes W0 r) = None) \<longrightarrow> (\<forall>r. CredentialClients (w_routes W1 r) = None)) \<and>
    (\<forall>n db. n \<in> set names \<longrightarrow> dbs n = Some db \<longrightarrow>
       (\<exists>r < r1. route_of n db (w_routes W1 r) \<and> (CHR ''*'' \<notin> set n \<longrightarrow> routes (w_router W1) n = Some r)))"
  using assms
proof (induction names arbitrary: r0 W0)
  case (Cons n names)
  obtain db where db: "dbs n = Some db" using Cons.prems(3) by auto
  obtain r2 W2 where s: "start_database E c dc n db (r0, W0) = (r2, W2)" by fastforce
  note k = start_database_step [OF s]
  have run: "fold (\<lambda>n s. case dbs n of Some db \<Rightarrow> start_database E c dc n db s | None \<Rightarrow> s) names (Suc r0, W2) = (r1, W1)"
    using Cons.prems(1) db s k(1) by simp
  have low: "ToLower n = n" using Cons.prems(4) by simp
  have I: "Suc r0 \<le> r1" "\<And>r. r < Suc r0 \<Longrightarrow> w_routes W1 r = w_routes W2 r" "\<And>m. m \<notin> set names \<Longrightarrow> routes (w_router W1) m = routes (w_router W2) m"
    "w_clients W1 = w_clients W2" "w_pool W1 = w_pool W2" "patterns_starred (w_router W2) \<Longrightarrow> patterns_starred (w_router W1)"
    "cache_coherent ext (w_router W2) \<Longrightarrow> cache_coherent ext (w_router W1)"
    "(\<And>r. CredentialClients (w_routes W2 r) = None) \<Longrightarrow> CredentialClients (w_routes W1 q) = None"
    "\<And>m d. m \<in> set names \<Longrightarrow> dbs m = Some d \<Longrightarrow>
       \<exists>r < r1. route_of m d (w_routes W1 r) \<and> (CHR ''*'' \<notin> set m \<longrightarrow> routes (w_router W1) m = Some r)" for q
    using Cons.IH [OF run] Cons.prems by auto
  have head: "route_of n db (w_routes W1 r0)" "CHR ''*'' \<notin> set n \<Longrightarrow> routes (w_router W1) n = Some r0"
    using k(2,4) I(2,3) Cons.prems(2) low by (auto simp: routes_AddRoute)
  have cc: "CredentialClients (w_routes W2 r) = None" if "\<And>r. CredentialClients (w_routes W0 r) = None" for r
    using that k(2,3) by (cases "r = r0") (auto simp: route_of_def)
  show ?case
  proof (intro conjI allI impI)
    show "r0 \<le> r1" using I(1) by simp
    show "w_routes W1 r = w_routes W0 r" if "r < r0" for r using that I(2) k(3) by simp
    show "routes (w_router W1) m = routes (w_router W0) m" if "m \<notin> set (n # names)" for m
      using that I(3) k(4) low by (simp add: routes_AddRoute)
    show "w_clients W1 = w_clients W0" "w_pool W1 = w_pool W0" using I(4,5) k(5,6) by simp_all
    show "patterns_starred (w_router W1)" if "patterns_starred (w_router W0)" using that I(6) k(4) starred_AddRoute by simp
    show "cache_coherent ext (w_router W1)" using I(7) k(4) coherent_AddRoute by simp
    show "CredentialClients (w_routes W1 r) = None" if "\<forall>r. CredentialClients (w_routes W0 r) = None" for r
      using that cc I(8) by blast
    show "\<exists>r < r1. route_of m d (w_routes W1 r) \<and> (CHR ''*'' \<notin> set m \<longrightarrow> routes (w_router W1) m = Some r)"
      if "m \<in> set (n # names)" "dbs m = Some d" for m d
    proof (cases "m = n")
      case True
      then show ?thesis using that db head I(1) by (intro exI [of _ r0]) auto
    qed (use that I(9) in auto)
  qed
qed simp

lemma get_databases_normalized:
  "get_databases pd ds acc = Inr dbs \<Longrightarrow> (\<And>n. n \<in> dom acc \<Longrightarrow> ToLower n = n) \<Longrightarrow> n \<in> dom dbs \<Longrightarrow> ToLower n = n"
proof (induction ds arbitrary: acc)
  case (Cons e ds)
  obtain m v where e: "e = (m, v)" by fastforce
  have acc: "x \<in> dom (acc(ToLower m \<mapsto> db)) \<Longrightarrow> ToLower x = x" for x db using Cons.prems(2) by (auto split: if_splits)
  show ?case
  proof (cases v)
    case (TTable t)
    then obtain db where "get_databases pd ds (acc(ToLower m \<mapsto> db)) = Inr dbs"
      using Cons.prems(1) e by (auto simp: NormalizeDatabaseName_def Let_def split: sum.splits)
    from Cons.IH [OF this acc Cons.prems(3)] show ?thesis .
  qed (use Cons e in \<open>auto simp: Let_def\<close>)
qed (simp add: dom_def)

lemma Proxies_world:
  assumes "Proxies E env pd pq names mongos options routes0 d n c = Inr (p, W)" and "GetDatabases pd c = Inr dbs"
    and "set names = dom dbs" and "distinct names" and "\<And>r. CredentialClients (routes0 r) = None"
  shows "cache_coherent (e_regexp E) (w_router W)" and "w_pool W = pool_manager (Mongobouncer (tomlConfig c))"
    and "CredentialClients (w_routes W r) = None"
    and "dbs name = Some db \<Longrightarrow> CHR ''*'' \<notin> set name \<Longrightarrow>
      \<exists>r. routes (w_router W) name = Some r \<and> route_of name db (w_routes W r) \<and> w_clients W name = MongoClient (w_routes W r)"
proof -
  let ?dc = "shared_cache env pd pq c"
  define W0 where "W0 = initial_world mongos options routes0 d n c ?dc"
  obtain r1 W1 where run: "fold (\<lambda>n s. case dbs n of Some db \<Rightarrow> start_database E c ?dc n db s | None \<Rightarrow> s) names (0, W0) = (r1, W1)" by fastforce
  have W0: "w_router W0 = NewDatabaseRouter" "w_routes W0 = routes0" "w_clients W0 = Map.empty"
    "w_pool W0 = pool_manager (Mongobouncer (tomlConfig c))" by (simp_all add: W0_def initial_world_def)
  have "W = RegisterStartupMongoClients (W1\<lparr>w_clients := Map.empty, w_forwarder := request_forwarder ?dc\<rparr>)"
    using assms(1,2) run by (simp add: Proxies_def NewProxy_def Let_def W0_def)
  then have W: "w_router W = w_router W1" "w_routes W = w_routes W1" "w_pool W = w_pool W1"
      "GetAllRoutes (w_router W1) name = Some r \<Longrightarrow> w_clients W name = MongoClient (w_routes W1 r)" for r
    by (simp_all add: RegisterStartupMongoClients_def split: option.split)
  have low: "\<forall>n \<in> set names. ToLower n = n"
    using get_databases_normalized [of pd "Databases (tomlConfig c)" Map.empty dbs] assms(2,3) by (simp add: GetDatabases_def)
  have "set names \<subseteq> dom dbs" using assms(3) by simp
  note k = start_databases [OF run assms(4) this low, of "e_regexp E"]
  have started: "\<exists>r < r1. route_of n db (w_routes W1 r) \<and> (CHR ''*'' \<notin> set n \<longrightarrow> routes (w_router W1) n = Some r)"
    if "n \<in> set names" "dbs n = Some db" for n db using k that by blast
  have starred: "patterns_starred NewDatabaseRouter" by (simp add: patterns_starred_def NewDatabaseRouter_def)
  show "cache_coherent (e_regexp E) (w_router W)" "w_pool W = pool_manager (Mongobouncer (tomlConfig c))"
    "CredentialClients (w_routes W r) = None"
    using k W W0 assms(3,5) coherent_New by auto
  show "\<exists>r. routes (w_router W) name = Some r \<and> route_of name db (w_routes W r) \<and> w_clients W name = MongoClient (w_routes W r)"
    if name: "dbs name = Some db" "CHR ''*'' \<notin> set name"
  proof -
    have "name \<in> set names" using name(1) assms(3) by auto
    then obtain r where r: "route_of name db (w_routes W1 r)" "routes (w_router W1) name = Some r"
      using started name by blast
    have "GetAllRoutes (w_router W1) name = Some r"
      using GetAllRoutes_exact [of "w_router W1" name] name(2) k starred W0(1) r(2) assms(3) by simp
    then show ?thesis using r W by auto
  qed
qed

text \<open>
  C24. The proxy is put together as configured: in whatever order the databases are iterated, a
  lookup of a database without a star, in any spelling, finds the route with this
  database's connection string and settings, and its client, if there is one, is tracked.
\<close>

theorem Proxies_routes_databases:
  assumes "Proxies E env pd pq names mongos options routes0 d n c = Inr (p, W)" and "GetDatabases pd c = Inr dbs"
    and "set names = dom dbs" and "distinct names" and "\<And>r. CredentialClients (routes0 r) = None"
    and "dbs name = Some db" and "CHR ''*'' \<notin> set name" and "ToLower x = name"
  shows "\<exists>r. fst (router_GetRoute E x W) = Inr r \<and> route_of name db (w_routes W r) \<and> w_clients W name = MongoClient (w_routes W r)"
proof -
  note k = Proxies_world [OF assms(1-5)]
  from k(4) [OF assms(6,7)] obtain r where
    r: "routes (w_router W) name = Some r" "route_of name db (w_routes W r)" "w_clients W name = MongoClient (w_routes W r)" by blast
  have "fst (router_GetRoute E x W) = Inr r"
    using GetRoute_coherent [OF k(1), of "w_now E W" x] r(1) assms(8)
    by (cases "GetRoute (e_regexp E) (w_now E W) x (w_router W)") (simp add: router_GetRoute_def GetRoute_uncached_def)
  with r show ?thesis by blast
qed

section \<open>Examples\<close>

definition example_config :: Config where
  "example_config = \<lparr>tomlConfig = default_config\<lparr>Databases := [(''App'', TTable [(''connection_string'', TString ''mongodb://h:1/app'')])]\<rparr>,
     cfg_metrics = True, cfg_network = ''tcp4'', cfg_unlink = False, cfg_ping = False\<rparr>"

definition example_database :: Database where
  "example_database = zero_database\<lparr>db_ConnectionString := ''mongodb://h:1/app''\<rparr>"

definition example_cache_env :: "(string \<rightharpoonup> json \<times> time) cache_env" where
  "example_cache_env = \<lparr>env_ListenAndServe = (\<lambda>_. False), env_NewGroup = (\<lambda>_ _. None), env_kubeclient_New = False, env_UpdatePeers = (\<lambda>_ _. False)\<rparr>"

definition example_start :: "database_failure + Proxy \<times> (string \<rightharpoonup> json \<times> time, unit, unit) world" where
  "example_start = Proxies (example_env std_wire) example_cache_env (\<lambda>_. None) (\<lambda>_. None) [''app''] (w_mongos example_world)
     (w_options example_world) (\<lambda>_. example_route) () () example_config"

lemma example_lower: "ToLower ''App'' = ''app''" "ToLower ''APP'' = ''app''"
  by code_simp+

lemma example_databases: "GetDatabases (\<lambda>_. None) example_config = Inr [''app'' \<mapsto> example_database]"
  by (simp add: GetDatabases_def example_config_def parse_database_def string_at_def int64_at_def bool_at_def set_if_def parse_topology_def
      parse_client_config_def duration_at_def example_database_def zero_database_def zero_client_config_def NormalizeDatabaseName_def example_lower Let_def)

lemma example_started: "\<exists>p W. example_start = Inr (p, W)"
  by (simp add: example_start_def Proxies_def example_databases NewProxy_def Let_def)

theorem Proxies_routes_databases_witness:
  "\<exists>p W r. example_start = Inr (p, W) \<and> fst (router_GetRoute (example_env std_wire) ''APP'' W) = Inr r \<and>
     route_of ''app'' example_database (w_routes W r) \<and> w_clients W ''app'' = MongoClient (w_routes W r)"
proof -
  obtain p W where s: "example_start = Inr (p, W)" using example_started by blast
  have "\<exists>r. fst (router_GetRoute (example_env std_wire) ''APP'' W) = Inr r \<and> route_of ''app'' example_database (w_routes W r) \<and>
      w_clients W ''app'' = MongoClient (w_routes W r)"
    by (rule Proxies_routes_databases [OF s [unfolded example_start_def] example_databases])
      (simp_all add: example_route_def example_lower)
  with s show ?thesis by blast
qed

definition example_proxy :: Proxy where
  "example_proxy = fst (NewProxy False ''tcp4'' ''a'' False True True zero_client_config None example_world)"

theorem Shutdown_closes_tracked_clients_witness:
  "\<exists>p W. Shutdown (example_env std_wire) [''a'', ''b''] (example_proxy, example_world\<lparr>w_clients := [''a'' \<mapsto> 0, ''b'' \<mapsto> 0]\<rparr>) = (p, W) \<and>
     p_quit p \<and> w_clients W = Map.empty \<and> mg_client (w_mongos example_world 0) \<and> \<not> mg_client (w_mongos W 0) \<and> mg_client (w_mongos W 1)"
proof -
  let ?W = "example_world\<lparr>w_clients := [''a'' \<mapsto> 0, ''b'' \<mapsto> 0]\<rparr>"
  obtain p W where s: "Shutdown (example_env std_wire) [''a'', ''b''] (example_proxy, ?W) = (p, W)" by fastforce
  have d: "set [''a'', ''b''] = dom (w_clients ?W)" by auto
  have r: "ran (w_clients ?W) = {0}" by (auto simp: ran_def)
  have o: "mg_client (w_mongos ?W a)" for a by (simp add: example_world_def example_state_def)
  note k = Shutdown_closes_tracked_clients [OF d s]
  have "w_mongos W = (\<lambda>a. if a = 0 then (w_mongos ?W a)\<lparr>mg_client := False\<rparr> else w_mongos ?W a)" using k r by simp
  then have "\<not> mg_client (w_mongos W 0)" "mg_client (w_mongos W 1)" using o by (simp_all del: world.simps)
  then show ?thesis using k s o [of 0] by auto
qed

theorem accept_returns_after_quit_witness:
  "\<exists>cs g. accept example_proxy [Accepted [] EOF [], AcceptError False, AcceptError True, Accepted [] EOF []] (BackgroundGauge ''open_connections'' []) = (cs, g, True) \<and>
     cs = [accepted_connection example_proxy [] EOF []]"
proof -
  let ?rs = "[Accepted [] EOF [], AcceptError False, AcceptError True, Accepted [] EOF []]"
  obtain cs g r where a: "accept example_proxy ?rs (BackgroundGauge ''open_connections'' []) = (cs, g, r)" by (metis prod_cases3)
  from accept_returns_after_quit [OF a] a show ?thesis by (simp add: map_filter_simps)
qed

end
