(* ===== verification/Program.thy ===== *)
theory Program
  imports Lifecycle Proxy
begin

text \<open>
  The running program: \<^verbatim>\<open>src/mongobouncer.go\<close> and the goroutines of \<^verbatim>\<open>src/proxy/proxy.go\<close>, as a state machine.
  Its steps are those of the goroutines, in any order: the one that runs the proxy and accepts
  connections, the one that closes the listener, two for every connection, one for the signals and
  one that shuts down. What the clients, the network and the user do are steps, too, with labels of
  their own. Shown here: a program that ends has no client left and no pooled connection in use, and a
  program that was told to quit ends, whatever the order of the steps, unless a client keeps it.
\<close>

section \<open>State\<close>

datatype signal = Interrupt | SIGTERM

text \<open>
  A call of \<^verbatim>\<open>Proxy.run\<close>: before \<^verbatim>\<open>net.Listen\<close>, in the loop of \<^verbatim>\<open>accept\<close>, in the deferred \<^verbatim>\<open>wg.Wait\<close> (after
  a panic or not), or returned. \<open>rp_closed\<close> is for the listener.
\<close>

datatype run_state = NotListening | Accepting | Draining bool | Returned "go_error option"

record run_proc =
  rp_state :: run_state
  rp_closed :: bool
  rp_wg :: nat
  rp_gauge :: background_gauge

text \<open>
  The goroutine of a connection: just started, in the loop over the messages, returned from
  \<^verbatim>\<open>handleConnection\<close>, after \<^verbatim>\<open>wg.Done\<close>, and ended. The client may send more while \<open>h_open\<close>;
  the second goroutine waits for \<^verbatim>\<open>done\<close> or \<^verbatim>\<open>kill\<close> while \<open>h_watch\<close>.
\<close>

datatype handler = Spawned connection | Serving connection | Handled | Reporting | Ended

record client_proc =
  h_run :: nat
  h_state :: handler
  h_open :: bool
  h_watch :: bool

record ('g, 'd, 'n) program =
  pr_proxy :: Proxy
  pr_world :: "('g, 'd, 'n) world"
  pr_runs :: "run_proc list" \<comment> \<open>the first is that of \<^verbatim>\<open>main\<close>, the others are restarts\<close>
  pr_clients :: "client_proc list"
  pr_signals :: "signal list"
  shutdownAttempted :: bool
  pr_shutdown :: bool \<comment> \<open>whether the goroutine of \<^verbatim>\<open>shutdownFunc\<close> has yet to run\<close>
  pr_exited :: bool

definition new_run :: run_proc where
  "new_run = \<lparr>rp_state = NotListening, rp_closed = False, rp_wg = 0, rp_gauge = BackgroundGauge ''open_connections'' []\<rparr>"

text \<open>The program when \<^verbatim>\<open>run\<close> has started its goroutines.\<close>

definition program_start :: "Proxy \<times> ('g, 'd, 'n) world \<Rightarrow> ('g, 'd, 'n) program" where
  "program_start s =
     \<lparr>pr_proxy = fst s, pr_world = snd s, pr_runs = [new_run], pr_clients = [], pr_signals = [], shutdownAttempted = False,
      pr_shutdown = False, pr_exited = False\<rparr>"

definition set_run :: "nat \<Rightarrow> run_proc \<Rightarrow> ('g, 'd, 'n) program \<Rightarrow> ('g, 'd, 'n) program" where
  "set_run r x s = s\<lparr>pr_runs := (pr_runs s)[r := x]\<rparr>"

definition set_proc :: "nat \<Rightarrow> client_proc \<Rightarrow> ('g, 'd, 'n) program \<Rightarrow> ('g, 'd, 'n) program" where
  "set_proc i g s = s\<lparr>pr_clients := (pr_clients s)[i := g]\<rparr>"

section \<open>The goroutines\<close>

text \<open>The loop of \<^verbatim>\<open>accept\<close> for one accepted connection.\<close>

definition accept_connection :: "nat \<Rightarrow> run_proc \<Rightarrow> go_error option list \<Rightarrow> ('g, 'd, 'n) program \<Rightarrow> ('g, 'd, 'n) program" where
  "accept_connection r x errs s =
     (let x = x\<lparr>rp_wg := rp_wg x + 1,
                rp_gauge := (if p_metrics (pr_proxy s) then bg_increment ''connection_opened'' [] (rp_gauge x) else rp_gauge x)\<rparr>;
          g = \<lparr>h_run = r, h_state = Spawned (accepted_connection (pr_proxy s) [] EOF errs), h_open = True, h_watch = True\<rparr>
      in (set_run r x s)\<lparr>pr_clients := pr_clients s @ [g]\<rparr>)"

text \<open>
  After \<^verbatim>\<open>wg.Wait\<close> the listener is closed and \<^verbatim>\<open>run\<close> returns \<^verbatim>\<open>nil\<close>; when it recovered from a panic it has
  started another \<^verbatim>\<open>run\<close> before that.
\<close>

definition run_returns :: "nat \<Rightarrow> run_proc \<Rightarrow> bool \<Rightarrow> ('g, 'd, 'n) program \<Rightarrow> ('g, 'd, 'n) program" where
  "run_returns r x crashed s =
     (let s = set_run r (x\<lparr>rp_state := Returned None, rp_closed := True\<rparr>) s
      in if crashed then s\<lparr>pr_runs := pr_runs s @ [new_run]\<rparr> else s)"

text \<open>\<^verbatim>\<open>handleConnection\<close>, message by message: its beginning, and one turn of its loop with its end.\<close>

definition begin_handler :: "('g, 'd, 'n) proxy_env \<Rightarrow> connection \<Rightarrow> ('g, 'd, 'n) world \<Rightarrow> connection \<times> ('g, 'd, 'n) world" where
  "begin_handler E c W =
     (let c = new_connection E W c
      in (c, W\<lparr>w_pool := snd (RegisterClient (w_now E W) (clientID c) ''default'' ''default'' (GetDefaultMode (w_pool W)) (w_pool W))\<rparr>))"

definition end_handler :: "('g, 'd, 'n) proxy_env \<Rightarrow> connection \<Rightarrow> ('g, 'd, 'n) world \<Rightarrow> ('g, 'd, 'n) world" where
  "end_handler E c W = W\<lparr>w_pool := UnregisterClient (w_now E W) (clientID c) (w_pool W)\<rparr>"

definition serve :: "('g, 'd, 'n) proxy_env \<Rightarrow> connection \<Rightarrow> ('g, 'd, 'n) world \<Rightarrow> (handler \<times> ('g, 'd, 'n) world) option" where
  "serve E c W =
     (case handleMessage E c W of
        None \<Rightarrow> None
      | Some (Ok _, c, W) \<Rightarrow> Some (Serving c, W)
      | Some (Fail _, c, W) \<Rightarrow> Some (Handled, end_handler E c W)
      | Some (Panic, c, W) \<Rightarrow> Some (Handled, end_handler E c W))"

text \<open>A read waits for the client when its message is not complete.\<close>

definition waits :: "client_proc \<Rightarrow> connection \<Rightarrow> bool" where
  "waits g c \<longleftrightarrow> h_open g \<and> (case fst (readWireMessage c) of Fail _ \<Rightarrow> True | _ \<Rightarrow> False)"

text \<open>A closed connection fails to read.\<close>

definition conn_Close :: "connection \<Rightarrow> connection" where
  "conn_Close c = c\<lparr>c_in := [], c_end := ErrorString ''use of closed network connection''\<rparr>"

definition force_close :: "client_proc \<Rightarrow> client_proc" where
  "force_close g =
     (case h_state g of
        Spawned c \<Rightarrow> g\<lparr>h_state := Spawned (conn_Close c), h_open := False, h_watch := False\<rparr>
      | Serving c \<Rightarrow> g\<lparr>h_state := Serving (conn_Close c), h_open := False, h_watch := False\<rparr>
      | _ \<Rightarrow> g\<lparr>h_watch := False\<rparr>)"

text \<open>The goroutine of the signals, by signal.\<close>

definition on_signal :: "('g, 'd, 'n) proxy_env \<Rightarrow> string list \<Rightarrow> signal \<Rightarrow> ('g, 'd, 'n) program \<Rightarrow> ('g, 'd, 'n) program" where
  "on_signal E names sig s =
     (let s = s\<lparr>pr_signals := pr_signals s @ [sig]\<rparr>
      in if \<not> shutdownAttempted s then s\<lparr>shutdownAttempted := True, pr_shutdown := True\<rparr>
         else if sig = Interrupt then
           let (p, W) = Kill E names (pr_proxy s, pr_world s) in s\<lparr>pr_proxy := p, pr_world := W\<rparr>
         else s)"

definition run_shutdown :: "('g, 'd, 'n) proxy_env \<Rightarrow> string list \<Rightarrow> ('g, 'd, 'n) program \<Rightarrow> ('g, 'd, 'n) program" where
  "run_shutdown E names s =
     (let (p, W) = Shutdown E names (pr_proxy s, pr_world s) in s\<lparr>pr_proxy := p, pr_world := W, pr_shutdown := False\<rparr>)"

section \<open>The main program\<close>

text \<open>
  \<^verbatim>\<open>main\<close> with the values of its flags, up to where \<^verbatim>\<open>run\<close> has started the goroutines; the fatal
  errors end the process. \<open>names\<close> is the order of the databases.
\<close>

datatype ('g, 'd, 'n) main_result =
    Usage
  | LoggerError string
  | ConfigurationError load_error
  | StartupError database_failure
  | Started "('g, 'd, 'n) program"

definition main ::
    "load_api \<Rightarrow> (string \<Rightarrow> string \<Rightarrow> bool option) \<Rightarrow> ('g, 'd, 'n) proxy_env \<Rightarrow> 'g cache_env \<Rightarrow> (string \<Rightarrow> int option) \<Rightarrow> string list \<Rightarrow>
     (mongo_ref \<Rightarrow> Mongo) \<Rightarrow> (mongo_ref \<Rightarrow> ClientOptions) \<Rightarrow> (route_ref \<Rightarrow> RouteConfig) \<Rightarrow> 'd \<Rightarrow> 'n \<Rightarrow> string \<Rightarrow> bool \<Rightarrow> bool \<Rightarrow>
     ('g, 'd, 'n) main_result" where
  "main api ext E env pq names mongos opts routes0 d n configFile verbose help =
     (if help then Usage
      else case Build api (logger_config_of ''info'' '''') of
             Some err \<Rightarrow> LoggerError err
           | None \<Rightarrow>
               (case LoadConfig api ext configFile verbose of
                  Inl err \<Rightarrow> ConfigurationError err
                | Inr c \<Rightarrow>
                    (case Proxies E env (ParseDuration api) pq names mongos opts routes0 d n c of
                       Inl err \<Rightarrow> StartupError err
                     | Inr s \<Rightarrow> Started (program_start s))))"

section \<open>Steps\<close>

text \<open>Who makes a step: the program, its clients and the network, the user, or a panic in \<^verbatim>\<open>accept\<close>.\<close>

datatype event = Internal | Network | Signal signal | Panics | Background

definition waiting_for_done :: "handler \<Rightarrow> bool" where
  "waiting_for_done h \<longleftrightarrow> (case h of Reporting \<Rightarrow> False | Ended \<Rightarrow> False | _ \<Rightarrow> True)"

inductive Run_step :: "nat \<Rightarrow> run_proc \<Rightarrow> ('g, 'd, 'n) program \<Rightarrow> event \<Rightarrow> ('g, 'd, 'n) program \<Rightarrow> bool" for r x s where
  net_Listen: "rp_state x = NotListening \<Longrightarrow> Run_step r x s Internal (set_run r (x\<lparr>rp_state := Accepting\<rparr>) s)"
| net_Listen_error: "rp_state x = NotListening \<Longrightarrow> Run_step r x s Internal (set_run r (x\<lparr>rp_state := Returned (Some err)\<rparr>) s)"
| accepted: "rp_state x = Accepting \<Longrightarrow> \<not> rp_closed x \<Longrightarrow> Run_step r x s Network (accept_connection r x errs s)"
| accept_error: "rp_state x = Accepting \<Longrightarrow> \<not> p_quit (pr_proxy s) \<Longrightarrow> Run_step r x s Network s"
| accept_quit: "rp_state x = Accepting \<Longrightarrow> p_quit (pr_proxy s) \<Longrightarrow> Run_step r x s Internal (set_run r (x\<lparr>rp_state := Draining False\<rparr>) s)"
| accept_panic: "rp_state x = Accepting \<Longrightarrow> Run_step r x s Panics (set_run r (x\<lparr>rp_state := Draining True\<rparr>) s)"
| listener_Close: "rp_state x = Accepting \<Longrightarrow> \<not> rp_closed x \<Longrightarrow> p_quit (pr_proxy s) \<Longrightarrow>
    Run_step r x s Internal (set_run r (x\<lparr>rp_closed := True\<rparr>) s)"
| wg_Wait: "rp_state x = Draining crashed \<Longrightarrow> rp_wg x = 0 \<Longrightarrow> Run_step r x s Internal (run_returns r x crashed s)"
| gauge_loop: "bg_receive_inc (rp_gauge x) = Some gauge \<or> bg_receive_dec (rp_gauge x) = Some gauge \<or> gauge = bg_tick (rp_gauge x) \<Longrightarrow>
    Run_step r x s Background (set_run r (x\<lparr>rp_gauge := gauge\<rparr>) s)"

inductive Client_step ::
    "('g, 'd, 'n) proxy_env \<Rightarrow> nat \<Rightarrow> client_proc \<Rightarrow> ('g, 'd, 'n) program \<Rightarrow> event \<Rightarrow> ('g, 'd, 'n) program \<Rightarrow> bool" for E i g s where
  handler_begins: "h_state g = Spawned c \<Longrightarrow> begin_handler E c (pr_world s) = (c', W) \<Longrightarrow>
    Client_step E i g s Internal ((set_proc i (g\<lparr>h_state := Serving c'\<rparr>) s)\<lparr>pr_world := W\<rparr>)"
| handler_serves: "h_state g = Serving c \<Longrightarrow> \<not> waits g c \<Longrightarrow> serve E c (pr_world s) = Some (h, W) \<Longrightarrow>
    Client_step E i g s Internal ((set_proc i (g\<lparr>h_state := h\<rparr>) s)\<lparr>pr_world := W\<rparr>)"
| wg_Done: "h_state g = Handled \<Longrightarrow> x = pr_runs s ! h_run g \<Longrightarrow>
    Client_step E i g s Internal (set_run (h_run g) (x\<lparr>rp_wg := rp_wg x - 1\<rparr>) (set_proc i (g\<lparr>h_state := Reporting\<rparr>) s))"
| reports: "h_state g = Reporting \<Longrightarrow> x = pr_runs s ! h_run g \<Longrightarrow>
    Client_step E i g s Internal
      (set_run (h_run g) (x\<lparr>rp_gauge := connection_closed (pr_proxy s) (rp_gauge x)\<rparr>) (set_proc i (g\<lparr>h_state := Ended\<rparr>) s))"
| killed: "h_watch g \<Longrightarrow> p_kill (pr_proxy s) \<Longrightarrow> Client_step E i g s Internal (set_proc i (force_close g) s)"
| watched: "h_watch g \<Longrightarrow> \<not> waiting_for_done (h_state g) \<Longrightarrow> Client_step E i g s Internal (set_proc i (g\<lparr>h_watch := False\<rparr>) s)"
| client_sends: "h_open g \<Longrightarrow> h_state g = Serving c \<Longrightarrow>
    Client_step E i g s Network (set_proc i (g\<lparr>h_state := Serving (c\<lparr>c_in := c_in c @ b\<rparr>)\<rparr>) s)"
| client_ends: "h_open g \<Longrightarrow> h_state g = Serving c \<Longrightarrow>
    Client_step E i g s Network (set_proc i (g\<lparr>h_state := Serving (c\<lparr>c_end := err\<rparr>), h_open := False\<rparr>) s)"

text \<open>
  The whole program, until \<^verbatim>\<open>main\<close> has returned. \<open>names\<close> is the order in which the table of the tracked
  clients is iterated.
\<close>

inductive Program_step :: "('g, 'd, 'n) proxy_env \<Rightarrow> event \<Rightarrow> ('g, 'd, 'n) program \<Rightarrow> ('g, 'd, 'n) program \<Rightarrow> bool" for E where
  run_goes: "\<not> pr_exited s \<Longrightarrow> r < length (pr_runs s) \<Longrightarrow> Run_step r (pr_runs s ! r) s ev s' \<Longrightarrow> Program_step E ev s s'"
| client_goes: "\<not> pr_exited s \<Longrightarrow> i < length (pr_clients s) \<Longrightarrow> Client_step E i (pr_clients s ! i) s ev s' \<Longrightarrow> Program_step E ev s s'"
| signalled: "\<not> pr_exited s \<Longrightarrow> set names = dom (w_clients (pr_world s)) \<Longrightarrow> Program_step E (Signal sig) s (on_signal E names sig s)"
| shutdown_goes: "\<not> pr_exited s \<Longrightarrow> pr_shutdown s \<Longrightarrow> set names = dom (w_clients (pr_world s)) \<Longrightarrow>
    Program_step E Internal s (run_shutdown E names s)"
| main_returns: "\<not> pr_exited s \<Longrightarrow> rp_state (pr_runs s ! 0) = Returned err \<Longrightarrow> Program_step E Internal s (s\<lparr>pr_exited := True\<rparr>)"

inductive Program_run :: "('g, 'd, 'n) proxy_env \<Rightarrow> ('g, 'd, 'n) program \<Rightarrow> ('g, 'd, 'n) program \<Rightarrow> bool" for E s0 where
  program_starts: "Program_run E s0 s0"
| program_goes: "Program_run E s0 s \<Longrightarrow> Program_step E ev s s' \<Longrightarrow> Program_run E s0 s'"

inductive Internal_run :: "('g, 'd, 'n) proxy_env \<Rightarrow> nat \<Rightarrow> ('g, 'd, 'n) program \<Rightarrow> ('g, 'd, 'n) program \<Rightarrow> bool" for E where
  internal_none: "Internal_run E 0 s s"
| internal_more: "Internal_run E n s s' \<Longrightarrow> Program_step E Internal s' s'' \<Longrightarrow> Internal_run E (Suc n) s s''"


section \<open>The accounts of the program\<close>

definition serving :: "nat \<Rightarrow> client_proc \<Rightarrow> nat" where
  "serving r g = (if h_run g = r \<and> waiting_for_done (h_state g) then 1 else 0)"

text \<open>
  The wait group of a run counts the connections that are served; the listener of a run is closed
  only to quit; a connection is left without its second goroutine only when it was closed.
\<close>

definition run_ok :: "Proxy \<Rightarrow> bool \<Rightarrow> run_proc \<Rightarrow> bool" where
  "run_ok p restarted x \<longleftrightarrow>
     (case rp_state x of
        NotListening \<Rightarrow> rp_wg x = 0 \<and> \<not> rp_closed x
      | Accepting \<Rightarrow> rp_closed x \<longrightarrow> p_quit p
      | Draining crashed \<Rightarrow> crashed \<or> p_quit p
      | Returned err \<Rightarrow> rp_wg x = 0 \<and> (restarted \<or> p_quit p \<or> err \<noteq> None))"

definition proc_ok :: "client_proc \<Rightarrow> bool" where
  "proc_ok g \<longleftrightarrow> (case h_state g of Spawned c \<Rightarrow> h_watch g \<or> \<not> h_open g | Serving c \<Rightarrow> h_watch g \<or> \<not> h_open g | _ \<Rightarrow> True)"

definition program_ok :: "('g, 'd, 'n) program \<Rightarrow> bool" where
  "program_ok s \<longleftrightarrow> pr_runs s \<noteq> [] \<and>
     (\<forall>x \<in> set (pr_runs s). run_ok (pr_proxy s) (1 < length (pr_runs s)) x) \<and>
     (\<forall>g \<in> set (pr_clients s). proc_ok g \<and> h_run g < length (pr_runs s)) \<and>
     (\<forall>r < length (pr_runs s). rp_wg (pr_runs s ! r) = sum_list (map (serving r) (pr_clients s)))"

definition signals_ok :: "('g, 'd, 'n) program \<Rightarrow> bool" where
  "signals_ok s \<longleftrightarrow> (shutdownAttempted s \<longleftrightarrow> pr_signals s \<noteq> []) \<and> (pr_shutdown s \<or> p_quit (pr_proxy s) \<longrightarrow> shutdownAttempted s) \<and>
     (p_kill (pr_proxy s) \<longrightarrow> p_quit (pr_proxy s) \<and> Interrupt \<in> set (tl (pr_signals s)))"

lemma program_start_ok:
  "program_ok (program_start (p, W))" "\<not> p_quit p \<Longrightarrow> \<not> p_kill p \<Longrightarrow> signals_ok (program_start (p, W))"
  by (simp_all add: program_ok_def signals_ok_def program_start_def new_run_def run_ok_def)

lemma set_run_fields [simp]:
  "pr_runs (set_run r x s) = (pr_runs s)[r := x]" "pr_clients (set_run r x s) = pr_clients s" "pr_proxy (set_run r x s) = pr_proxy s"
  "pr_world (set_run r x s) = pr_world s" "pr_signals (set_run r x s) = pr_signals s" "pr_exited (set_run r x s) = pr_exited s"
  "shutdownAttempted (set_run r x s) = shutdownAttempted s" "pr_shutdown (set_run r x s) = pr_shutdown s"
  by (simp_all add: set_run_def)

lemma set_proc_fields [simp]:
  "pr_clients (set_proc i g s) = (pr_clients s)[i := g]" "pr_runs (set_proc i g s) = pr_runs s" "pr_proxy (set_proc i g s) = pr_proxy s"
  "pr_world (set_proc i g s) = pr_world s" "pr_signals (set_proc i g s) = pr_signals s" "pr_exited (set_proc i g s) = pr_exited s"
  "shutdownAttempted (set_proc i g s) = shutdownAttempted s" "pr_shutdown (set_proc i g s) = pr_shutdown s"
  by (simp_all add: set_proc_def)

text \<open>Two forms of steps: those that leave the wait group and who is served, and those of one connection.\<close>

lemma program_ok_set_run:
  assumes "program_ok s" and "r < length (pr_runs s)" and "rp_wg x = rp_wg (pr_runs s ! r)" and "run_ok (pr_proxy s) (1 < length (pr_runs s)) x"
  shows "program_ok (set_run r x s)"
  using assms by (auto simp: program_ok_def nth_list_update dest!: in_set_update)

lemma program_ok_set_proc:
  assumes "program_ok s" and "i < length (pr_clients s)" and "proc_ok g" and "h_run g = h_run (pr_clients s ! i)"
    and "waiting_for_done (h_state g) = waiting_for_done (h_state (pr_clients s ! i))"
  shows "program_ok (set_proc i g s)"
proof -
  have "serving r g = serving r (pr_clients s ! i)" for r using assms(4,5) by (simp add: serving_def)
  with sum_list_map_update [OF assms(2), where y = g] have "sum_list (map (serving r) ((pr_clients s)[i := g])) = sum_list (map (serving r) (pr_clients s))" for r
    by (metis add_right_cancel)
  moreover have "h_run g < length (pr_runs s)" using assms(1,2,4) by (auto simp: program_ok_def)
  ultimately show ?thesis using assms(1,3) by (auto simp: program_ok_def dest!: in_set_update)
qed

lemma run_ok_gauge [simp]: "run_ok p b (x\<lparr>rp_gauge := gauge\<rparr>) = run_ok p b x"
  by (cases "rp_state x") (simp_all add: run_ok_def)

lemma program_ok_restart:
  assumes "program_ok s" and "r < length (pr_runs s)" and "rp_wg x = rp_wg (pr_runs s ! r)" and "run_ok (pr_proxy s) True x"
  shows "program_ok (s\<lparr>pr_runs := (pr_runs s)[r := x] @ [new_run]\<rparr>)"
proof -
  have "serving (length (pr_runs s)) g = 0" if "g \<in> set (pr_clients s)" for g using that assms(1) by (auto simp: program_ok_def serving_def)
  then have none: "sum_list (map (serving (length (pr_runs s))) (pr_clients s)) = 0" by (simp add: sum_list_0)
  have restarted: "run_ok p True y" if "run_ok p b y" for p b y using that by (auto simp: run_ok_def split: run_state.splits)
  have "run_ok p b new_run" "rp_wg new_run = 0" for p b by (simp_all add: run_ok_def new_run_def)
  with assms none restarted show ?thesis
    by (auto simp: program_ok_def nth_append nth_list_update dest!: in_set_update elim!: less_SucE)
qed

lemma Run_step_ok:
  assumes "Run_step r (pr_runs s ! r) s ev s'" and "r < length (pr_runs s)" and "program_ok s"
  shows "program_ok s'"
proof -
  let ?x = "pr_runs s ! r"
  have x: "run_ok (pr_proxy s) (1 < length (pr_runs s)) ?x" using assms(2,3) by (auto simp: program_ok_def)
  from assms(1) show ?thesis
  proof cases
    case (accepted errs)
    then have "run_ok (pr_proxy s) (1 < length (pr_runs s)) (?x\<lparr>rp_wg := n\<rparr>)" for n
      using x by (simp add: run_ok_def)
    with accepted assms(2,3) show ?thesis
      by (auto simp: program_ok_def accept_connection_def proc_ok_def serving_def waiting_for_done_def nth_list_update dest!: in_set_update)
  next
    case (wg_Wait crashed)
    have "program_ok (set_run r (?x\<lparr>rp_state := Returned None, rp_closed := True\<rparr>) s) \<or> crashed"
      using x wg_Wait(3,4) assms(2,3) by (auto intro!: program_ok_set_run simp: run_ok_def)
    moreover have "program_ok s'" if crashed
    proof -
      let ?y = "?x\<lparr>rp_state := Returned None, rp_closed := True\<rparr>"
      have "program_ok (s\<lparr>pr_runs := (pr_runs s)[r := ?y] @ [new_run]\<rparr>)"
        using wg_Wait(3,4) by (intro program_ok_restart [OF assms(3,2)]) (simp_all add: run_ok_def)
      then show ?thesis using wg_Wait that by (simp add: run_returns_def set_run_def)
    qed
    ultimately show ?thesis using wg_Wait by (auto simp: run_returns_def Let_def)
  next
    case (gauge_loop gauge)
    with x assms(2,3) show ?thesis by (auto intro!: program_ok_set_run)
  qed (use x assms(2,3) in \<open>auto intro!: program_ok_set_run simp: run_ok_def\<close>)
qed


lemma proc_ok_simps:
  "h_state g = Spawned c \<or> h_state g = Serving c \<Longrightarrow> proc_ok g \<longleftrightarrow> h_watch g \<or> \<not> h_open g"
  "h_state g = Handled \<or> h_state g = Reporting \<or> h_state g = Ended \<Longrightarrow> proc_ok g"
  by (auto simp: proc_ok_def)

lemma serve_handler: "serve E c W = Some (h, W') \<Longrightarrow> (\<exists>c'. h = Serving c') \<or> h = Handled"
  by (auto simp: serve_def split: option.splits outcome.splits)

lemma force_close_ok: "proc_ok (force_close g) \<and> h_run (force_close g) = h_run g \<and> waiting_for_done (h_state (force_close g)) = waiting_for_done (h_state g)"
  by (simp add: proc_ok_def force_close_def waiting_for_done_def split: handler.split)

lemma program_ok_world [simp]: "program_ok (s\<lparr>pr_world := W\<rparr>) = program_ok s"
  by (simp add: program_ok_def)

lemma wg_Done_ok:
  assumes "program_ok s" and "i < length (pr_clients s)" and "pr_clients s ! i = g" and "h_state g = Handled" and "x = pr_runs s ! h_run g"
  shows "program_ok (set_run (h_run g) (x\<lparr>rp_wg := rp_wg x - 1\<rparr>) (set_proc i (g\<lparr>h_state := Reporting\<rparr>) s))"
proof -
  let ?g = "g\<lparr>h_state := Reporting\<rparr>" and ?r = "h_run g"
  have r: "?r < length (pr_runs s)" using assms(1-3) by (auto simp: program_ok_def)
  have sum: "sum_list (map (serving r) ((pr_clients s)[i := ?g])) + (if r = ?r then 1 else 0) = sum_list (map (serving r) (pr_clients s))" for r
    using sum_list_map_update [OF assms(2), where y = ?g and f = "serving r"] assms(3,4) by (auto simp: serving_def waiting_for_done_def)
  have x: "rp_wg x = sum_list (map (serving ?r) (pr_clients s))" "run_ok (pr_proxy s) (1 < length (pr_runs s)) x"
    using assms(1,5) r by (auto simp: program_ok_def)
  have "run_ok (pr_proxy s) (1 < length (pr_runs s)) (x\<lparr>rp_wg := rp_wg x - 1\<rparr>)" using x(2) by (auto simp: run_ok_def split: run_state.splits)
  moreover have "rp_wg ((pr_runs s)[?r := x\<lparr>rp_wg := rp_wg x - 1\<rparr>] ! q) = sum_list (map (serving q) ((pr_clients s)[i := ?g]))"
    if "q < length (pr_runs s)" for q
    using sum [of q] x(1) r that assms(1) by (cases "q = ?r") (auto simp: program_ok_def)
  moreover have "proc_ok ?g" by (simp add: proc_ok_def)
  ultimately show ?thesis using assms(1) r by (auto simp: program_ok_def dest!: in_set_update)
qed

lemma Client_step_ok:
  assumes "Client_step E i (pr_clients s ! i) s ev s'" and "i < length (pr_clients s)" and "program_ok s"
  shows "program_ok s'"
proof -
  let ?g = "pr_clients s ! i"
  have g: "proc_ok ?g" "h_run ?g < length (pr_runs s)" using assms(2,3) by (auto simp: program_ok_def)
  have x: "run_ok (pr_proxy s) (1 < length (pr_runs s)) (pr_runs s ! h_run ?g)" using g assms(3) by (auto simp: program_ok_def)
  note set = program_ok_set_proc [OF assms(3,2)]
  from assms(1) show ?thesis
  proof cases
    case (handler_begins c c' W)
    with g(1) show ?thesis by (auto intro!: set simp: proc_ok_def waiting_for_done_def)
  next
    case (handler_serves c h W)
    with g(1) serve_handler [OF handler_serves(5)] show ?thesis by (auto intro!: set simp: proc_ok_def waiting_for_done_def)
  next
    case (wg_Done x)
    then show ?thesis using wg_Done_ok [OF assms(3,2) refl] by simp
  next
    case (reports x)
    let ?s = "set_proc i (?g\<lparr>h_state := Ended\<rparr>) s"
    have "program_ok ?s" using reports by (auto intro!: set simp: proc_ok_def waiting_for_done_def)
    then show ?thesis using reports g(2) x by (auto intro!: program_ok_set_run)
  next
    case killed
    with force_close_ok show ?thesis by (auto intro!: set)
  next
    case watched
    then show ?thesis using g(1) by (auto intro!: set simp: proc_ok_def waiting_for_done_def split: handler.splits)
  qed (use g(1) in \<open>auto intro!: set simp: proc_ok_def waiting_for_done_def\<close>)
qed

lemma Shutdown_fields: "Shutdown E names (p, W) = (p', W') \<Longrightarrow> p' = p\<lparr>p_quit := True\<rparr>"
  by (simp add: Shutdown_def)

lemma Kill_fields: "Kill E names (p, W) = (p', W') \<Longrightarrow> p' = p\<lparr>p_quit := True, p_kill := True\<rparr>"
  by (auto simp: Kill_def Shutdown_def)

lemma program_ok_quits:
  assumes "program_ok s" and "p' = (pr_proxy s)\<lparr>p_quit := True\<rparr> \<or> p' = (pr_proxy s)\<lparr>p_quit := True, p_kill := True\<rparr>"
  shows "program_ok (s\<lparr>pr_proxy := p'\<rparr>)"
proof -
  have "run_ok p' b x" if "run_ok (pr_proxy s) b x" for b x using that assms(2) by (auto simp: run_ok_def split: run_state.splits)
  with assms(1) show ?thesis by (simp add: program_ok_def)
qed

lemma program_ok_frame [simp]:
  "program_ok (s\<lparr>pr_exited := b\<rparr>) = program_ok s" "program_ok (s\<lparr>pr_shutdown := b\<rparr>) = program_ok s"
  "program_ok (s\<lparr>shutdownAttempted := b\<rparr>) = program_ok s" "program_ok (s\<lparr>pr_signals := sigs\<rparr>) = program_ok s"
  by (simp_all add: program_ok_def)

lemma on_signal_ok:
  assumes "program_ok s"
  shows "program_ok (on_signal E names sig s)"
proof -
  obtain p W where k: "Kill E names (pr_proxy s, pr_world s) = (p, W)" by fastforce
  from Kill_fields [OF k] assms have "program_ok (s\<lparr>pr_proxy := p\<rparr>)" by (intro program_ok_quits) simp_all
  then show ?thesis using assms k by (simp add: on_signal_def program_ok_def Let_def)
qed

lemma run_shutdown_ok:
  assumes "program_ok s"
  shows "program_ok (run_shutdown E names s)"
proof -
  obtain p W where k: "Shutdown E names (pr_proxy s, pr_world s) = (p, W)" by fastforce
  from Shutdown_fields [OF k] assms have "program_ok (s\<lparr>pr_proxy := p\<rparr>)" by (intro program_ok_quits) simp_all
  then show ?thesis using k by (simp add: run_shutdown_def program_ok_def Let_def)
qed

lemma Program_step_ok: "Program_step E ev s s' \<Longrightarrow> program_ok s \<Longrightarrow> program_ok s'"
  by (induction rule: Program_step.induct) (simp_all add: Run_step_ok Client_step_ok on_signal_ok run_shutdown_ok)

text \<open>Only signals make the program quit, and only a second one kills.\<close>

lemma Run_step_frame:
  "Run_step r x s ev s' \<Longrightarrow> pr_proxy s' = pr_proxy s \<and> pr_world s' = pr_world s \<and> pr_signals s' = pr_signals s \<and>
     shutdownAttempted s' = shutdownAttempted s \<and> pr_shutdown s' = pr_shutdown s \<and> pr_exited s' = pr_exited s"
  by (induction rule: Run_step.induct) (simp_all add: accept_connection_def run_returns_def Let_def)

lemma Client_step_frame:
  "Client_step E i g s ev s' \<Longrightarrow> pr_proxy s' = pr_proxy s \<and> pr_signals s' = pr_signals s \<and>
     shutdownAttempted s' = shutdownAttempted s \<and> pr_shutdown s' = pr_shutdown s \<and> pr_exited s' = pr_exited s"
  by (induction rule: Client_step.induct) simp_all

lemma on_signal_signals:
  assumes "signals_ok s"
  shows "signals_ok (on_signal E names sig s)"
proof (cases "shutdownAttempted s")
  case True
  obtain p W where k: "Kill E names (pr_proxy s, pr_world s) = (p, W)" by fastforce
  have "pr_signals s \<noteq> []" using True assms by (simp add: signals_ok_def)
  with True k Kill_fields [OF k] assms show ?thesis by (auto simp: on_signal_def signals_ok_def Let_def)
qed (use assms in \<open>auto simp: on_signal_def signals_ok_def Let_def\<close>)

lemma Program_step_signals: "Program_step E ev s s' \<Longrightarrow> signals_ok s \<Longrightarrow> signals_ok s'"
proof (induction rule: Program_step.induct)
  case (shutdown_goes s names)
  obtain p W where k: "Shutdown E names (pr_proxy s, pr_world s) = (p, W)" by fastforce
  with Shutdown_fields [OF k] shutdown_goes show ?case by (auto simp: run_shutdown_def signals_ok_def Let_def)
next
  case (signalled s names sig)
  then show ?case by (simp add: on_signal_signals)
qed (auto simp: signals_ok_def dest!: Run_step_frame Client_step_frame)


section \<open>The program ends\<close>

text \<open>Every step of the goroutines leaves less to do.\<close>

definition client_weight :: "client_proc \<Rightarrow> nat" where
  "client_weight g =
     (case h_state g of Spawned c \<Rightarrow> length (c_in c) + 5 | Serving c \<Rightarrow> length (c_in c) + 4 | Handled \<Rightarrow> 2 | Reporting \<Rightarrow> 1 | Ended \<Rightarrow> 0) +
     (if h_watch g then 1 else 0)"

definition run_weight :: "run_proc \<Rightarrow> nat" where
  "run_weight x =
     (case rp_state x of NotListening \<Rightarrow> 3 | Accepting \<Rightarrow> 2 | Draining crashed \<Rightarrow> if crashed then 6 else 1 | Returned err \<Rightarrow> 0) +
     (if rp_closed x then 0 else 1)"

definition program_weight :: "('g, 'd, 'n) program \<Rightarrow> nat" where
  "program_weight s =
     sum_list (map run_weight (pr_runs s)) + sum_list (map client_weight (pr_clients s)) + (if pr_shutdown s then 1 else 0) +
     (if pr_exited s then 0 else 1)"

lemma set_run_weight:
  assumes "r < length (pr_runs s)"
  shows "program_weight (set_run r x s) + run_weight (pr_runs s ! r) = program_weight s + run_weight x"
  using sum_list_map_update [OF assms, where f = run_weight and y = x] by (simp add: program_weight_def)

lemma set_proc_weight:
  assumes "i < length (pr_clients s)"
  shows "program_weight (set_proc i g s) + client_weight (pr_clients s ! i) = program_weight s + client_weight g"
  using sum_list_map_update [OF assms, where f = client_weight and y = g] by (simp add: program_weight_def)

lemma program_weight_world [simp]: "program_weight (s\<lparr>pr_world := W\<rparr>) = program_weight s"
  by (simp add: program_weight_def)

lemma set_run_same_weight:
  "run_weight x = run_weight (pr_runs s ! r) \<Longrightarrow> program_weight (set_run r x s) = program_weight s"
  using set_run_weight [of r s x] by (cases "r < length (pr_runs s)") (simp_all add: set_run_def program_weight_def list_update_beyond)

lemma Run_step_weight:
  assumes "Run_step r (pr_runs s ! r) s Internal s'" and "r < length (pr_runs s)"
  shows "program_weight s' < program_weight s"
proof -
  have less: "program_weight (set_run r x s) < program_weight s" if "run_weight x < run_weight (pr_runs s ! r)" for x
    using set_run_weight [OF assms(2), of x] that by linarith
  from assms(1) show ?thesis
  proof cases
    case (wg_Wait crashed)
    let ?x = "(pr_runs s ! r)\<lparr>rp_state := Returned None, rp_closed := True\<rparr>"
    have "program_weight s' = program_weight (set_run r ?x s) + (if crashed then 4 else 0)"
      using wg_Wait(1) by (simp add: run_returns_def program_weight_def new_run_def run_weight_def Let_def)
    moreover have "run_weight ?x = 0" "run_weight (pr_runs s ! r) \<ge> (if crashed then 6 else 1)" using wg_Wait(2) by (simp_all add: run_weight_def)
    ultimately show ?thesis using set_run_weight [OF assms(2), of ?x] by (simp split: if_splits)
  qed (auto intro!: less simp: run_weight_def)
qed

lemma serve_weight:
  assumes "serve E c W = Some (h, W')"
  shows "client_weight (g\<lparr>h_state := h\<rparr>) < client_weight (g\<lparr>h_state := Serving c\<rparr>)"
proof -
  obtain r c' W1 where m: "handleMessage E c W = Some (r, c', W1)" using assms by (cases "handleMessage E c W") (auto simp: serve_def)
  show ?thesis
  proof (cases r)
    case (Ok x)
    with handleMessage_consumes m have "length (c_in c') + 4 \<le> length (c_in c)" by blast
    with assms m Ok show ?thesis by (auto simp: serve_def client_weight_def)
  qed (use assms m in \<open>auto simp: serve_def client_weight_def\<close>)
qed

lemma Client_step_weight:
  assumes "Client_step E i (pr_clients s ! i) s Internal s'" and "i < length (pr_clients s)"
  shows "program_weight s' < program_weight s"
proof -
  let ?g = "pr_clients s ! i"
  have less: "program_weight (set_proc i g s) < program_weight s" if "client_weight g < client_weight ?g" for g
    using set_proc_weight [OF assms(2), of g] that by linarith
  from assms(1) show ?thesis
  proof cases
    case (handler_begins c c' W)
    then have "length (c_in c') = length (c_in c)" by (auto simp: begin_handler_def new_connection_def Let_def)
    with handler_begins show ?thesis by (auto intro!: less simp: client_weight_def)
  next
    case (handler_serves c h W)
    then have "?g\<lparr>h_state := Serving c\<rparr> = ?g" by (cases ?g) simp
    with serve_weight [OF handler_serves(4), of ?g] handler_serves(1) show ?thesis by (auto intro!: less)
  next
    case (wg_Done x)
    have "program_weight s' = program_weight (set_proc i (?g\<lparr>h_state := Reporting\<rparr>) s)"
      unfolding wg_Done(1) by (rule set_run_same_weight) (simp add: wg_Done run_weight_def)
    with wg_Done show ?thesis by (auto intro!: less simp: client_weight_def)
  next
    case (reports x)
    have "program_weight s' = program_weight (set_proc i (?g\<lparr>h_state := Ended\<rparr>) s)"
      unfolding reports(1) by (rule set_run_same_weight) (simp add: reports run_weight_def)
    with reports show ?thesis by (auto intro!: less simp: client_weight_def)
  next
    case killed
    then show ?thesis by (auto intro!: less simp: client_weight_def force_close_def conn_Close_def split: handler.splits)
  next
    case watched
    then show ?thesis by (auto intro!: less simp: client_weight_def)
  qed
qed

lemma Internal_step_weight:
  assumes "Program_step E Internal s s'"
  shows "program_weight s' < program_weight s"
  using assms
proof cases
  case (run_goes r)
  then show ?thesis using Run_step_weight by blast
next
  case (client_goes i)
  then show ?thesis using Client_step_weight by blast
qed (simp_all add: run_shutdown_def program_weight_def split: prod.split)

lemma Internal_run_weight: "Internal_run E n s s' \<Longrightarrow> program_weight s' + n \<le> program_weight s"
  by (induction rule: Internal_run.induct) (auto dest!: Internal_step_weight)

text \<open>A program that was told to quit, with no client that could keep a connection open.\<close>

definition quitting :: "('g, 'd, 'n) program \<Rightarrow> bool" where
  "quitting s \<longleftrightarrow> p_quit (pr_proxy s) \<and> (p_kill (pr_proxy s) \<or> (\<forall>g \<in> set (pr_clients s). \<not> h_open g))"

lemma quitting_set_proc:
  assumes "quitting s" and "h_open g \<Longrightarrow> h_open (pr_clients s ! i)" and "i < length (pr_clients s)"
  shows "quitting (set_proc i g s)"
proof -
  have "\<not> h_open g" if "\<forall>g \<in> set (pr_clients s). \<not> h_open g" using that assms(2,3) by auto
  with assms(1) show ?thesis by (auto simp: quitting_def dest!: in_set_update)
qed

lemma quitting_frame [simp]: "quitting (set_run r x s) = quitting s" "quitting (s\<lparr>pr_world := W\<rparr>) = quitting s" "quitting (s\<lparr>pr_exited := b\<rparr>) = quitting s"
  by (simp_all add: quitting_def)

lemma Internal_step_quitting:
  assumes "Program_step E Internal s s'" and "quitting s"
  shows "quitting s'"
  using assms(1)
proof cases
  case (run_goes r)
  from run_goes(3) show ?thesis by cases (use assms(2) in \<open>simp_all add: run_returns_def quitting_def Let_def\<close>)
next
  case (client_goes i)
  from client_goes(3) show ?thesis
    by cases (use client_goes(2) assms(2) in \<open>auto intro!: quitting_set_proc simp: force_close_def split: handler.splits\<close>)
next
  case (shutdown_goes names)
  obtain p W where "Shutdown E names (pr_proxy s, pr_world s) = (p, W)" by fastforce
  with Shutdown_fields [OF this] shutdown_goes assms(2) show ?thesis by (simp add: run_shutdown_def quitting_def Let_def)
qed (use assms(2) in simp_all)

lemma serve_total:
  assumes "readers_consume (e_wire E)"
  shows "\<exists>h W'. serve E c W = Some (h, W')"
proof -
  obtain r c' W' where "handleMessage E c W = Some (r, c', W')" using handleMessage_total [OF assms, of c W] by (metis not_None_eq prod_cases3)
  then show ?thesis by (cases r) (simp_all add: serve_def)
qed

lemma client_progress:
  assumes "readers_consume (e_wire E)" and "waiting_for_done (h_state g)" and "proc_ok g" and "h_open g \<Longrightarrow> p_kill (pr_proxy s)"
  shows "\<exists>s'. Client_step E i g s Internal s'"
proof (cases "h_state g")
  case (Spawned c)
  obtain c' W where "begin_handler E c (pr_world s) = (c', W)" by fastforce
  with Spawned show ?thesis by (blast intro: handler_begins)
next
  case (Serving c)
  obtain h W where h: "serve E c (pr_world s) = Some (h, W)" using serve_total [OF assms(1)] by blast
  show ?thesis
  proof (cases "h_open g")
    case True
    then show ?thesis using Serving assms(3,4) by (auto simp: proc_ok_def intro: killed)
  next
    case False
    then have "\<not> waits g c" by (simp add: waits_def)
    with Serving h show ?thesis by (blast intro: handler_serves)
  qed
next
  case Handled
  then show ?thesis by (blast intro: wg_Done)
qed (use assms(2) in \<open>simp_all add: waiting_for_done_def\<close>)

lemma quitting_progress:
  assumes "readers_consume (e_wire E)" and "program_ok s" and "quitting s" and "\<not> pr_exited s"
  shows "\<exists>s'. Program_step E Internal s s'"
proof -
  let ?x = "pr_runs s ! 0"
  have r: "0 < length (pr_runs s)" using assms(2) by (auto simp: program_ok_def)
  have run: "\<exists>s'. Program_step E Internal s s'" if "\<exists>s'. Run_step 0 ?x s Internal s'" using that r assms(4) by (blast intro: run_goes)
  have quit: "p_quit (pr_proxy s)" using assms(3) by (simp add: quitting_def)
  show ?thesis
  proof (cases "rp_state ?x")
    case NotListening
    then show ?thesis by (blast intro: run net_Listen)
  next
    case Accepting
    then show ?thesis using quit by (blast intro: run accept_quit)
  next
    case (Draining crashed)
    show ?thesis
    proof (cases "rp_wg ?x = 0")
      case True
      with Draining show ?thesis by (blast intro: run wg_Wait)
    next
      case False
      then have "\<exists>n \<in> set (map (serving 0) (pr_clients s)). n \<noteq> 0"
        using assms(2) r sum_list_eq_0_iff [of "map (serving 0) (pr_clients s)"] unfolding program_ok_def by metis
      then obtain g where g: "g \<in> set (pr_clients s)" "waiting_for_done (h_state g)" by (auto simp: serving_def split: if_splits)
      then obtain i where i: "i < length (pr_clients s)" "pr_clients s ! i = g" by (auto simp: in_set_conv_nth)
      have "proc_ok (pr_clients s ! i)" using g(1) i assms(2) by (auto simp: program_ok_def)
      moreover have "h_open (pr_clients s ! i) \<Longrightarrow> p_kill (pr_proxy s)" using assms(3) i(1) by (auto simp: quitting_def)
      ultimately obtain s' where "Client_step E i (pr_clients s ! i) s Internal s'" using client_progress [OF assms(1)] g(2) i(2) by blast
      with i(1) assms(4) show ?thesis by (blast intro: client_goes)
    qed
  next
    case (Returned err)
    with assms(4) show ?thesis by (blast intro: main_returns)
  qed
qed


lemma Program_run_ok: "Program_run E s0 s \<Longrightarrow> program_ok s0 \<Longrightarrow> program_ok s"
  by (induction rule: Program_run.induct) (auto intro: Program_step_ok)

lemma Program_run_signals: "Program_run E s0 s \<Longrightarrow> signals_ok s0 \<Longrightarrow> signals_ok s"
  by (induction rule: Program_run.induct) (auto intro: Program_step_signals)

lemma Internal_run_keeps: "Internal_run E n s s' \<Longrightarrow> program_ok s \<Longrightarrow> quitting s \<Longrightarrow> program_ok s' \<and> quitting s'"
  by (induction rule: Internal_run.induct) (auto intro: Program_step_ok Internal_step_quitting)

lemma Internal_run_first: "Program_step E Internal s s1 \<Longrightarrow> Internal_run E n s1 s' \<Longrightarrow> Internal_run E (Suc n) s s'"
  by (rotate_tac, induction rule: Internal_run.induct) (auto intro: Internal_run.intros)

lemma Internal_run_is_run: "Internal_run E n s s' \<Longrightarrow> Program_run E s0 s \<Longrightarrow> Program_run E s0 s'"
  by (induction rule: Internal_run.induct) (auto intro: program_goes)

text \<open>The steps can be taken until the program has ended.\<close>

lemma quitting_ends:
  assumes "readers_consume (e_wire E)" and "program_ok s" and "quitting s"
  shows "\<exists>n s'. Internal_run E n s s' \<and> pr_exited s'"
  using assms(2,3)
proof (induction "program_weight s" arbitrary: s rule: less_induct)
  case less
  show ?case
  proof (cases "pr_exited s")
    case False
    then obtain s1 where s1: "Program_step E Internal s s1" using quitting_progress [OF assms(1)] less.prems by blast
    from less.hyps [OF Internal_step_weight [OF this] Program_step_ok [OF this less.prems(1)] Internal_step_quitting [OF this less.prems(2)]]
    show ?thesis using Internal_run_first [OF s1] by blast
  qed (blast intro: internal_none)
qed


section \<open>The clients of a program that has ended\<close>

definition clients_of :: "Manager \<Rightarrow> string set" where
  "clients_of m = dom (activeClients m)"

lemma clients_of_RegisterClient: "clients_of (snd (RegisterClient now cid user db mode m)) \<subseteq> insert cid (clients_of m)"
  by (auto simp: clients_of_def RegisterClient_def Let_def split: option.split)

lemma clients_of_UnregisterClient: "clients_of (UnregisterClient now cid m) = clients_of m - {cid}"
  by (auto simp: clients_of_def UnregisterClient_def return_held_def ReturnOwn_def Return_def update_stats_def Let_def split: option.splits if_splits)

lemma clients_of_ReturnConnection [simp]: "clients_of (ReturnConnection now cid conn isEnd m) = clients_of m"
  by (auto simp: clients_of_def ReturnConnection_def set_client_def ReturnOwn_def Return_def update_stats_def Let_def split: option.split)

lemma clients_of_GetConnection:
  assumes "GetConnection now cid db mc isTxn txn m = (r, m')"
  shows "clients_of m' = clients_of m"
proof -
  have "activeClients (snd (Checkout now p cid m)) = activeClients m" "activeClients (snd (GetPool now db mc mode m)) = activeClients m" for p mode m
    by (simp_all add: Checkout_def GetPool_def update_stats_def Let_def split: option.split)
  then have steps: "Checkout now p cid m = (x, m') \<Longrightarrow> activeClients m' = activeClients m"
    "GetPool now db mc mode m = (q, m') \<Longrightarrow> activeClients m' = activeClients m" for p mode m m' x q
    by (metis snd_conv)+
  have ret: "activeClients (Return now p c m) = activeClients m" for p c m by (simp add: Return_def update_stats_def Let_def)
  show ?thesis
    using assms by (auto simp: GetConnection_def clients_of_def set_client_def ret Let_def map_prod_def dest!: steps split: option.splits prod.splits if_splits)
qed

lemma clients_of_reregister:
  assumes "reregister E db c W = (r, W')"
  shows "clients_of (w_pool W') \<subseteq> insert (clientID c) (clients_of (w_pool W))"
proof -
  have 1: "clients_of m' \<subseteq> insert (clientID c) (clients_of m)"
    if "RegisterClient now (clientID c) user db mode m = (x, m')" for now user db mode m x m'
    using clients_of_RegisterClient [of now "clientID c" user db mode m] that by simp
  show ?thesis
    using assms by (auto simp: reregister_def clients_of_UnregisterClient Let_def dest!: 1 split: option.splits if_splits prod.splits)
qed


lemma clients_of_roundTripWithPool:
  assumes "roundTripWithPool E wm op db a c W = Some (r, W')"
  shows "clients_of (w_pool W') \<subseteq> insert (clientID c) (clients_of (w_pool W))"
  using assms
proof (cases rule: roundTripWithPool_cases)
  case (pooled W1 db' e W2)
  with clients_of_reregister [OF pooled(2)] show ?thesis by simp
next
  case (refused W1 db' W2 now isTxn txn err)
  with clients_of_reregister [OF refused(2)] clients_of_GetConnection [OF refused(3)] show ?thesis by simp
next
  case (unusable W1 db' W2 now isTxn txn pc)
  with clients_of_reregister [OF unusable(2)] clients_of_GetConnection [OF unusable(3)] show ?thesis by simp
next
  case (served W1 db' W2 now isTxn txn pc m now' isEnd)
  with clients_of_reregister [OF served(2)] clients_of_GetConnection [OF served(3)] show ?thesis by simp
qed auto

lemma clients_of_connection_roundTrip:
  assumes "connection_roundTrip E wm op c W = Some (r, c', W')"
  shows "clients_of (w_pool W') \<subseteq> insert (clientID c) (clients_of (w_pool W))"
proof -
  let ?om = "methods (e_wire E) op"
  obtain db c1 where x: "connection_extractDatabaseName ?om c = (db, c1)" by fastforce
  obtain res c2 W2 where ro: "route_operation E db c1 W = (res, c2, W2)" by (metis prod_cases3)
  have p: "w_pool W2 = w_pool W" using route_operation_pool [of E db c1 W] ro by simp
  have h: "handshake E om c W = (r, c', W') \<Longrightarrow> w_pool W' = w_pool W" for om c W r c' W' using handshake_pool [of E om c W] by simp
  have id: "clientID c2 = clientID c" using extract_stream [OF x] route_stream [OF ro] by (simp add: same_stream_def)
  show ?thesis
    using assms x ro p id
    by (auto simp: connection_roundTrip_def Let_def dest!: h clients_of_roundTripWithPool client_RoundTrip_pool
        split: if_splits outcome.splits option.splits prod.splits)
qed

lemma clients_of_handleMessage:
  assumes "handleMessage E c W = Some (r, c', W')"
  shows "clients_of (w_pool W') \<subseteq> insert (clientID c) (clients_of (w_pool W)) \<and> clientID c' = clientID c"
  using assms
proof (cases rule: handleMessage_cases)
  case (trip wm c1 op db c2 res c3)
  have "clientID c1 = clientID c"
    using trip(1) by (auto simp: readWireMessage_def io_ReadFull_def Let_def split: if_splits sum.splits prod.splits)
  moreover have "clientID c2 = clientID c1" using extract_stream [OF trip(3)] by (simp add: same_stream_def)
  ultimately show ?thesis using clients_of_connection_roundTrip [OF trip(4)] trip(5) by (simp add: same_stream_def)
qed auto


text \<open>Only the connections that are being served are registered with the pool manager.\<close>

definition proc_ids :: "client_proc \<Rightarrow> string set" where
  "proc_ids g = (case h_state g of Serving c \<Rightarrow> {clientID c} | _ \<Rightarrow> {})"

definition served_ids :: "('g, 'd, 'n) program \<Rightarrow> string set" where
  "served_ids s = (\<Union>g \<in> set (pr_clients s). proc_ids g)"

definition pool_served :: "Manager \<Rightarrow> ('g, 'd, 'n) program \<Rightarrow> bool" where
  "pool_served m s \<longleftrightarrow> pool_use {defaultMode m} Map.empty m (w_pool (pr_world s)) \<and> clients_of (w_pool (pr_world s)) \<subseteq> served_ids s"

lemma served_ids_set_proc:
  assumes "i < length (pr_clients s)"
  shows "served_ids s - proc_ids (pr_clients s ! i) \<union> proc_ids g \<subseteq> served_ids (set_proc i g s)"
proof -
  have "x \<in> set ((pr_clients s)[i := g]) \<or> x = pr_clients s ! i" if "x \<in> set (pr_clients s)" for x
    using that by (metis in_set_conv_nth length_list_update nth_list_update_neq)
  moreover have "g \<in> set ((pr_clients s)[i := g])" using assms by (simp add: set_update_memI)
  ultimately show ?thesis by (auto simp: served_ids_def)
qed

lemma served_ids_same: "i < length (pr_clients s) \<Longrightarrow> proc_ids g = proc_ids (pr_clients s ! i) \<Longrightarrow> served_ids s \<subseteq> served_ids (set_proc i g s)"
  using served_ids_set_proc [of i s g] by auto

lemma proc_ids_force_close: "proc_ids (force_close g) = proc_ids g"
  by (cases "h_state g") (simp_all add: proc_ids_def force_close_def conn_Close_def)

lemma served_ids_frame [simp]: "served_ids (set_run r x s) = served_ids s" "served_ids (s\<lparr>pr_world := W\<rparr>) = served_ids s"
  by (simp_all add: served_ids_def)

lemma pool_served_step:
  assumes "pool_served m s" and "pool_use {defaultMode m} Map.empty (w_pool (pr_world s)) (w_pool (pr_world s'))"
    and "clients_of (w_pool (pr_world s')) \<subseteq> served_ids s'"
  shows "pool_served m s'"
  using assms pool_use_trans unfolding pool_served_def by blast

lemma pool_served_frame:
  assumes "pool_served m s" and "w_pool (pr_world s') = w_pool (pr_world s)" and "served_ids s \<subseteq> served_ids s'"
  shows "pool_served m s'"
  using assms by (auto simp: pool_served_def)

lemma serve_pool:
  assumes "serve E c W = Some (h, W')" and "pool_ok modes (w_pool W)"
  shows "pool_use modes Map.empty (w_pool W) (w_pool W')"
    and "clients_of (w_pool W') \<subseteq> (clients_of (w_pool W) - {clientID c}) \<union> (case h of Serving c' \<Rightarrow> {clientID c'} | _ \<Rightarrow> {})"
proof -
  obtain r c' W1 where m: "handleMessage E c W = Some (r, c', W1)" using assms(1) by (cases "handleMessage E c W") (auto simp: serve_def)
  have use: "pool_use modes Map.empty (w_pool W) (w_pool W1)" using handleMessage_use [OF m assms(2), of Map.empty] by simp
  then have "pool_use modes Map.empty (w_pool W1) (w_pool (end_handler E c' W1))"
    by (auto simp: end_handler_def pool_use_def [of _ _ "w_pool W"] intro!: pool_use_unregister)
  with use have ends: "pool_use modes Map.empty (w_pool W) (w_pool (end_handler E c' W1))" by (rule pool_use_trans)
  show "pool_use modes Map.empty (w_pool W) (w_pool W')"
    using assms(1) m use ends by (cases r) (auto simp: serve_def)
  show "clients_of (w_pool W') \<subseteq> (clients_of (w_pool W) - {clientID c}) \<union> (case h of Serving c' \<Rightarrow> {clientID c'} | _ \<Rightarrow> {})"
    using clients_of_handleMessage [OF m] assms(1) m by (cases r) (auto simp: serve_def end_handler_def clients_of_UnregisterClient)
qed

lemma Client_step_pool:
  assumes "Client_step E i (pr_clients s ! i) s ev s'" and "i < length (pr_clients s)" and "pool_served m s"
  shows "pool_served m s'"
proof -
  let ?g = "pr_clients s ! i"
  have ok: "pool_ok {defaultMode m} (w_pool (pr_world s))" and ids: "clients_of (w_pool (pr_world s)) \<subseteq> served_ids s"
    using assms(3) by (simp_all add: pool_served_def pool_use_def)
  note set = served_ids_set_proc [OF assms(2)] and same = served_ids_same [OF assms(2)]
  from assms(1) show ?thesis
  proof cases
    case (handler_begins c c' W)
    let ?m = "w_pool (pr_world s)"
    have W: "w_pool W = snd (RegisterClient (w_now E (pr_world s)) (clientID c') ''default'' ''default'' (defaultMode ?m) ?m)"
      using handler_begins(4) by (auto simp: begin_handler_def GetDefaultMode_def Let_def)
    have "clients_of (w_pool W) \<subseteq> insert (clientID c') (served_ids s)"
      unfolding W using clients_of_RegisterClient ids by blast
    then have "clients_of (w_pool (pr_world s')) \<subseteq> served_ids s'"
      using set [of "?g\<lparr>h_state := Serving c'\<rparr>"] handler_begins(2,3) by (auto simp: proc_ids_def)
    moreover have "pool_use {defaultMode m} Map.empty ?m (w_pool (pr_world s'))"
      using pool_use_register [OF ok] W handler_begins(2) by simp
    ultimately show ?thesis using assms(3) by (intro pool_served_step [OF assms(3)])
  next
    case (handler_serves c h W)
    note sp = serve_pool [OF handler_serves(5) ok]
    have "clients_of (w_pool (pr_world s')) \<subseteq> served_ids s'"
      using sp(2) ids set [of "?g\<lparr>h_state := h\<rparr>"] handler_serves(2,3) by (auto simp: proc_ids_def)
    with sp(1) handler_serves(2) show ?thesis by (intro pool_served_step [OF assms(3)]) simp_all
  qed (hypsubst, rule pool_served_frame [OF assms(3)], simp, (simp only: served_ids_frame)?, rule same,
      simp add: proc_ids_def proc_ids_force_close [unfolded proc_ids_def])+
qed

lemma CloseAllMongoClients_pool [simp]: "w_pool (CloseAllMongoClients E names W) = w_pool W"
proof -
  have "w_pool (fold (\<lambda>n W'. case f n of Some a \<Rightarrow> close_client E a W' | None \<Rightarrow> W') names W) = w_pool W" for f
    by (induction names arbitrary: W) (simp_all add: close_client_def Let_def split: option.split)
  then show ?thesis by (simp add: CloseAllMongoClients_def)
qed

lemma Program_step_pool: "Program_step E ev s s' \<Longrightarrow> pool_served m s \<Longrightarrow> pool_served m s'"
proof (induction rule: Program_step.induct)
  case (run_goes s r ev s')
  have "served_ids s \<subseteq> served_ids s'"
    using run_goes(3) by cases (auto simp: served_ids_def accept_connection_def run_returns_def Let_def)
  with Run_step_frame [OF run_goes(3)] run_goes(4) show ?case by (auto intro: pool_served_frame)
next
  case (client_goes s i ev s')
  then show ?case using Client_step_pool by blast
qed (auto simp: on_signal_def run_shutdown_def Kill_def Shutdown_def served_ids_def Let_def split: prod.split elim!: pool_served_frame)

lemma Program_run_pool: "Program_run E s0 s \<Longrightarrow> pool_served m s0 \<Longrightarrow> pool_served m s"
  by (induction rule: Program_run.induct) (auto intro: Program_step_pool)

lemma Program_step_exited: "Program_step E ev s s' \<Longrightarrow> pr_exited s' \<Longrightarrow> \<exists>err. rp_state (pr_runs s' ! 0) = Returned err"
  by (induction rule: Program_step.induct)
    (auto simp: on_signal_def run_shutdown_def Let_def dest!: Run_step_frame Client_step_frame split: if_splits prod.splits)

lemma Program_run_exited: "Program_run E s0 s \<Longrightarrow> \<not> pr_exited s0 \<Longrightarrow> pr_exited s \<Longrightarrow> \<exists>err. rp_state (pr_runs s ! 0) = Returned err"
  by (induction rule: Program_run.induct) (auto dest: Program_step_exited)

text \<open>
  A program without a crash that has ended: every connection was handled to its end, and what is left in the
  pool manager is an execution of it with no client registered.
\<close>

lemma program_end:
  assumes "Program_run E (program_start (p, W)) s" and "\<not> p_quit p" and "\<not> p_kill p" and "pool_clients (w_pool W)" and "clients_of (w_pool W) = {}"
    and "pr_exited s" and "length (pr_runs s) = 1"
  shows "\<forall>g \<in> set (pr_clients s). \<not> waiting_for_done (h_state g)" and "activeClients (w_pool (pr_world s)) = Map.empty"
    and "Pool_run {defaultMode (w_pool W)} (w_pool W, Map.empty) (w_pool (pr_world s), Map.empty)"
    and "\<exists>err. rp_state (pr_runs s ! 0) = Returned err \<and> (err = None \<longrightarrow> pr_signals s \<noteq> [])"
proof -
  have ok: "program_ok s" "signals_ok s"
    using Program_run_ok [OF assms(1) program_start_ok(1)] Program_run_signals [OF assms(1) program_start_ok(2) [OF assms(2,3)]] .
  obtain err where err: "rp_state (pr_runs s ! 0) = Returned err"
    using Program_run_exited [OF assms(1) _ assms(6)] by (auto simp: program_start_def)
  have x: "run_ok (pr_proxy s) False (pr_runs s ! 0)" "rp_wg (pr_runs s ! 0) = sum_list (map (serving 0) (pr_clients s))"
    using ok(1) assms(7) by (auto simp: program_ok_def)
  then have "sum_list (map (serving 0) (pr_clients s)) = 0" using err by (simp add: run_ok_def)
  moreover have "h_run g = 0" if "g \<in> set (pr_clients s)" for g using that ok(1) assms(7) by (auto simp: program_ok_def)
  ultimately show handled: "\<forall>g \<in> set (pr_clients s). \<not> waiting_for_done (h_state g)" by (auto simp: serving_def split: if_splits)
  have "pool_served (w_pool W) (program_start (p, W))"
    using assms(4,5) by (simp add: pool_served_def program_start_def pool_use_idle pool_ok_def)
  note ps = Program_run_pool [OF assms(1) this]
  have "served_ids s = {}" using handled by (auto simp: served_ids_def proc_ids_def waiting_for_done_def split: handler.splits)
  with ps show "activeClients (w_pool (pr_world s)) = Map.empty" by (simp add: pool_served_def clients_of_def)
  show "Pool_run {defaultMode (w_pool W)} (w_pool W, Map.empty) (w_pool (pr_world s), Map.empty)"
    using ps by (simp add: pool_served_def pool_use_def)
  show "\<exists>err. rp_state (pr_runs s ! 0) = Returned err \<and> (err = None \<longrightarrow> pr_signals s \<noteq> [])"
    using err x(1) ok(2) by (auto simp: run_ok_def signals_ok_def)
qed

text \<open>A panic of the listener ends the program, although the listener is started again.\<close>

lemma crash_ends_program:
  assumes "\<not> p_quit p"
  shows "\<exists>s. Program_run E (program_start (p, W)) s \<and> pr_exited s \<and> pr_signals s = [] \<and> pr_runs s ! 1 = new_run"
proof -
  define x where "x st c = new_run\<lparr>rp_state := st, rp_closed := c\<rparr>" for st c
  let ?s0 = "program_start (p, W)"
  let ?s1 = "set_run 0 (x Accepting False) ?s0" and ?s2 = "set_run 0 (x (Draining True) False) ?s0"
  let ?s3 = "?s0\<lparr>pr_runs := [x (Returned None) True, new_run]\<rparr>"
  have "Program_step E Internal ?s0 ?s1"
    using net_Listen [of new_run 0 ?s0] run_goes [of ?s0 0] by (simp add: program_start_def x_def new_run_def)
  from program_goes [OF program_starts this] have "Program_run E ?s0 ?s1" .
  moreover have "Program_step E Panics ?s1 ?s2"
    using accept_panic [of "x Accepting False" 0 ?s1] run_goes [of ?s1 0] by (simp add: program_start_def x_def new_run_def set_run_def)
  ultimately have "Program_run E ?s0 ?s2" by (rule program_goes)
  moreover have "Program_step E Internal ?s2 ?s3"
    using wg_Wait [of "x (Draining True) False" True 0 ?s2] run_goes [of ?s2 0]
    by (simp add: program_start_def x_def new_run_def set_run_def run_returns_def)
  ultimately have "Program_run E ?s0 ?s3" by (rule program_goes)
  moreover have "Program_step E Internal ?s3 (?s3\<lparr>pr_exited := True\<rparr>)"
    by (rule main_returns) (simp_all add: program_start_def x_def)
  ultimately have "Program_run E ?s0 (?s3\<lparr>pr_exited := True\<rparr>)" by (rule program_goes)
  then show ?thesis by (intro exI conjI) (assumption, simp_all add: program_start_def)
qed


section \<open>The handlers\<close>

text \<open>A connection that is alone takes the steps of \<^verbatim>\<open>handleConnection\<close>.\<close>

fun serve_all :: "nat \<Rightarrow> ('g, 'd, 'n) proxy_env \<Rightarrow> connection \<Rightarrow> ('g, 'd, 'n) world \<Rightarrow> ('g, 'd, 'n) world option" where
  "serve_all 0 E c W = None"
| "serve_all (Suc n) E c W =
     (case serve E c W of None \<Rightarrow> None | Some (Serving c', W') \<Rightarrow> serve_all n E c' W' | Some (_, W') \<Rightarrow> Some W')"

lemma serve_all_processMessages:
  "processMessages n E c W = Some (r, c', W') \<Longrightarrow> serve_all n E c W = Some (end_handler E c' W')"
proof (induction n arbitrary: c W)
  case (Suc n)
  then obtain x c1 W1 where h: "handleMessage E c W = Some (x, c1, W1)" by (cases "handleMessage E c W") auto
  with Suc show ?case by (cases x) (simp_all add: serve_def)
qed simp

lemma handler_is_handleConnection:
  assumes "handleConnection n E c W = Some (db, c', W')" and "begin_handler E c W = (c0, W0)"
  shows "serve_all n E c0 W0 = Some W'"
proof -
  obtain r c1 W1 where p: "processMessages n E c0 W0 = Some (r, c1, W1)" and "W' = end_handler E c1 W1"
    using assms by (auto simp: handleConnection_def begin_handler_def end_handler_def Let_def split: prod.splits option.splits)
  with serve_all_processMessages [OF p] show ?thesis by simp
qed

section \<open>The start\<close>

lemma start_database_pool: "w_pool (snd (start_database E c dc n db s)) = w_pool (snd s)"
  by (simp add: start_database_def Let_def split: prod.split sum.split)

lemma Proxies_start:
  assumes "Proxies E env pd pq names mongos opts routes0 d n c = Inr (p, W)"
  shows "w_pool W = pool_manager (GetMainConfig c)" and "\<not> p_quit p" and "\<not> p_kill p"
proof -
  have "w_pool (snd (fold (\<lambda>n s. case dbs n of Some db \<Rightarrow> start_database E c dc n db s | None \<Rightarrow> s) names s)) = w_pool (snd s)" for dbs dc s
    by (induction names arbitrary: s) (simp_all add: start_database_pool split: option.split)
  then show "w_pool W = pool_manager (GetMainConfig c)" "\<not> p_quit p" "\<not> p_kill p"
    using assms by (auto simp: Proxies_def NewProxy_def RegisterStartupMongoClients_def initial_world_def GetMainConfig_def Let_def split: sum.splits)
qed

lemma main_starts:
  assumes "main api ext E env pq names mongos opts routes0 d n configFile verbose help = Started s0" and "LoadConfig api ext configFile verbose = Inr c"
  obtains p W where "Proxies E env (ParseDuration api) pq names mongos opts routes0 d n c = Inr (p, W)" "s0 = program_start (p, W)"
  using assms by (auto simp: main_def split: if_splits option.splits sum.splits)

lemma no_restart:
  assumes "Program_step E Internal s s'" and "\<forall>x \<in> set (pr_runs s). rp_state x \<noteq> Draining True"
  shows "length (pr_runs s') = length (pr_runs s) \<and> (\<forall>x \<in> set (pr_runs s'). rp_state x \<noteq> Draining True)"
  using assms(1)
proof cases
  case (run_goes r)
  have "rp_state (pr_runs s ! r) \<noteq> Draining True" using run_goes(2) assms(2) by auto
  with run_goes(3) assms(2) show ?thesis by cases (auto simp: run_returns_def dest!: in_set_update)
next
  case (client_goes i)
  from client_goes(3) assms(2) show ?thesis by cases (auto dest!: in_set_update)
qed (use assms(2) in \<open>auto simp: run_shutdown_def split: prod.split\<close>)

lemma no_restarts:
  "Internal_run E n s s' \<Longrightarrow> \<forall>x \<in> set (pr_runs s). rp_state x \<noteq> Draining True \<Longrightarrow>
     length (pr_runs s') = length (pr_runs s) \<and> (\<forall>x \<in> set (pr_runs s'). rp_state x \<noteq> Draining True)"
  by (induction rule: Internal_run.induct) (auto dest: no_restart)

lemma Internal_run_clients: "Internal_run E n s s' \<Longrightarrow> length (pr_clients s') = length (pr_clients s)"
proof (induction rule: Internal_run.induct)
  case (internal_more n s s' s'')
  from internal_more.hyps(2) have "length (pr_clients s'') = length (pr_clients s')"
  proof cases
    case (run_goes r)
    from run_goes(3) show ?thesis by cases (simp_all add: run_returns_def Let_def)
  next
    case (client_goes i)
    from client_goes(3) show ?thesis by cases simp_all
  qed (simp_all add: run_shutdown_def split: prod.split)
  with internal_more.IH show ?case by simp
qed simp

text \<open>The table of the clients is finite.\<close>

lemma finite_AddRoute: "finite (dom (routes R)) \<Longrightarrow> finite (dom (routes (AddRoute name r R)))"
  by (simp add: AddRoute_def Let_def)

lemma finite_GetAllRoutes:
  assumes "finite (dom (routes R))"
  shows "finite (dom (GetAllRoutes R))"
proof -
  have "finite (dom (fold (\<lambda>pr m. m(route_key pr \<mapsto> PR_RouteConfig pr)) prs m))" if "finite (dom m)" for prs and m :: "string \<rightharpoonup> route_ref"
    using that by (induction prs arbitrary: m) simp_all
  then show ?thesis using assms by (simp add: GetAllRoutes_def Let_def split: option.split)
qed

lemma start_database_finite:
  "finite (dom (routes (w_router (snd s)))) \<Longrightarrow> finite (dom (routes (w_router (snd (start_database E c dc n db s)))))"
  by (auto simp: start_database_def finite_AddRoute Let_def split: prod.split sum.split)

lemma Proxies_finite:
  assumes "Proxies E env pd pq names mongos opts routes0 d n c = Inr (p, W)"
  shows "finite (dom (w_clients W))"
proof -
  have fin: "finite (dom (routes (w_router (snd (fold (\<lambda>n s. case dbs n of Some db \<Rightarrow> start_database E c dc n db s | None \<Rightarrow> s) names s)))))"
    if "finite (dom (routes (w_router (snd s))))" for dbs dc s
    using that by (induction names arbitrary: s) (simp_all add: start_database_finite split: option.split)
  obtain W1 where W: "W = RegisterStartupMongoClients W1" "w_clients W1 = Map.empty" "finite (dom (routes (w_router W1)))"
    using assms fin by (auto simp: Proxies_def NewProxy_def initial_world_def NewDatabaseRouter_def Let_def split: sum.splits)
  have "dom (w_clients W) \<subseteq> dom (GetAllRoutes (w_router W1))"
    using W(2) by (auto simp: W(1) RegisterStartupMongoClients_def split: option.splits)
  then show ?thesis using finite_GetAllRoutes [OF W(3)] by (rule finite_subset)
qed

section \<open>Examples\<close>

text \<open>A client connects, and two interrupts come.\<close>

lemma killed_program:
  assumes "finite (dom (w_clients W))" and "\<not> p_quit p"
  shows "\<exists>s g. Program_run E (program_start (p, W)) s \<and> pr_clients s = [g] \<and> h_open g \<and> p_kill (pr_proxy s) \<and> quitting s \<and>
     pr_signals s = [Interrupt, Interrupt] \<and> length (pr_runs s) = 1 \<and> rp_state (pr_runs s ! 0) = Accepting"
proof -
  obtain names where names: "set names = dom (w_clients W)" using finite_list [OF assms(1)] by blast
  define x where "x = new_run\<lparr>rp_state := Accepting\<rparr>"
  define s1 where "s1 = set_run 0 x (program_start (p, W))"
  define s2 where "s2 = accept_connection 0 x [] s1"
  define s3 where "s3 = on_signal E names Interrupt s2"
  define s4 where "s4 = on_signal E names Interrupt s3"
  have f1: "pr_runs s1 = [x]" "\<not> pr_exited s1" "pr_proxy s1 = p" "pr_world s1 = W" "pr_clients s1 = []" "pr_signals s1 = []" "\<not> shutdownAttempted s1"
    by (simp_all add: s1_def program_start_def)
  obtain y g where f2: "pr_runs s2 = [y]" "rp_state y = Accepting" "pr_clients s2 = [g]" "h_open g" "\<not> pr_exited s2" "pr_proxy s2 = p" "pr_world s2 = W"
      "pr_signals s2 = []" "\<not> shutdownAttempted s2"
    using f1 by (simp add: s2_def accept_connection_def x_def)
  have f3: "pr_runs s3 = [y]" "pr_clients s3 = [g]" "\<not> pr_exited s3" "pr_proxy s3 = p" "pr_world s3 = W" "pr_signals s3 = [Interrupt]" "shutdownAttempted s3"
    using f2 by (simp_all add: s3_def on_signal_def)
  obtain p' W' where k: "Kill E names (p, W) = (p', W')" by fastforce
  have p': "p_quit p'" "p_kill p'" using Kill_fields [OF k] by simp_all
  have f4: "pr_runs s4 = [y]" "pr_clients s4 = [g]" "pr_proxy s4 = p'" "pr_signals s4 = [Interrupt, Interrupt]"
    using f3 k by (simp_all add: s4_def on_signal_def)
  have "Run_step 0 new_run (program_start (p, W)) Internal s1" unfolding s1_def x_def by (rule net_Listen) (simp add: new_run_def)
  then have "Program_step E Internal (program_start (p, W)) s1" by (intro run_goes [where r = 0]) (simp_all add: program_start_def)
  note r1 = program_goes [OF program_starts this]
  have "Run_step 0 x s1 Network s2" unfolding s2_def by (rule accepted) (simp_all add: x_def new_run_def)
  then have "Program_step E Network s1 s2" using f1 by (intro run_goes [where r = 0]) simp_all
  note r2 = program_goes [OF r1 this]
  have "Program_step E (Signal Interrupt) s2 s3" unfolding s3_def using names f2 by (intro signalled) simp_all
  note r3 = program_goes [OF r2 this]
  have "Program_step E (Signal Interrupt) s3 s4" unfolding s4_def using names f3 by (intro signalled) simp_all
  note r4 = program_goes [OF r3 this]
  show ?thesis using r4 f4 f2 p' by (intro exI [of _ s4] exI [of _ g]) (simp add: quitting_def)
qed


end
