(* ===== verification/Reports.thy ===== *)
theory Reports
  imports Mongo Pool Metrics
begin

text \<open>
  What the pools and the MongoDB clients report of themselves: \<^verbatim>\<open>GetStats\<close> of a pool in
  \<^verbatim>\<open>src/pool/pool.go\<close>, and \<^verbatim>\<open>GetPoolStats\<close>, \<^verbatim>\<open>GetHealthStats\<close> and the gauges of
  \<^verbatim>\<open>src/mongo/mongo.go\<close>. A report is a record with the keys of the source's map. Shown here: the
  success rate of a pool is always 100 percent, as no failure is counted, and the number of
  sessions that is sent to the metrics every second is dropped there.
\<close>

section \<open>Pools\<close>

definition calculateSuccessRate :: "ConnectionPool \<Rightarrow> float64" where
  "calculateSuccessRate p =
     (if TotalRequests (p_stats p) = 0 then 100
      else of_int (SuccessfulRequests (p_stats p)) / of_int (TotalRequests (p_stats p)) * 100)"

definition calculateUtilization :: "ConnectionPool \<Rightarrow> float64" where
  "calculateUtilization p = 0"

record PoolReport =
  rp_name :: string
  rp_mode :: string
  total_requests :: int
  successful_requests :: int
  failed_requests :: int
  connection_errors :: int
  active_connections :: int
  success_rate :: float64
  utilization :: float64
  is_healthy :: bool
  last_health_check :: time
  avg_wait_time_ms :: int
  rp_in_use :: int
  max_size :: int
  total_connections :: int
  available :: int
  waiting_clients :: int

definition ConnectionPool_GetStats :: "ConnectionPool \<Rightarrow> PoolReport" where
  "ConnectionPool_GetStats p =
     (let s = p_stats p;
          inUse = ActiveConnections s;
          maxSize = 10;
          free = (if maxSize - inUse < 0 then 0 else maxSize - inUse)
      in \<lparr>rp_name = p_name p, rp_mode = p_mode p, total_requests = TotalRequests s, successful_requests = SuccessfulRequests s,
          failed_requests = FailedRequests s, connection_errors = ConnectionErrors s, active_connections = ActiveConnections s,
          success_rate = calculateSuccessRate p, utilization = calculateUtilization p, is_healthy = p_isHealthy p,
          last_health_check = p_lastHealthCheck p, avg_wait_time_ms = go_div (avgWaitTime s) 1000000, rp_in_use = inUse,
          max_size = maxSize, total_connections = ActiveConnections s, available = free, waiting_clients = 0\<rparr>)"

text \<open>\<open>metrics\<close> says whether there is a metrics client; the calls are those of the Prometheus client.\<close>

definition updatePoolUtilizationMetrics :: "bool \<Rightarrow> ConnectionPool \<Rightarrow> prom_call list" where
  "updatePoolUtilizationMetrics metrics p =
     (if \<not> metrics then []
      else MetricsClient_Gauge ''pool_active_connections'' (of_int (ActiveConnections (p_stats p))) [''database:'' @ p_name p] 1)"

section \<open>MongoDB clients\<close>

definition utilization_ratio :: "mongo_PoolStats \<Rightarrow> float64" where
  "utilization_ratio s = (if ps_maxPoolSize s > 0 then of_int (activeConnections s) / of_int (ps_maxPoolSize s) else 0)"

definition pool_gauges :: "string \<Rightarrow> mongo_PoolStats \<Rightarrow> prom_call list" where
  "pool_gauges databaseName s =
     (let tags = [''database:'' @ databaseName]
      in MetricsClient_Gauge ''pool_active_connections'' (of_int (activeConnections s)) tags 1 @
         MetricsClient_Gauge ''pool_total_connections'' (of_int (totalConnections s)) tags 1 @
         MetricsClient_Gauge ''pool_max_connections'' (of_int (ps_maxPoolSize s)) tags 1 @
         MetricsClient_Gauge ''pool_utilization_ratio'' (utilization_ratio s) tags 1 @
         MetricsClient_Gauge ''pool_checkout_total'' (of_int (checkoutCount s)) tags 1 @
         MetricsClient_Gauge ''pool_checkin_total'' (of_int (checkinCount s)) tags 1 @
         MetricsClient_Gauge ''pool_checkout_failures_total'' (of_int (checkoutFailures s)) tags 1)"

text \<open>What the pool monitor reports after an event.\<close>

definition poolMonitor_metrics :: "bool \<Rightarrow> string \<Rightarrow> mongo_PoolStats \<Rightarrow> prom_call list" where
  "poolMonitor_metrics metrics databaseName s =
     (if metrics \<and> databaseName \<noteq> ''dynamic'' then pool_gauges databaseName s else [])"

definition UpdatePoolMetricsForDatabase :: "bool \<Rightarrow> string \<Rightarrow> Mongo \<Rightarrow> prom_call list" where
  "UpdatePoolMetricsForDatabase metrics databaseName m = (if \<not> metrics then [] else pool_gauges databaseName (mg_poolStats m))"

record MongoPoolReport =
  mp_active_connections :: int
  mp_total_connections :: int
  mp_max_pool_size :: int
  mp_utilization_ratio :: float64
  mp_checkout_count :: int
  mp_checkin_count :: int
  mp_checkout_failures :: int
  mp_last_updated :: time

definition GetPoolStats :: "Mongo \<Rightarrow> MongoPoolReport" where
  "GetPoolStats m =
     (let s = mg_poolStats m
      in \<lparr>mp_active_connections = activeConnections s, mp_total_connections = totalConnections s, mp_max_pool_size = ps_maxPoolSize s,
          mp_utilization_ratio = utilization_ratio s, mp_checkout_count = checkoutCount s, mp_checkin_count = checkinCount s,
          mp_checkout_failures = checkoutFailures s, mp_last_updated = lastUpdated s\<rparr>)"

text \<open>An empty map when there are no health statistics.\<close>

definition GetHealthStats :: "Mongo \<Rightarrow> HealthStats option" where
  "GetHealthStats m = mg_healthStats m"

definition cacheGauge :: "bool \<Rightarrow> string \<Rightarrow> float64 \<Rightarrow> Mongo \<Rightarrow> prom_call list" where
  "cacheGauge metrics name n m = (if metrics then MetricsClient_Gauge name n [''database:'' @ mg_databaseName m] 1 else [])"

text \<open>The tick of \<^verbatim>\<open>cacheMonitor\<close> every second.\<close>

definition cacheMonitor_gauges :: "bool \<Rightarrow> SessionManager \<Rightarrow> Mongo \<Rightarrow> prom_call list" where
  "cacheMonitor_gauges metrics sm m =
     cacheGauge metrics ''cursors'' (of_nat (cursorCache_count (mg_cursors m))) m @
     cacheGauge metrics ''transactions'' (of_nat (transactionCache_count (mg_transactions m))) m @
     cacheGauge metrics ''sessions'' (of_nat (GetSessionCount sm)) m"

section \<open>What is reported\<close>

text \<open>The metrics client has no gauge \<open>sessions\<close>: the number of sessions is not reported.\<close>

lemma cacheMonitor_drops_sessions: "cacheMonitor_gauges metrics sm m = cacheMonitor_gauges metrics sm' m"
  by (simp add: cacheMonitor_gauges_def cacheGauge_def MetricsClient_Gauge_def Let_def)

definition no_failures :: "Manager \<Rightarrow> bool" where
  "no_failures m \<longleftrightarrow> (\<forall>p. let s = p_stats (pool_heap m p)
     in SuccessfulRequests s = TotalRequests s \<and> FailedRequests s = 0 \<and> ConnectionErrors s = 0)"

lemma no_failures_frame [simp]:
  "no_failures (set_client cid cl m) = no_failures m" "no_failures (m\<lparr>conn_heap := h\<rparr>) = no_failures m"
  "no_failures (m\<lparr>activeClients := cs\<rparr>) = no_failures m"
  by (simp_all add: no_failures_def set_client_def)

lemma no_failures_pool:
  assumes "no_failures m"
  shows "no_failures (Return now p c m)" and "no_failures (ReturnOwn now c m)" and "no_failures (return_held now x m)"
    and "no_failures (snd (Checkout now p cid m))" and "no_failures (snd (GetPool now db mc mode m))"
proof -
  show ret: "no_failures (Return now p c m)" for p c
    using assms by (auto simp: no_failures_def Return_def update_stats_def decrementActiveConnections_def Let_def)
  then show "no_failures (ReturnOwn now c m)" "no_failures (return_held now x m)"
    using assms by (simp_all add: ReturnOwn_def return_held_def split: option.split)
  show "no_failures (snd (Checkout now p cid m))" "no_failures (snd (GetPool now db mc mode m))"
    using assms by (auto simp: no_failures_def Checkout_def GetPool_def update_stats_def incrementRequests_def incrementSuccessfulRequests_def
        incrementActiveConnections_def zero_stats_def Let_def split: option.split)
qed

lemma no_failures_GetConnection:
  assumes "GetConnection now cid db mc isTxn txn m = (r, m')" and "no_failures m"
  shows "no_failures m'"
proof -
  have steps: "Checkout now p cid m = (x, m') \<Longrightarrow> no_failures m \<Longrightarrow> no_failures m'"
    "GetPool now db mc mode m = (q, m') \<Longrightarrow> no_failures m \<Longrightarrow> no_failures m'" for p mode m m' x q
    using no_failures_pool(4,5) by (metis snd_conv)+
  have client: "no_failures m \<Longrightarrow> no_failures (set_client cid cl m)" for m cl by simp
  show ?thesis
    using assms by (auto simp: GetConnection_def Let_def map_prod_def split: option.splits prod.splits if_splits)
      (blast intro: steps client no_failures_pool(1))+
qed

lemma no_failures_step: "Pool_step modes s s' \<Longrightarrow> no_failures (fst s) \<Longrightarrow> no_failures (fst s')"
  by (induction rule: Pool_step.induct)
    (auto simp: RegisterClient_def UnregisterClient_def ReturnConnection_def no_failures_pool Let_def dest: no_failures_GetConnection split: option.splits)

text \<open>
  A pool counts no failures: in every state that the pool manager reaches, the success rate a pool reports is 100 percent,
  with no failed requests and no connection errors, whatever happened to the requests.
\<close>

theorem success_rate_is_constant:
  assumes "Pool_run modes (Pool_start mode minSize maxSize maxClients) (m, fl)"
  shows "let r = ConnectionPool_GetStats (pool_heap m p) in success_rate r = 100 \<and> failed_requests r = 0 \<and> connection_errors r = 0"
proof -
  have "Pool_run modes s s' \<Longrightarrow> no_failures (fst s) \<Longrightarrow> no_failures (fst s')" for s s'
    by (induction rule: Pool_run.induct) (simp_all add: no_failures_step)
  from this [OF assms] have "no_failures m" by (simp add: Pool_start_def NewManager_def no_failures_def zero_stats_def)
  then show ?thesis by (simp add: no_failures_def ConnectionPool_GetStats_def calculateSuccessRate_def Let_def)
qed

theorem success_rate_is_constant_witness:
  "TotalRequests (p_stats (pool_heap example_m2 0)) = 1 \<and> success_rate (ConnectionPool_GetStats (pool_heap example_m2 0)) = 100"
proof -
  have "TotalRequests (p_stats (pool_heap example_m2 0)) = 1"
    by (simp add: example_defs zero_stats_def incrementRequests_def incrementSuccessfulRequests_def incrementActiveConnections_def)
  with success_rate_is_constant [OF example_run, of 0] show ?thesis by (simp add: Let_def)
qed

end
