(* ===== verification/Spec2Isabelle.thy ===== *)
theory Spec2Isabelle
  imports Topology Passthrough Program Reports
begin

text \<open>
  MongoBouncer verified: a proxy that pools connections to MongoDB. This is a development of its Go sources under
  \<^verbatim>\<open>src/\<close>, one theory per component.

  \<^bold>\<open>The program.\<close> \<^verbatim>\<open>mongobouncer.go\<close> loads a configuration and makes a proxy of it. The proxy accepts
  client connections; each is read message by message. A message is decoded to an operation; the proxy answers the
  handshake commands itself, after authentication by the application name. Any other operation is routed by its
  database to a MongoDB client, that of the route or one made with the user's credentials, and goes through the
  connection pool of the database. The client finds the server of the cursor, the transaction or the session the
  operation belongs to, sends it there, and keeps these tables. They are shared with other instances of the program
  through a distributed cache, and requests may be forwarded to them.

  \<^bold>\<open>The theories.\<close> Names are those of the sources; a method \<open>m\<close> of a type \<open>T\<close> whose name is taken becomes \<open>T_m\<close>.
  \<^item> \<open>Prelude\<close>: Go's strings, numbers and encodings, and the lemmas about them.
  \<^item> \<open>Lruttl\<close> (\<^verbatim>\<open>lruttl/lruttl.go\<close>): the cache with expiry. Its invariant; it refines an abstract map in the order of
    use, of bounded size, through a locale; its records stand in the order of the clock readings of their last use, and
    as long as the clock does not go back an expiry round removes exactly the old ones.
  \<^item> \<open>Parsing\<close> (\<^verbatim>\<open>util/parsing.go\<close>, \<^verbatim>\<open>util/helpers.go\<close>, the string functions of \<^verbatim>\<open>proxy/connection.go\<close>): which application
    names carry credentials, and round trips.
  \<^item> \<open>Router\<close> (\<^verbatim>\<open>proxy/router.go\<close>): exact routes, patterns and the cache before them. A lookup returns what the
    log of added and removed routes specifies, whatever the cache went through.
  \<^item> \<open>Wire\<close>, \<open>Operations\<close> (\<^verbatim>\<open>mongo/command.go\<close>, \<^verbatim>\<open>mongo/operations.go\<close>): the wire protocol. Decoding returns, and inverts encoding.
  \<^item> \<open>Handshake\<close> (\<^verbatim>\<open>mongo/ismaster.go\<close>): the proxy's own answers, and that they decode.
  \<^item> \<open>DistCache\<close>, \<open>Sessions\<close>, \<open>Caches\<close> (\<^verbatim>\<open>mongo/distributed_cache.go\<close>, \<^verbatim>\<open>session_manager.go\<close>, \<^verbatim>\<open>cursor_cache.go\<close>,
    \<^verbatim>\<open>transaction_cache.go\<close>): sessions, their transactions as a state machine, and the servers of cursors and
    transactions, with what the shared cache adds: adopted copies of sessions, and cursors and transactions found without a server.
  \<^item> \<open>Mongo\<close> (\<^verbatim>\<open>mongo/mongo.go\<close>): the round trip of an operation, with its retries, pinned connections and clean-up.
  \<^item> \<open>Topology\<close> (\<^verbatim>\<open>mongo/topology_monitor.go\<close>): what the comparison of two descriptions sees, for any printing of addresses.
  \<^item> \<open>Forwarder\<close> (\<^verbatim>\<open>mongo/request_forwarder.go\<close>): requests are written to the stored address of their session and nowhere else.
  \<^item> \<open>Pool\<close> (\<^verbatim>\<open>pool/pool.go\<close>): the pool manager under any interleaving of requests. It refines a contract of holding and
    giving back connections; the accounts are exact; connections leak in the transaction mode only.
  \<^item> \<open>Config\<close> (\<^verbatim>\<open>config/config.go\<close>, \<^verbatim>\<open>util/mongodb_client.go\<close>): the configuration and the settings of a client.
  \<^item> \<open>Connection\<close> (\<^verbatim>\<open>proxy/connection.go\<close>): a client connection. \<open>Serving\<close> has the properties of single messages,
    \<open>Lifecycle\<close> those of a whole connection, \<open>Passthrough\<close> those of all connections together.
  \<^item> \<open>Metrics\<close> (\<^verbatim>\<open>util/metrics.go\<close>, \<^verbatim>\<open>util/batched_metrics.go\<close>) and \<open>Reports\<close> (the reports of pools and clients).
  \<^item> \<open>Proxy\<close> (\<^verbatim>\<open>proxy/proxy.go\<close>, \<^verbatim>\<open>config/proxies.go\<close>): accepting, shutting down, and putting all of it together.
  \<^item> \<open>Program\<close> (\<^verbatim>\<open>mongobouncer.go\<close> and the goroutines of \<^verbatim>\<open>proxy/proxy.go\<close>): the running program as a state machine, from the
    flags to the return of \<^verbatim>\<open>main\<close>, with its listener, its connections, its wait groups and its signals. It ends when it is told to.

  This theory states what spans them: for a proxy that was started from a configuration, and for every
  interleaving of the messages of its connections, the pool manager is used by its contract, and
  no user gets a client with another's credentials; and a program that has ended has finished its
  connections and left nothing in its pools.

  \<^bold>\<open>State and effects.\<close> A struct is a record; pointers that are shared are addresses into a heap of the record that
  owns them: sessions, pools, pooled connections, routes and clients. The \<open>world\<close> of \<open>Connection\<close> is everything
  the connections share. Go errors are values, a panic is a value of its own (\<open>go_panic\<close>, \<open>Panic\<close>); \<open>None\<close> as the result of
  decoding, of a round trip or of a connection means that it does not return. An operation reads the clock once; the clock
  is the wall clock, and no order of its readings is assumed but where a statement says so. The order in which
  a Go map is iterated is an argument.

  \<^bold>\<open>Outside code\<close> is a parameter: the MongoDB driver (\<open>driver_api\<close>), the reading and writing of BSON and of
  wire messages (\<open>wire\<close>, with \<open>wire_laws\<close>, and \<open>std_wire\<close> as the instance that follows their documentation), \<^verbatim>\<open>groupcache\<close> (\<open>group_api\<close> with
  \<open>group_laws\<close>), the network (\<open>net_api\<close>, for the forwarder with the views and the laws of \<open>net_laws\<close>), the driver's printing of kinds and addresses (\<open>printers\<close>), the file system, TOML and the logger (\<open>load_api\<close>), \<^verbatim>\<open>url.Parse\<close> and \<^verbatim>\<open>regexp\<close>
  beyond the plain forms in use, and Kubernetes quantities. Prometheus is the list of calls made of it.

  \<^bold>\<open>Interleaving.\<close> Operations that a mutex makes atomic are steps: \<open>Router_run\<close>, \<open>Pool_run\<close>, the runs of the caches and of the session
  manager, and \<open>Gauge_step\<close> interleave them freely. \<open>Proxy_run\<close> interleaves whole messages of connections,
  and \<open>Program_run\<close> these with the steps of the other goroutines, of the clients and of the user; its \<open>Internal\<close> steps are
  those that the program takes by itself.

  \<^bold>\<open>Fuel.\<close> \<open>processMessages\<close> takes a bound on the number of messages; every message has at least four bytes, and
  \<open>handleConnection_returns\<close> shows that a bound above a quarter of the input is enough. The retry loops of
  \<open>RoundTrip\<close> and the loops of the decoder are bounded by the sources or by what they consume, and are
  shown to return.

  \<^bold>\<open>Not modelled\<close>: the log; the metrics that \<^verbatim>\<open>proxy/connection.go\<close> and \<^verbatim>\<open>mongo/mongo.go\<close> send on the way, apart from the gauges of
  \<open>Reports\<close> and the count of sessions; the HTTP server of the metrics; the parsing of
  the flags and the text of the usage; the mask and the removal of a unix socket; rounding of floating-point numbers; case
  mapping outside ASCII; interleavings inside one message's handling. The programs under
  \<^verbatim>\<open>src/test\<close>, the deployment files and the documentation are not part of the proxy.
\<close>

section \<open>The pool manager of a started proxy\<close>

lemma proxy_run_pool_use:
  assumes "Proxy_run E W0 s" and "pool_clients (w_pool W0)"
  shows "pool_use {defaultMode (w_pool W0)} Map.empty (w_pool W0) (w_pool (snd s))"
  using assms(1)
proof induction
  case starts
  then show ?case using assms(2) by (simp add: pool_use_idle pool_ok_def)
next
  case (goes s s')
  let ?modes = "{defaultMode (w_pool W0)}"
  have ok: "pool_ok ?modes (w_pool (snd s))" using goes.IH by (simp add: pool_use_def)
  from goes.hyps(2) have "pool_use ?modes Map.empty (w_pool (snd s)) (w_pool (snd s'))"
  proof cases
    case (opens cs i c' W c)
    then show ?thesis using pool_use_register [of ?modes "w_pool W"] ok by (simp add: GetDefaultMode_def pool_ok_def)
  next
    case (message cs i c W x c' W')
    then show ?thesis using handleMessage_use [of E c W x c' W' ?modes Map.empty] ok by simp
  next
    case (closes cs i c W)
    then show ?thesis using pool_use_unregister [of ?modes "w_pool W" Map.empty] ok by simp
  qed
  with goes.IH show ?case by (rule pool_use_trans)
qed

lemma pool_manager_start: "\<exists>minSize maxSize. pool_manager mb = NewManager (mb_PoolMode mb) minSize maxSize (mb_MaxClientConn mb)"
  by (auto simp: pool_manager_def Let_def)

lemma GetConnection_limit:
  assumes "GetConnection now cid db mc isTxn txn m = (r, m')"
  shows "maxClientConn m' = maxClientConn m"
proof -
  have "maxClientConn (snd (Checkout now p cid m)) = maxClientConn m" "maxClientConn (snd (GetPool now db mc mode m)) = maxClientConn m" for p mode m
    by (simp_all add: Checkout_def GetPool_def Let_def split: option.split)
  then have steps: "Checkout now p cid m = (x, m') \<Longrightarrow> maxClientConn m' = maxClientConn m"
    "GetPool now db mc mode m = (q, m') \<Longrightarrow> maxClientConn m' = maxClientConn m" for p mode m m' x q
    by (metis snd_conv)+
  show ?thesis
    using assms by (auto simp: GetConnection_def Let_def map_prod_def dest!: steps split: option.splits prod.splits if_splits)
qed

lemma Pool_step_limit: "Pool_step modes s s' \<Longrightarrow> maxClientConn (fst s') = maxClientConn (fst s)"
  by (induction rule: Pool_step.induct)
    (auto simp: RegisterClient_def UnregisterClient_def GetPool_def ReturnConnection_def Let_def dest: GetConnection_limit split: option.splits)

lemma Pool_run_limit: "Pool_run modes s s' \<Longrightarrow> maxClientConn (fst s') = maxClientConn (fst s)"
  by (induction rule: Pool_run.induct) (simp_all add: Pool_step_limit)

text \<open>
  C1. The pool manager of a proxy that was started from a configuration, in every interleaving of
  the connections' messages: the execution of the proxy is an execution of the manager in the configured
  pool mode, without a request in flight between messages. So no two clients hold the same
  connection, at most the configured number of clients is registered, and except in the
  transaction mode every connection that is checked out is held by a client.
\<close>

theorem started_proxy_refines_pool:
  assumes "Proxies E env pd pq names mongos opts routes0 d n c = Inr (p, W0)" and "GetDatabases pd c = Inr dbs"
    and "set names = dom dbs" and "distinct names" and "\<And>r. CredentialClients (routes0 r) = None"
    and "Proxy_run E W0 (cs, W)" and "GetMainConfig c = mb" and "w_pool W = m"
  shows "Pool_run {defaultMode (pool_manager mb)} (pool_manager mb, Map.empty) (m, Map.empty) \<and>
    (\<forall>x cid cid'. x \<in> holds (m, Map.empty) cid \<longrightarrow> x \<in> holds (m, Map.empty) cid' \<longrightarrow> cid = cid') \<and>
    (mb_MaxClientConn mb > 0 \<longrightarrow> int (card (dom (activeClients m))) \<le> mb_MaxClientConn mb) \<and>
    (mb_PoolMode mb \<noteq> ''transaction'' \<longrightarrow>
       (\<forall>x < next_conn m. InUse (conn_heap m x) \<longrightarrow> (\<exists>cid. x \<in> holds (m, Map.empty) cid)))"
proof -
  have W0: "w_pool W0 = pool_manager mb" using Proxies_world(2) [OF assms(1-5)] assms(7) by (simp add: GetMainConfig_def)
  obtain lo hi where start: "pool_manager mb = NewManager (mb_PoolMode mb) lo hi (mb_MaxClientConn mb)"
    using pool_manager_start by blast
  have "pool_clients (w_pool W0)" by (simp add: W0 start pool_clients_def NewManager_def)
  from proxy_run_pool_use [OF assms(6) this] have
    run: "Pool_run {defaultMode (pool_manager mb)} (pool_manager mb, Map.empty) (m, Map.empty)"
    using W0 assms(8) by (simp add: pool_use_def)
  have run': "Pool_run {defaultMode (pool_manager mb)} (Pool_start (mb_PoolMode mb) lo hi (mb_MaxClientConn mb)) (m, Map.empty)"
    using run by (simp add: start Pool_start_def)
  have limit: "maxClientConn m = mb_MaxClientConn mb"
    using Pool_run_limit [OF run] by (simp add: start NewManager_def)
  have "mb_PoolMode mb \<noteq> ''transaction'' \<Longrightarrow> TransactionMode \<notin> {defaultMode (pool_manager mb)}"
    by (simp add: start NewManager_def)
  with run Pool_run_invariant [OF run'] Pool_run_held [OF run'] limit show ?thesis by auto
qed

section \<open>The credentials of a started proxy\<close>

text \<open>
  C3. Users do not get each other's clients: in every interleaving of the messages of the connections of
  a proxy that was started from a configuration, when a connection's operation is routed with the
  credentials of the client, the MongoDB client it gets was made with a connection string that
  begins with this user and password.
\<close>

theorem started_proxy_uses_own_credentials:
  assumes "Proxies E env pd pq names mongos opts routes0 d n cfg = Inr (p, W0)" and "GetDatabases pd cfg = Inr dbs"
    and "set names = dom dbs" and "distinct names" and "\<And>r. CredentialClients (routes0 r) = None"
    and "Proxy_run E W0 (cs, W)" and "cs i = Some c" and "route_operation E db c W = (Ok (r, a), c', W')"
    and "isUsingCredentialPassthrough c'"
  shows "HasPrefix (mg_uri (w_mongos W' a)) (''mongodb://'' @ clientUsername c @ '':'' @ clientPassword c @ ''@'')"
  using run_uses_own_credentials [OF assms(6) Proxies_world(3) [OF assms(1-5)] assms(7-9)] .

section \<open>From the command line to the end\<close>

text \<open>
  C2. The end of the program, from the command line on: when \<^verbatim>\<open>main\<close> has returned in a program that was started with a
  configuration, in whatever order its goroutines ran, and whatever its clients and its user did, and
  the listener did not crash, then every connection has been handled to its end, no client
  is registered with the pool manager, and, except in the transaction mode, no pooled connection is in use;
  and either the address could not be listened on or a signal has come.
\<close>

theorem program_ends_clean:
  assumes "main api ext E env pq names mongos opts routes0 d n configFile verbose help = Started s0"
    and "LoadConfig api ext configFile verbose = Inr c" and "Program_run E s0 s" and "pr_exited s" and "length (pr_runs s) = 1"
    and "w_pool (pr_world s) = m"
  shows "(\<forall>g \<in> set (pr_clients s). h_state g = Reporting \<or> h_state g = Ended) \<and> activeClients m = Map.empty \<and>
    (mb_PoolMode (GetMainConfig c) \<noteq> ''transaction'' \<longrightarrow> (\<forall>x < next_conn m. \<not> InUse (conn_heap m x))) \<and>
    ((\<exists>err. rp_state (pr_runs s ! 0) = Returned (Some err)) \<or> pr_signals s \<noteq> [])"
proof -
  let ?mb = "GetMainConfig c"
  obtain p W where start: "Proxies E env (ParseDuration api) pq names mongos opts routes0 d n c = Inr (p, W)" "s0 = program_start (p, W)"
    using main_starts [OF assms(1,2)] .
  note W = Proxies_start [OF start(1)]
  obtain lo hi where pm: "pool_manager ?mb = NewManager (mb_PoolMode ?mb) lo hi (mb_MaxClientConn ?mb)" using pool_manager_start by blast
  have "pool_clients (w_pool W)" "clients_of (w_pool W) = {}" by (simp_all add: W(1) pm pool_clients_def clients_of_def NewManager_def)
  note fin = program_end [OF assms(3) [unfolded start(2)] W(2,3) this assms(4,5)]
  have run: "Pool_run {defaultMode (pool_manager ?mb)} (Pool_start (mb_PoolMode ?mb) lo hi (mb_MaxClientConn ?mb)) (m, Map.empty)"
    using fin(3) assms(6) by (simp add: W(1) pm Pool_start_def)
  have unused: "\<not> InUse (conn_heap m x)" if x: "mb_PoolMode ?mb \<noteq> ''transaction''" "x < next_conn m" for x
  proof
    assume "InUse (conn_heap m x)"
    moreover have "TransactionMode \<notin> {defaultMode (pool_manager ?mb)}" using x(1) by (simp add: pm NewManager_def)
    ultimately obtain cid where "x \<in> holds (m, Map.empty) cid" using Pool_run_held [OF run] x(2) by blast
    then show False using fin(2) assms(6) by (simp add: holds_def)
  qed
  have "h_state g = Reporting \<or> h_state g = Ended" if "g \<in> set (pr_clients s)" for g
    using fin(1) that by (cases "h_state g") (auto simp: waiting_for_done_def)
  with unused fin(2,4) assms(6) show ?thesis by auto
qed

section \<open>An example\<close>

text \<open>A proxy with one wildcard route, and a client that says hello as user \<open>u\<close>.\<close>

definition star_config :: Config where
  "star_config = example_config\<lparr>tomlConfig := default_config\<lparr>Databases := [(''*'', TTable [(''connection_string'', TString ''mongodb://h:1/x'')])]\<rparr>\<rparr>"

definition star_start :: "database_failure + Proxy \<times> (string \<rightharpoonup> json \<times> time, unit, unit) world" where
  "star_start = Proxies (example_env hello_wire) example_cache_env (\<lambda>_. None) (\<lambda>_. None) [''*''] (w_mongos example_world)
     (w_options example_world) (\<lambda>_. example_route) () () star_config"

lemma Proxies_settings:
  assumes "Proxies E env pd pq names mongos opts routes0 d n c = Inr (p, W)"
  shows "p_authEnabled p = mb_AuthEnabled (GetMainConfig c)" "p_regexCredentialPassthrough p = mb_RegexCredentialPassthrough (GetMainConfig c)"
  using assms by (auto simp: Proxies_def NewProxy_def GetMainConfig_def Let_def split: sum.splits)

lemma star_lower: "ToLower ''*'' = ''*''"
  by code_simp

lemma star_databases: "GetDatabases (\<lambda>_. None) star_config = Inr [''*'' \<mapsto> zero_database\<lparr>db_ConnectionString := ''mongodb://h:1/x''\<rparr>]"
  by (simp add: GetDatabases_def star_config_def example_config_def parse_database_def string_at_def int64_at_def bool_at_def set_if_def
      parse_topology_def parse_client_config_def duration_at_def zero_database_def zero_client_config_def NormalizeDatabaseName_def star_lower Let_def)

lemma star_started: "\<exists>p W. star_start = Inr (p, W) \<and> wildcard_routed W"
proof -
  let ?db = "zero_database\<lparr>db_ConnectionString := ''mongodb://h:1/x''\<rparr>" and ?dc = "shared_cache example_cache_env (\<lambda>_. None) (\<lambda>_. None) star_config"
  let ?W0 = "initial_world (w_mongos example_world) (w_options example_world) (\<lambda>_. example_route) () () star_config ?dc
    :: (string \<rightharpoonup> json \<times> time, unit, unit) world"
  obtain r W1 where s: "start_database (example_env hello_wire) star_config ?dc ''*'' ?db (0, ?W0) = (r, W1)" by fastforce
  have W1: "w_routes W1 0 = wildcard_route" "w_router W1 = AddRoute ''*'' 0 NewDatabaseRouter"
    using s by (auto simp: start_database_def initial_world_def database_connection_def zero_database_def wildcard_route_def example_route_def
        ConnectWithDistributedCache_def example_env_def example_driver_def Let_def)
  define W where "W = RegisterStartupMongoClients (W1\<lparr>w_clients := Map.empty, w_forwarder := request_forwarder ?dc\<rparr>)"
  obtain p where p: "star_start = Inr (p, W)"
    using s by (simp add: star_start_def Proxies_def star_databases NewProxy_def W_def Let_def)
  have "w_routes W 0 = wildcard_route" "w_router W = AddRoute ''*'' 0 NewDatabaseRouter"
    using W1 by (simp_all add: W_def RegisterStartupMongoClients_def)
  then have "wildcard_routed W" by (simp add: wildcard_routed_def coherent_AddRoute)
      (simp add: GetRoute_uncached_def AddRoute_def NewDatabaseRouter_def NormalizeDatabaseName_def star_lower Let_def)
  with p show ?thesis by blast
qed

lemma star_run:
  "\<exists>p W0 c W. star_start = Inr (p, W0) \<and> Proxy_run (example_env hello_wire) W0 ([0 \<mapsto> c], W) \<and> wildcard_routed W \<and>
     clientUsername c = ''u'' \<and> clientPassword c = ''p'' \<and> clientAuthSource c = ''admin'' \<and> regexCredentialPassthrough c"
proof -
  let ?E = "example_env hello_wire"
  obtain p W0 where s: "star_start = Inr (p, W0)" "wildcard_routed W0" using star_started by blast
  have p: "p_authEnabled p" "p_regexCredentialPassthrough p"
    using Proxies_settings [OF s(1) [unfolded star_start_def]] by (simp_all add: star_config_def default_config_def GetMainConfig_def)
  define c0 where "c0 = new_connection ?E W0 (accepted_connection p hello_bytes EOF [])"
  define W1 where "W1 = W0\<lparr>w_pool := snd (RegisterClient (w_now ?E W0) (clientID c0) ''default'' ''default'' (GetDefaultMode (w_pool W0)) (w_pool W0))\<rparr>"
  have o: "Proxy_step ?E (Map.empty, W0) ([0 \<mapsto> c0], W1)" unfolding W1_def by (rule opens) (simp_all add: c0_def)
  have W1: "wildcard_routed W1" using s(2) by (simp add: W1_def wildcard_routed_def)
  obtain c1 where r: "readWireMessage c0 = (Ok hello_bytes, c1)" "authEnabled c1" "clientUsername c1 = []" "regexCredentialPassthrough c1"
    using p by (simp add: c0_def new_connection_def accepted_connection_def readWireMessage_def io_ReadFull_def hello_bytes_def wire_size_def)
  from hello_handled [OF W1 r] obtain x c W where h: "handleMessage ?E c0 W1 = Some (x, c, W)" "wildcard_routed W"
    and u: "clientUsername c = ''u''" "clientPassword c = ''p''" "clientAuthSource c = ''admin''" "regexCredentialPassthrough c" by blast
  have "Proxy_step ?E ([0 \<mapsto> c0], W1) ([0 \<mapsto> c0, 0 \<mapsto> c], W)" by (rule message [OF _ h(1)]) simp
  then have "Proxy_run ?E W0 ([0 \<mapsto> c], W)" using goes [OF goes [OF starts o]] by simp
  with s(1) h(2) u show ?thesis by blast
qed

lemma star_facts: "set [''*''] = dom [''*'' \<mapsto> db]" "distinct [''*'']" "CredentialClients example_route = None"
  by (auto simp: example_route_def)

theorem started_proxy_uses_own_credentials_witness:
  "\<exists>p W0 c W a c' W'. star_start = Inr (p, W0) \<and> Proxy_run (example_env hello_wire) W0 ([0 \<mapsto> c], W) \<and> clientUsername c = ''u'' \<and>
     route_operation (example_env hello_wire) ''app'' c W = (Ok (0, a), c', W') \<and> isUsingCredentialPassthrough c' \<and>
     HasPrefix (mg_uri (w_mongos W' a)) ''mongodb://u:p@''"
proof -
  obtain p W0 c W where s: "star_start = Inr (p, W0)" and run: "Proxy_run (example_env hello_wire) W0 ([0 \<mapsto> c], W)" and W: "wildcard_routed W"
    and u: "clientUsername c = ''u''" "clientPassword c = ''p''" "clientAuthSource c = ''admin''" "regexCredentialPassthrough c"
    using star_run by blast
  from wildcard_passthrough [OF W u] obtain a c' W' where
    t: "route_operation (example_env hello_wire) ''app'' c W = (Ok (0, a), c', W')" "isUsingCredentialPassthrough c'" by blast
  have "HasPrefix (mg_uri (w_mongos W' a)) (''mongodb://'' @ clientUsername c @ '':'' @ clientPassword c @ ''@'')"
    using started_proxy_uses_own_credentials [OF s [unfolded star_start_def] star_databases star_facts run _ t, of 0] by simp
  with s run t u show ?thesis by fastforce
qed

theorem started_proxy_refines_pool_witness:
  "\<exists>p W0 cs W. star_start = Inr (p, W0) \<and> Proxy_run (example_env hello_wire) W0 (cs, W) \<and> cs 0 \<noteq> None \<and>
     int (card (dom (activeClients (w_pool W)))) \<le> 100"
proof -
  obtain p W0 c W where s: "star_start = Inr (p, W0)" and run: "Proxy_run (example_env hello_wire) W0 ([0 \<mapsto> c], W)"
    using star_run by blast
  have "mb_MaxClientConn (GetMainConfig star_config) = 100" by (simp add: GetMainConfig_def star_config_def default_config_def)
  with started_proxy_refines_pool [OF s [unfolded star_start_def] star_databases star_facts run refl refl]
  have "int (card (dom (activeClients (w_pool W)))) \<le> 100" by simp
  with s run show ?thesis by fastforce
qed

text \<open>A program with one database.\<close>

definition app_file :: toml_table where
  "app_file = [(''databases'', TTable [(''app'', TTable [(''connection_string'', TString ''mongodb://h:1/app'')])])]"

definition app_api :: load_api where
  "app_api = example_api\<lparr>DecodeFile := \<lambda>_. Inr app_file\<rparr>"

definition app_main :: "(string \<rightharpoonup> json \<times> time, unit, unit) main_result" where
  "app_main = main app_api (\<lambda>_ _. None) (example_env std_wire) example_cache_env (\<lambda>_. None) [''app''] (w_mongos example_world)
     (w_options example_world) (\<lambda>_. example_route) () () ''c.toml'' False False"

lemma app_lower: "ToLower ''app'' = ''app''"
  by code_simp

lemma app_loaded: "\<exists>c. LoadConfig app_api (\<lambda>_ _. None) ''c.toml'' False = Inr c \<and> tomlConfig c =
    default_config\<lparr>Databases := [(''app'', TTable [(''connection_string'', TString ''mongodb://h:1/app'')])]\<rparr>"
proof -
  have "validateDatabaseNames (\<lambda>_ _. None) [(''app'', TTable [(''connection_string'', TString ''mongodb://h:1/app'')])] = None"
    by (simp add: validateDatabaseNames_def validate_entry_def NormalizeDatabaseName_def app_lower Let_def)
  moreover have "load_file app_api ''c.toml'' =
      Inr (default_config\<lparr>Databases := [(''app'', TTable [(''connection_string'', TString ''mongodb://h:1/app'')])]\<rparr>)"
    by (simp add: load_file_def app_api_def app_file_def example_api_def parseRawConfig_def table_at_def set_if_def)
  moreover have "Build app_api x = None" for x by (simp add: app_api_def example_api_def)
  ultimately show ?thesis by (simp add: LoadConfig_def Let_def)
qed

lemma app_databases:
  assumes "tomlConfig c = default_config\<lparr>Databases := [(''app'', TTable [(''connection_string'', TString ''mongodb://h:1/app'')])]\<rparr>"
  shows "GetDatabases pd c = Inr [''app'' \<mapsto> example_database]"
  using assms by (simp add: GetDatabases_def parse_database_def string_at_def int64_at_def bool_at_def set_if_def parse_topology_def
      parse_client_config_def duration_at_def example_database_def zero_database_def zero_client_config_def NormalizeDatabaseName_def app_lower Let_def)

lemma app_started: "\<exists>c s0. LoadConfig app_api (\<lambda>_ _. None) ''c.toml'' False = Inr c \<and> app_main = Started s0"
proof -
  obtain c where c: "LoadConfig app_api (\<lambda>_ _. None) ''c.toml'' False = Inr c"
    "tomlConfig c = default_config\<lparr>Databases := [(''app'', TTable [(''connection_string'', TString ''mongodb://h:1/app'')])]\<rparr>"
    using app_loaded by blast
  have "Build app_api x = None" for x by (simp add: app_api_def example_api_def)
  with c app_databases [OF c(2)] show ?thesis by (simp add: app_main_def main_def Proxies_def NewProxy_def Let_def)
qed

theorem program_ends_clean_witness:
  "\<exists>s0 s g. app_main = Started s0 \<and> Program_run (example_env std_wire) s0 s \<and> pr_exited s \<and> pr_clients s = [g] \<and>
     (h_state g = Reporting \<or> h_state g = Ended) \<and> activeClients (w_pool (pr_world s)) = Map.empty"
proof -
  let ?E = "example_env std_wire"
  obtain c s0 where c: "LoadConfig app_api (\<lambda>_ _. None) ''c.toml'' False = Inr c" and s0: "app_main = Started s0" using app_started by blast
  note m = s0 [unfolded app_main_def]
  obtain p W where pw: "Proxies ?E example_cache_env (ParseDuration app_api) (\<lambda>_. None) [''app''] (w_mongos example_world) (w_options example_world)
      (\<lambda>_. example_route) () () c = Inr (p, W)" "s0 = program_start (p, W)" using main_starts [OF m c] .
  obtain s1 g1 where s1: "Program_run ?E s0 s1" "pr_clients s1 = [g1]" "quitting s1" "length (pr_runs s1) = 1" "rp_state (pr_runs s1 ! 0) = Accepting"
    using killed_program [OF Proxies_finite [OF pw(1)] Proxies_start(2) [OF pw(1)], of ?E] pw(2) by auto
  have "readers_consume (e_wire ?E)" by (simp add: example_env_def std_wire_consumes)
  moreover have "program_ok s1" using Program_run_ok [OF s1(1)] program_start_ok(1) [of p W] pw(2) by simp
  ultimately obtain n s where s: "Internal_run ?E n s1 s" "pr_exited s" using quitting_ends s1(3) by blast
  have "pr_runs s1 = [pr_runs s1 ! 0]" using s1(4) by (cases "pr_runs s1") auto
  then have "\<forall>x \<in> set (pr_runs s1). rp_state x \<noteq> Draining True" using s1(5) by (metis empty_iff insert_iff list.set run_state.distinct(7))
  from no_restarts [OF s(1) this] s1(4) have one: "length (pr_runs s) = 1" by simp
  have run: "Program_run ?E s0 s" using Internal_run_is_run [OF s(1) s1(1)] .
  have "length (pr_clients s) = 1" using Internal_run_clients [OF s(1)] s1(2) by simp
  then obtain g where g: "pr_clients s = [g]" by (auto simp: length_Suc_conv)
  from program_ends_clean [OF m c run s(2) one refl] g s0 run s(2) show ?thesis by auto
qed

end
